(* ===== verification/Prelude.thy ===== *)
theory Prelude
  imports Complex_Main "HOL-Library.Word" "HOL-Library.Code_Target_Nat"
begin

text \<open>
  What the component theories share.  A C++ function of the modules runs on a state and either
  returns, leaves through a Lua error (the \<open>longjmp\<close> of \<open>lua_error\<close>), or does something the C++
  standard gives no meaning to (a null dereference, an index outside an array, a conversion out of
  range).  The three endings are the constructors of \<open>outcome\<close>; \<open>bnd\<close> is sequencing, and
  \<open>triple\<close> is total correctness: a program that satisfies a triple never reaches \<open>Undef\<close>.
  After the programs come C strings, the conversions between C numbers, and list lemmas.
\<close>

named_theorems prog_defs \<open>definitions of the program combinators\<close>
named_theorems triple_intros \<open>rules that decompose a triple along the program\<close>
named_theorems api_defs \<open>definitions of the Lua API operations\<close>

section \<open>Programs\<close>

datatype ('e, 'a, 's) outcome = Ret 'a 's | Throw 'e 's | Undef

type_synonym ('e, 's, 'a) prog = "'s \<Rightarrow> ('e, 'a, 's) outcome"

definition ret :: "'a \<Rightarrow> ('e, 's, 'a) prog" where
  [prog_defs]: "ret a = (\<lambda>s. Ret a s)"

definition throw :: "'e \<Rightarrow> ('e, 's, 'a) prog" where
  [prog_defs]: "throw e = (\<lambda>s. Throw e s)"

definition undef :: "('e, 's, 'a) prog" where
  [prog_defs]: "undef = (\<lambda>s. Undef)"

definition bnd :: "('e, 's, 'a) prog \<Rightarrow> ('a \<Rightarrow> ('e, 's, 'b) prog) \<Rightarrow> ('e, 's, 'b) prog" where
  [prog_defs]: "bnd m f = (\<lambda>s. case m s of Ret a t \<Rightarrow> f a t | Throw e t \<Rightarrow> Throw e t | Undef \<Rightarrow> Undef)"

definition andThen :: "('e, 's, 'a) prog \<Rightarrow> ('e, 's, 'b) prog \<Rightarrow> ('e, 's, 'b) prog" where
  [prog_defs]: "andThen m n = bnd m (\<lambda>_. n)"

definition gets :: "('s \<Rightarrow> 'a) \<Rightarrow> ('e, 's, 'a) prog" where
  [prog_defs]: "gets f = (\<lambda>s. Ret (f s) s)"

definition modify :: "('s \<Rightarrow> 's) \<Rightarrow> ('e, 's, unit) prog" where
  [prog_defs]: "modify f = (\<lambda>s. Ret () (f s))"

text \<open>A value that C++ leaves undefined is \<open>None\<close>; reading it ends the program in \<open>Undef\<close>.\<close>

definition defined :: "'a option \<Rightarrow> ('e, 's, 'a) prog" where
  [prog_defs]: "defined x = (case x of None \<Rightarrow> undef | Some a \<Rightarrow> ret a)"

definition whenever :: "bool \<Rightarrow> ('e, 's, unit) prog \<Rightarrow> ('e, 's, unit) prog" where
  [prog_defs]: "whenever b m = (if b then m else ret ())"

primrec forEach :: "'a list \<Rightarrow> ('a \<Rightarrow> ('e, 's, unit) prog) \<Rightarrow> ('e, 's, unit) prog" where
  "forEach [] f = ret ()"
| "forEach (x # xs) f = andThen (f x) (forEach xs f)"

primrec foldProg :: "'a list \<Rightarrow> ('a \<Rightarrow> 'b \<Rightarrow> ('e, 's, 'b) prog) \<Rightarrow> 'b \<Rightarrow> ('e, 's, 'b) prog" where
  "foldProg [] f b = ret b"
| "foldProg (x # xs) f b = bnd (f x b) (foldProg xs f)"

lemma bnd_simps [simp]:
  "bnd (ret a) f = f a"
  "bnd (throw e) f = throw e"
  "bnd undef f = undef"
  by (simp_all add: prog_defs)

lemma bnd_assoc: "bnd (bnd m f) g = bnd m (\<lambda>a. bnd (f a) g)"
  by (rule ext) (simp add: bnd_def split: outcome.split)

lemma bnd_ret_right [simp]: "bnd m ret = m"
  by (rule ext) (simp add: bnd_def ret_def split: outcome.split)

lemma andThen_ret [simp]: "andThen (ret a) m = m"
  by (simp add: andThen_def)

lemma forEach_append: "forEach (xs @ ys) f = andThen (forEach xs f) (forEach ys f)"
  by (induction xs) (simp_all add: andThen_def bnd_assoc)

section \<open>Total correctness\<close>

definition triple ::
  "('s \<Rightarrow> bool) \<Rightarrow> ('e, 's, 'a) prog \<Rightarrow> ('a \<Rightarrow> 's \<Rightarrow> bool) \<Rightarrow> ('e \<Rightarrow> 's \<Rightarrow> bool) \<Rightarrow> bool" where
  "triple P m Q E \<longleftrightarrow> (\<forall>s. P s \<longrightarrow>
     (case m s of Ret a t \<Rightarrow> Q a t | Throw e t \<Rightarrow> E e t | Undef \<Rightarrow> False))"

lemma triple_ret [triple_intros]: "(\<And>s. P s \<Longrightarrow> Q a s) \<Longrightarrow> triple P (ret a) Q E"
  by (simp add: triple_def ret_def)

lemma triple_throw [triple_intros]: "(\<And>s. P s \<Longrightarrow> E e s) \<Longrightarrow> triple P (throw e) Q E"
  by (simp add: triple_def throw_def)

lemma triple_gets [triple_intros]: "(\<And>s. P s \<Longrightarrow> Q (f s) s) \<Longrightarrow> triple P (gets f) Q E"
  by (simp add: triple_def gets_def)

lemma triple_modify [triple_intros]: "(\<And>s. P s \<Longrightarrow> Q () (f s)) \<Longrightarrow> triple P (modify f) Q E"
  by (simp add: triple_def modify_def)

lemma triple_bnd:
  "triple P m R E \<Longrightarrow> (\<And>a. triple (R a) (f a) Q E) \<Longrightarrow> triple P (bnd m f) Q E"
  by (fastforce simp: triple_def bnd_def split: outcome.splits)

lemma triple_andThen:
  "triple P m (\<lambda>_. R) E \<Longrightarrow> triple R n Q E \<Longrightarrow> triple P (andThen m n) Q E"
  unfolding andThen_def by (rule triple_bnd)

lemma triple_weaken:
  assumes "triple P m Q E" and "\<And>s. P' s \<Longrightarrow> P s" and "\<And>a s. Q a s \<Longrightarrow> Q' a s"
    and "\<And>e s. E e s \<Longrightarrow> E' e s"
  shows "triple P' m Q' E'"
  using assms by (fastforce simp: triple_def split: outcome.splits)

lemma triple_if [triple_intros]:
  "(b \<Longrightarrow> triple P m Q E) \<Longrightarrow> (\<not> b \<Longrightarrow> triple P n Q E) \<Longrightarrow> triple P (if b then m else n) Q E"
  by simp

lemma triple_option [triple_intros]:
  "(x = None \<Longrightarrow> triple P m Q E) \<Longrightarrow> (\<And>a. x = Some a \<Longrightarrow> triple P (f a) Q E) \<Longrightarrow>
   triple P (case x of None \<Rightarrow> m | Some a \<Rightarrow> f a) Q E"
  by (cases x) simp_all

lemma triple_when [triple_intros]:
  "(b \<Longrightarrow> triple P m (\<lambda>_. Q) E) \<Longrightarrow> (\<And>s. \<not> b \<Longrightarrow> P s \<Longrightarrow> Q s) \<Longrightarrow> triple P (whenever b m) (\<lambda>_. Q) E"
  by (simp add: whenever_def triple_def ret_def)

lemma triple_forEach:
  assumes "\<And>x. x \<in> set xs \<Longrightarrow> triple P (f x) (\<lambda>_. P) E"
  shows "triple P (forEach xs f) (\<lambda>_. P) E"
  using assms
proof (induction xs)
  case Nil
  show ?case by (simp add: triple_ret)
next
  case (Cons x xs)
  then show ?case by (auto intro!: triple_andThen)
qed

lemma tripleD:
  assumes "triple P m Q E" and "P s"
  shows "m s \<noteq> Undef" and "\<And>a t. m s = Ret a t \<Longrightarrow> Q a t" and "\<And>e t. m s = Throw e t \<Longrightarrow> E e t"
  using assms by (auto simp: triple_def split: outcome.splits)

section \<open>Programs that keep an invariant\<close>

text \<open>\<open>keeps t I m\<close>: the program never reaches \<open>Undef\<close>, keeps \<open>I\<close>, and raises only if \<open>t\<close> is true.\<close>

definition keeps :: "bool \<Rightarrow> ('s \<Rightarrow> bool) \<Rightarrow> ('e, 's, 'a) prog \<Rightarrow> bool" where
  "keeps t I m \<longleftrightarrow> triple I m (\<lambda>_. I) (\<lambda>_ s. t \<and> I s)"

lemma keepsI: "(\<And>s. I s \<Longrightarrow> (case m s of Ret a u \<Rightarrow> I u | Throw e u \<Rightarrow> t \<and> I u | Undef \<Rightarrow> False)) \<Longrightarrow> keeps t I m"
  by (simp add: keeps_def triple_def)

lemma keepsD: "keeps t I m \<Longrightarrow> I s \<Longrightarrow> (case m s of Ret a u \<Rightarrow> I u | Throw e u \<Rightarrow> t \<and> I u | Undef \<Rightarrow> False)"
  by (auto simp: keeps_def triple_def)

lemma keeps_ret [triple_intros]: "keeps t I (ret a)" "keeps True I (throw e)" "keeps t I (gets f)"
  by (simp_all add: keeps_def triple_def prog_defs)

lemma keeps_weaken: "keeps False I m \<Longrightarrow> keeps t I m"
  unfolding keeps_def by (erule triple_weaken) auto

lemma keeps_bnd: "keeps t I m \<Longrightarrow> (\<And>a. keeps t I (f a)) \<Longrightarrow> keeps t I (bnd m f)"
  unfolding keeps_def by (rule triple_bnd)

lemma keeps_andThen [triple_intros]: "keeps t I m \<Longrightarrow> keeps t I n \<Longrightarrow> keeps t I (andThen m n)"
  unfolding keeps_def by (rule triple_andThen)

lemma keeps_modify: "(\<And>w. I w \<Longrightarrow> I (f w)) \<Longrightarrow> keeps t I (modify f)"
  by (simp add: keeps_def triple_def modify_def)

lemma keeps_whenever [triple_intros]: "(b \<Longrightarrow> keeps t I m) \<Longrightarrow> keeps t I (whenever b m)"
  by (simp add: whenever_def keeps_ret(1))

lemma keeps_if [triple_intros]:
  "(b \<Longrightarrow> keeps t I m) \<Longrightarrow> (\<not> b \<Longrightarrow> keeps t I n) \<Longrightarrow> keeps t I (if b then m else n)"
  by simp

lemma keeps_split: "(\<And>s. I s \<Longrightarrow> \<exists>J. J s \<and> keeps t J m \<and> (\<forall>u. J u \<longrightarrow> I u)) \<Longrightarrow> keeps t I m"
proof (rule keepsI)
  fix s
  assume *: "\<And>s. I s \<Longrightarrow> \<exists>J. J s \<and> keeps t J m \<and> (\<forall>u. J u \<longrightarrow> I u)" and "I s"
  then obtain J where "J s" "keeps t J m" and J: "\<forall>u. J u \<longrightarrow> I u" by blast
  then have "case m s of Ret a u \<Rightarrow> J u | Throw e u \<Rightarrow> t \<and> J u | Undef \<Rightarrow> False" by (blast dest: keepsD)
  with J show "case m s of Ret a u \<Rightarrow> I u | Throw e u \<Rightarrow> t \<and> I u | Undef \<Rightarrow> False"
    by (simp split: outcome.splits)
qed

section \<open>C strings\<close>

text \<open>
  A \<open>const char*\<close> taken from a byte sequence ends at the first zero byte: what \<open>strlen\<close>,
  \<open>strcpy\<close> and the \<open>std::string\<close> constructor see of it is \<open>c_str\<close>.
\<close>

definition nul :: char where
  "nul = CHR 0x00"

definition c_str :: "string \<Rightarrow> string" where
  "c_str s = takeWhile (\<lambda>c. c \<noteq> nul) s"

definition strlen :: "string \<Rightarrow> nat" where
  "strlen s = length (c_str s)"

lemma c_str_id [simp]: "nul \<notin> set s \<Longrightarrow> c_str s = s"
  by (auto simp: c_str_def takeWhile_eq_all_conv)

lemma nul_notin_c_str [simp]: "nul \<notin> set (c_str s)"
  by (auto simp: c_str_def dest: set_takeWhileD)

lemma c_str_idem [simp]: "c_str (c_str s) = c_str s"
  by simp

lemma c_str_append_nul [simp]: "c_str (s @ nul # t) = c_str s"
  by (induction s) (auto simp: c_str_def)

lemma c_str_Nil [simp]: "c_str [] = []"
  by (simp add: c_str_def)

lemma length_c_str_le: "length (c_str s) \<le> length s"
  by (simp add: c_str_def length_takeWhile_le)

section \<open>Conversions between C numbers\<close>

text \<open>
  A \<open>double\<close> is a rational number, an infinity or not a number; the sign of zero is dropped, no
  function of the modules looks at it.  A conversion to an integer type truncates toward zero and
  is undefined when the truncated value does not fit the type.
\<close>

datatype double = Fin rat | PosInf | NegInf | NaN

definition trunc_rat :: "rat \<Rightarrow> int" where
  "trunc_rat r = (if r < 0 then - \<lfloor>- r\<rfloor> else \<lfloor>r\<rfloor>)"

definition double_to_int :: "int \<Rightarrow> int \<Rightarrow> double \<Rightarrow> int option" where
  "double_to_int lo hi d = (case d of
     Fin r \<Rightarrow> (let n = trunc_rat r in if lo \<le> n \<and> n \<le> hi then Some n else None)
   | _ \<Rightarrow> None)"

definition to_c_int :: "double \<Rightarrow> int option" where
  "to_c_int d = double_to_int (- (2 ^ 31)) (2 ^ 31 - 1) d"

definition to_ushort :: "double \<Rightarrow> int option" where
  "to_ushort d = double_to_int 0 (2 ^ 16 - 1) d"

definition to_ptrdiff :: "double \<Rightarrow> int option" where
  "to_ptrdiff d = double_to_int (- (2 ^ 63)) (2 ^ 63 - 1) d"

text \<open>An integer that is converted to a narrower or an unsigned type keeps its low bits.\<close>

definition to_uint :: "int \<Rightarrow> int" where
  "to_uint n = n mod 2 ^ 32"

definition to_ulonglong :: "int \<Rightarrow> int" where
  "to_ulonglong n = n mod 2 ^ 64"

definition uint_to_int :: "int \<Rightarrow> int" where
  "uint_to_int n = (let m = n mod 2 ^ 32 in if m < 2 ^ 31 then m else m - 2 ^ 32)"

definition ulonglong_to_ptrdiff :: "int \<Rightarrow> int" where
  "ulonglong_to_ptrdiff n = (let m = n mod 2 ^ 64 in if m < 2 ^ 63 then m else m - 2 ^ 64)"

text \<open>
  An integer becomes the nearest \<open>double\<close>, ties to even: the low bits beyond a 53-bit
  significand are rounded away.
\<close>

fun excess_bits :: "nat \<Rightarrow> nat" where
  "excess_bits n = (if n < 2 ^ 53 then 0 else Suc (excess_bits (n div 2)))"

declare excess_bits.simps [simp del]

definition round53 :: "nat \<Rightarrow> nat" where
  "round53 n = (let k = excess_bits n; q = n div 2 ^ k; r = n mod 2 ^ k
     in if 2 * r > 2 ^ k \<or> (2 * r = 2 ^ k \<and> odd q) then (q + 1) * 2 ^ k else q * 2 ^ k)"

definition double_of_int :: "int \<Rightarrow> double" where
  "double_of_int n = Fin (of_int (sgn n * int (round53 (nat \<bar>n\<bar>))))"

lemma trunc_rat_of_int [simp]: "trunc_rat (of_int n) = n"
  by (simp add: trunc_rat_def)

lemma round53_small: "n < 2 ^ 53 \<Longrightarrow> round53 n = n"
  by (simp add: round53_def excess_bits.simps)

lemma double_of_int_exact: "\<bar>n\<bar> < 2 ^ 53 \<Longrightarrow> double_of_int n = Fin (of_int n)"
proof -
  assume "\<bar>n\<bar> < 2 ^ 53"
  then have "nat \<bar>n\<bar> < 2 ^ 53" by (simp add: nat_less_iff)
  then show ?thesis
    by (simp add: double_of_int_def round53_small sgn_if)
qed

lemma double_to_int_of_int [simp]:
  "double_to_int lo hi (Fin (of_int n)) = (if lo \<le> n \<and> n \<le> hi then Some n else None)"
  by (simp add: double_to_int_def)

lemma double_to_int_range:
  "double_to_int lo hi d = Some n \<Longrightarrow> lo \<le> n \<and> n \<le> hi"
  by (auto simp: double_to_int_def Let_def split: double.splits if_splits)

section \<open>Lists\<close>

text \<open>\<open>ListRemove\<close> of \<open>ml_sockets.h\<close> erases the first occurrence of an item; that is \<open>remove1\<close>.\<close>

lemma distinct_remove1_snoc [simp]:
  "distinct xs \<Longrightarrow> distinct (remove1 x xs @ [x])"
  by (auto simp: distinct_remove1)

lemma find_Some_in: "List.find P xs = Some x \<Longrightarrow> x \<in> set xs \<and> P x"
  by (induction xs) (auto split: if_splits)

end
