(* ===== verification/LuaNumber.thy ===== *)
theory LuaNumber
  imports Prelude
begin

text \<open>
  How Lua writes a number as text and reads one back.  \<open>lua_number2str\<close> is \<open>sprintf\<close> with the
  format \<open>%.14g\<close> (\<open>luaconf.h\<close>), \<open>luaO_str2d\<close> (\<open>lobject.c\<close>) reads with \<open>strtod\<close> and accepts trailing
  spaces.  Both conversions of the C library are written out on decimal digits.  The searches for
  an exponent take fuel: 1100 steps are more than the 1074 binary or 324 decimal places any
  \<open>double\<close> has.
\<close>

section \<open>Decimal digits\<close>

definition digit_char :: "nat \<Rightarrow> char" where
  "digit_char d = char_of (d + 48)"

definition digit_val :: "char \<Rightarrow> nat option" where
  "digit_val c = (let k = of_char c :: nat in if 48 \<le> k \<and> k \<le> 57 then Some (k - 48) else None)"

fun nat_str :: "nat \<Rightarrow> string" where
  "nat_str n = (if n < 10 then [digit_char n] else nat_str (n div 10) @ [digit_char (n mod 10)])"

declare nat_str.simps [simp del]

definition int_str :: "int \<Rightarrow> string" where
  "int_str n = (if n < 0 then CHR ''-'' # nat_str (nat (- n)) else nat_str (nat n))"

fun read_digits :: "nat \<Rightarrow> string \<Rightarrow> nat \<times> string" where
  "read_digits acc [] = (acc, [])"
| "read_digits acc (c # cs) =
     (case digit_val c of Some d \<Rightarrow> read_digits (10 * acc + d) cs | None \<Rightarrow> (acc, c # cs))"

lemma digit_val_char [simp]: "d < 10 \<Longrightarrow> digit_val (digit_char d) = Some d"
  by (simp add: digit_val_def digit_char_def Let_def)

lemma read_digits_nat_str:
  assumes "\<forall>c cs. rest = c # cs \<longrightarrow> digit_val c = None"
  shows "read_digits acc (nat_str n @ rest) = (acc * 10 ^ length (nat_str n) + n, rest)"
  using assms
proof (induction n arbitrary: acc rest rule: nat_str.induct)
  case (1 n)
  have stop: "read_digits a rest = (a, rest)" for a
    using "1.prems" by (cases rest) auto
  show ?case
  proof (cases "n < 10")
    case True
    then show ?thesis by (simp add: nat_str.simps [of n] stop)
  next
    case False
    have app: "read_digits a (xs @ ys) = (case read_digits a xs of (b, zs) \<Rightarrow>
        if zs = [] then read_digits b ys else (b, zs @ ys))" for a xs ys
      by (induction xs arbitrary: a) (auto split: option.split)
    have "read_digits acc (nat_str (n div 10)) = (acc * 10 ^ length (nat_str (n div 10)) + n div 10, [])"
      using "1.IH" [OF False, of "[]" acc] by simp
    with False show ?thesis
      by (simp add: nat_str.simps [of n] app stop algebra_simps)
  qed
qed

lemma nat_str_head: "\<exists>d ds. nat_str n = digit_char d # ds \<and> d < 10"
proof (induction n rule: nat_str.induct)
  case (1 n)
  show ?case
  proof (cases "n < 10")
    case True
    then have "nat_str n = digit_char n # [] \<and> n < 10" by (simp add: nat_str.simps [of n])
    then show ?thesis by blast
  next
    case False
    with 1 obtain d ds where "nat_str (n div 10) = digit_char d # ds" and "d < 10" by blast
    with False show ?thesis by (auto simp: nat_str.simps [of n])
  qed
qed

section \<open>Rounding\<close>

definition round_even :: "rat \<Rightarrow> int" where
  "round_even r = (let f = \<lfloor>r\<rfloor>; d = r - of_int f
     in if d > 1 / 2 \<or> (d = 1 / 2 \<and> odd f) then f + 1 else f)"

fun up_exp :: "nat \<Rightarrow> rat \<Rightarrow> rat \<Rightarrow> nat" where
  "up_exp 0 b a = 0"
| "up_exp (Suc n) b a = (if a \<ge> 1 then 0 else Suc (up_exp n b (a * b)))"

fun down_exp :: "nat \<Rightarrow> rat \<Rightarrow> rat \<Rightarrow> nat" where
  "down_exp 0 b a = 0"
| "down_exp (Suc n) b a = (if a < b then 0 else Suc (down_exp n b (a / b)))"

definition rat_exp :: "rat \<Rightarrow> rat \<Rightarrow> int" where
  "rat_exp b a = (if a < 1 then - int (up_exp 1100 b a) else int (down_exp 1100 b a))"

definition pow_int :: "rat \<Rightarrow> int \<Rightarrow> rat" where
  "pow_int b e = (if e < 0 then 1 / b ^ nat (- e) else b ^ nat e)"

text \<open>The \<open>double\<close> nearest to a rational: 53 bits of significand, exponents down to \<open>-1074\<close>.\<close>

definition nearest_double :: "rat \<Rightarrow> double" where
  "nearest_double r = (if r = 0 then Fin 0 else
     (let a = \<bar>r\<bar>; k = max (- 1074) (rat_exp 2 a - 52);
          v = of_int (round_even (a / pow_int 2 k)) * pow_int 2 k
      in if v \<ge> 2 ^ 1024 then (if r < 0 then NegInf else PosInf)
         else Fin (if r < 0 then - v else v)))"

lemma round_even_of_int [simp]: "round_even (of_int n) = n"
  by (simp add: round_even_def)

section \<open>Number to text\<close>

definition strip_zeros :: "string \<Rightarrow> string" where
  "strip_zeros s = rev (dropWhile (\<lambda>c. c = CHR ''0'') (rev s))"

definition with_fraction :: "string \<Rightarrow> string \<Rightarrow> string" where
  "with_fraction ip fp = (let f = strip_zeros fp in if f = [] then ip else ip @ CHR ''.'' # f)"

definition format_g14 :: "rat \<Rightarrow> string" where
  "format_g14 a = (if a = 0 then ''0'' else
     (let e0 = rat_exp 10 a; m0 = nat (round_even (a * pow_int 10 (13 - e0)));
          (m, e) = (if m0 \<ge> 10 ^ 14 then (10 ^ 13, e0 + 1) else (m0, e0));
          ds = nat_str m
      in if - 4 \<le> e \<and> e < 0 then
           with_fraction ''0'' (replicate (nat (- e - 1)) CHR ''0'' @ ds)
         else if 0 \<le> e \<and> e < 14 then
           with_fraction (take (nat e + 1) ds) (drop (nat e + 1) ds)
         else with_fraction (take 1 ds) (drop 1 ds) @ (if e < 0 then ''e-'' else ''e+'')
           @ (if \<bar>e\<bar> < 10 then ''0'' else []) @ nat_str (nat \<bar>e\<bar>)))"

definition lua_number2str :: "double \<Rightarrow> string" where
  "lua_number2str d = (case d of
     Fin r \<Rightarrow> (if r < 0 then CHR ''-'' # format_g14 (- r) else format_g14 r)
   | PosInf \<Rightarrow> ''inf'' | NegInf \<Rightarrow> ''-inf'' | NaN \<Rightarrow> ''nan'')"

section \<open>Text to number\<close>

definition is_space :: "char \<Rightarrow> bool" where
  "is_space c = (c = CHR '' '' \<or> (9 \<le> (of_char c :: nat) \<and> (of_char c :: nat) \<le> 13))"

definition lower :: "char \<Rightarrow> char" where
  "lower c = (let k = of_char c :: nat in if 65 \<le> k \<and> k \<le> 90 then char_of (k + 32) else c)"

fun strip_prefix :: "string \<Rightarrow> string \<Rightarrow> string option" where
  "strip_prefix [] s = Some s"
| "strip_prefix (p # ps) [] = None"
| "strip_prefix (p # ps) (c # cs) = (if lower c = p then strip_prefix ps cs else None)"

definition hex_val :: "char \<Rightarrow> nat option" where
  "hex_val c = (case digit_val c of Some d \<Rightarrow> Some d | None \<Rightarrow>
     (let k = of_char (lower c) :: nat in if 97 \<le> k \<and> k \<le> 102 then Some (k - 87) else None))"

fun read_hex :: "nat \<Rightarrow> string \<Rightarrow> nat \<times> string" where
  "read_hex acc [] = (acc, [])"
| "read_hex acc (c # cs) =
     (case hex_val c of Some d \<Rightarrow> read_hex (16 * acc + d) cs | None \<Rightarrow> (acc, c # cs))"

definition read_exponent :: "string \<Rightarrow> int \<times> string" where
  "read_exponent s = (case s of
     c # cs \<Rightarrow> (if lower c \<noteq> CHR ''e'' then (0, s) else
       (let (neg, ds) = (case cs of
              CHR ''-'' # t \<Rightarrow> (True, t) | CHR ''+'' # t \<Rightarrow> (False, t) | _ \<Rightarrow> (False, cs))
        in case ds of d # _ \<Rightarrow> (if digit_val d = None then (0, s) else
             (let (n, r) = read_digits 0 ds in (if neg then - int n else int n, r)))
           | [] \<Rightarrow> (0, s)))
   | [] \<Rightarrow> (0, s))"

definition read_decimal :: "string \<Rightarrow> (rat \<times> string) option" where
  "read_decimal s = (let (ip, r1) = read_digits 0 s; ni = length s - length r1;
       r2 = (case r1 of CHR ''.'' # t \<Rightarrow> t | _ \<Rightarrow> r1);
       (m, r3) = (case r1 of CHR ''.'' # t \<Rightarrow> read_digits ip t | _ \<Rightarrow> (ip, r1));
       nf = length r2 - length r3
     in if ni = 0 \<and> nf = 0 then None
        else (let (e, r4) = read_exponent r3
              in Some (of_nat m * pow_int 10 (e - int nf), r4)))"

definition read_magnitude :: "string \<Rightarrow> (double \<times> string) option" where
  "read_magnitude s = (case strip_prefix ''inf'' s of
     Some r \<Rightarrow> Some (PosInf, (case strip_prefix ''inity'' r of Some r' \<Rightarrow> r' | None \<Rightarrow> r))
   | None \<Rightarrow> (case strip_prefix ''nan'' s of
     Some r \<Rightarrow> Some (NaN, r)
   | None \<Rightarrow> (case strip_prefix ''0x'' s of
     Some (h # hs) \<Rightarrow> (if hex_val h = None then Some (Fin 0, tl s)
        else (let (n, r) = read_hex 0 (h # hs) in Some (nearest_double (of_nat n), r)))
   | _ \<Rightarrow> map_option (\<lambda>(q, r). (nearest_double q, r)) (read_decimal s))))"

definition neg_double :: "double \<Rightarrow> double" where
  "neg_double d = (case d of Fin r \<Rightarrow> Fin (- r) | PosInf \<Rightarrow> NegInf | NegInf \<Rightarrow> PosInf | NaN \<Rightarrow> NaN)"

definition strtod :: "string \<Rightarrow> (double \<times> string) option" where
  "strtod s = (case dropWhile is_space s of
     CHR ''-'' # t \<Rightarrow> map_option (\<lambda>(d, r). (neg_double d, r)) (read_magnitude t)
   | CHR ''+'' # t \<Rightarrow> read_magnitude t
   | t \<Rightarrow> read_magnitude t)"

definition luaO_str2d :: "string \<Rightarrow> double option" where
  "luaO_str2d s = (case strtod (c_str s) of
     None \<Rightarrow> None
   | Some (d, r) \<Rightarrow> (if dropWhile is_space r = [] then Some d else None))"

end
