(* ===== verification/LuaState.thy ===== *)
theory LuaState
  imports LuaNumber
begin

text \<open>
  The Lua virtual machine as a C++ module sees it: the values, the heap of tables, closures and
  userdata, the stack frame of the running C function, and the API functions of \<open>lapi.c\<close> with
  the parts of \<open>lobject.c\<close>, \<open>ltable.c\<close>, \<open>ltm.c\<close> and \<open>lvm.c\<close> they call.  The library is built without
  \<open>api_check\<close>, so an index outside the frame reads memory that is not a slot: the model ends in
  \<open>Undef\<close> there.  Lua code itself (\<open>luaV_execute\<close>) is the parameter \<open>run\<close> of the operations that
  can call back into it.  A table is the list of its entries in the order \<open>lua_next\<close> visits
  them; the addresses of userdata blocks are taken from an arbitrary sequence, because the
  collector may hand out a freed address again.
\<close>

section \<open>Values and objects\<close>

type_synonym ptr = nat

datatype TValue =
  TNil
| TBoolean bool
| TLightUserData ptr
| TNumber double
| TString string
| TTable ptr
| TFunction ptr
| TUserData ptr
| TThread ptr

fun ttype :: "TValue \<Rightarrow> int" where
  "ttype TNil = 0"
| "ttype (TBoolean _) = 1"
| "ttype (TLightUserData _) = 2"
| "ttype (TNumber _) = 3"
| "ttype (TString _) = 4"
| "ttype (TTable _) = 5"
| "ttype (TFunction _) = 6"
| "ttype (TUserData _) = 7"
| "ttype (TThread _) = 8"

record Table =
  entries :: "(TValue \<times> TValue) list"
  metatable :: ptr

record Udata =
  ulen :: nat
  umetatable :: ptr
  uenv :: ptr
  ublock :: "ptr option"

record Closure =
  isC :: bool
  cfun :: string
  cenv :: ptr
  upvalues :: "TValue list"

record CallerInfo =
  where_prefix :: string
  called_name :: "string option"
  called_method :: bool

text \<open>
  \<open>L->base\<close> to \<open>L->top\<close> is the list \<open>stack\<close>; \<open>curr_func\<close> is the running closure, \<open>None\<close> at the base
  level.  \<open>caller\<close> is what \<open>lua_getstack\<close> and \<open>lua_getinfo\<close> report of the running function: the
  position prefix of its caller, its name there and whether it was called as a method.
\<close>

record lua_State =
  stack :: "TValue list"
  curr_func :: "ptr option"
  tables :: "ptr \<Rightarrow> Table option"
  closures :: "ptr \<Rightarrow> Closure option"
  udatas :: "ptr \<Rightarrow> Udata option"
  next_obj :: ptr
  uaddr :: "nat \<Rightarrow> ptr"
  next_udata :: nat
  registry :: ptr
  globals :: ptr
  typemt :: "int \<Rightarrow> ptr"
  caller :: CallerInfo

type_synonym ('s, 'a) lua = "(TValue, 's, 'a) prog"

abbreviation lua_raise :: "string \<Rightarrow> ('s, 'a) lua" where
  "lua_raise msg \<equiv> throw (TString msg)"

abbreviation (input) LUA_REGISTRYINDEX :: int where "LUA_REGISTRYINDEX \<equiv> - 10000"
abbreviation (input) LUA_ENVIRONINDEX :: int where "LUA_ENVIRONINDEX \<equiv> - 10001"
abbreviation (input) LUA_GLOBALSINDEX :: int where "LUA_GLOBALSINDEX \<equiv> - 10002"

abbreviation (input) LUA_TNONE :: int where "LUA_TNONE \<equiv> - 1"
abbreviation (input) LUA_TNIL :: int where "LUA_TNIL \<equiv> 0"
abbreviation (input) LUA_TBOOLEAN :: int where "LUA_TBOOLEAN \<equiv> 1"
abbreviation (input) LUA_TLIGHTUSERDATA :: int where "LUA_TLIGHTUSERDATA \<equiv> 2"
abbreviation (input) LUA_TNUMBER :: int where "LUA_TNUMBER \<equiv> 3"
abbreviation (input) LUA_TSTRING :: int where "LUA_TSTRING \<equiv> 4"
abbreviation (input) LUA_TTABLE :: int where "LUA_TTABLE \<equiv> 5"
abbreviation (input) LUA_TFUNCTION :: int where "LUA_TFUNCTION \<equiv> 6"
abbreviation (input) LUA_TUSERDATA :: int where "LUA_TUSERDATA \<equiv> 7"
abbreviation (input) LUA_TTHREAD :: int where "LUA_TTHREAD \<equiv> 8"

definition luaT_typenames :: "int \<Rightarrow> string" where
  "luaT_typenames t = [''nil'', ''boolean'', ''userdata'', ''number'', ''string'', ''table'',
     ''function'', ''userdata'', ''thread'', ''proto'', ''upval''] ! nat t"

definition lua_typename :: "int \<Rightarrow> string" where
  "lua_typename t = (if t = LUA_TNONE then ''no value'' else luaT_typenames t)"

text \<open>\<open>luaO_rawequalObj\<close>: the only value that differs from itself is not-a-number.\<close>

definition luai_numeq :: "double \<Rightarrow> double \<Rightarrow> bool" where
  "luai_numeq a b = (a \<noteq> NaN \<and> a = b)"

definition luaO_rawequalObj :: "TValue \<Rightarrow> TValue \<Rightarrow> bool" where
  "luaO_rawequalObj t1 t2 = (if ttype t1 \<noteq> ttype t2 then False else (case (t1, t2) of
     (TNil, TNil) \<Rightarrow> True
   | (TNumber a, TNumber b) \<Rightarrow> luai_numeq a b
   | _ \<Rightarrow> t1 = t2))"

definition l_isfalse :: "TValue \<Rightarrow> bool" where
  "l_isfalse v = (v = TNil \<or> v = TBoolean False)"

definition luaV_tonumber :: "TValue \<Rightarrow> double option" where
  "luaV_tonumber v = (case v of TNumber n \<Rightarrow> Some n | TString s \<Rightarrow> luaO_str2d s | _ \<Rightarrow> None)"

definition luaV_tostring :: "TValue \<Rightarrow> TValue option" where
  "luaV_tostring v = (case v of TNumber n \<Rightarrow> Some (TString (c_str (lua_number2str n))) | _ \<Rightarrow> None)"

text \<open>\<open>LUA_QL\<close> and \<open>LUA_QS\<close> put single quotes around a text.\<close>

definition quoted :: "string \<Rightarrow> string" where
  "quoted s = CHR 0x27 # s @ [CHR 0x27]"

section \<open>Tables\<close>

definition new_table :: Table where
  "new_table = \<lparr>entries = [], metatable = 0\<rparr>"

definition slot :: "Table \<Rightarrow> TValue \<Rightarrow> (TValue \<times> TValue) option" where
  "slot h k = List.find (\<lambda>e. luaO_rawequalObj (fst e) k) (entries h)"

definition luaH_get :: "Table \<Rightarrow> TValue \<Rightarrow> TValue" where
  "luaH_get h k = (if k = TNil then TNil else case slot h k of Some e \<Rightarrow> snd e | None \<Rightarrow> TNil)"

text \<open>\<open>luaH_set\<close> returns the slot of a key, made if it is missing; the caller then writes to it.\<close>

definition luaH_set :: "Table \<Rightarrow> TValue \<Rightarrow> string + Table" where
  "luaH_set h k =
     (if k \<noteq> TNil \<and> slot h k \<noteq> None then Inr h
      else if k = TNil then Inl ''table index is nil''
      else if k = TNumber NaN then Inl ''table index is NaN''
      else Inr (h\<lparr>entries := entries h @ [(k, TNil)]\<rparr>))"

definition write_slot :: "Table \<Rightarrow> TValue \<Rightarrow> TValue \<Rightarrow> Table" where
  "write_slot h k v = h\<lparr>entries :=
     map (\<lambda>e. if luaO_rawequalObj (fst e) k then (fst e, v) else e) (entries h)\<rparr>"

fun next_entry :: "(TValue \<times> TValue) list \<Rightarrow> (TValue \<times> TValue) option" where
  "next_entry [] = None"
| "next_entry (e # es) = (if snd e = TNil then next_entry es else Some e)"

definition findindex :: "Table \<Rightarrow> TValue \<Rightarrow> (TValue \<times> TValue) list option" where
  "findindex h k = (if k = TNil then Some (entries h)
     else case dropWhile (\<lambda>e. \<not> luaO_rawequalObj (fst e) k) (entries h) of
       [] \<Rightarrow> None | e # es \<Rightarrow> Some es)"

definition luaH_next :: "Table \<Rightarrow> TValue \<Rightarrow> string + (TValue \<times> TValue) option" where
  "luaH_next h k = (case findindex h k of
     None \<Rightarrow> Inl (''invalid key to '' @ quoted ''next'')
   | Some es \<Rightarrow> Inr (next_entry es))"

definition getmt :: "'z lua_State_scheme \<Rightarrow> TValue \<Rightarrow> ptr" where
  "getmt s v = (case v of
     TTable p \<Rightarrow> (case tables s p of Some h \<Rightarrow> metatable h | None \<Rightarrow> 0)
   | TUserData p \<Rightarrow> (case udatas s p of Some u \<Rightarrow> umetatable u | None \<Rightarrow> 0)
   | _ \<Rightarrow> typemt s (ttype v))"

definition table_get :: "'z lua_State_scheme \<Rightarrow> ptr \<Rightarrow> TValue \<Rightarrow> TValue" where
  "table_get s p k = (case tables s p of Some h \<Rightarrow> luaH_get h k | None \<Rightarrow> TNil)"

definition luaT_gettmbyobj :: "'z lua_State_scheme \<Rightarrow> TValue \<Rightarrow> string \<Rightarrow> TValue" where
  "luaT_gettmbyobj s v ev = (let mt = getmt s v in if mt = 0 then TNil else table_get s mt (TString ev))"

section \<open>Addresses of stack slots and pseudo-indices\<close>

datatype adr = NilObject | Slot nat | RegistryAdr | EnvironAdr | GlobalsAdr | UpvalueAdr nat

definition index2adr :: "int \<Rightarrow> 'z lua_State_scheme \<Rightarrow> adr option" where
  "index2adr idx s =
     (if idx > 0 then
        (if nat (idx - 1) \<ge> length (stack s) then Some NilObject else Some (Slot (nat (idx - 1))))
      else if idx > LUA_REGISTRYINDEX then
        (if idx \<noteq> 0 \<and> nat (- idx) \<le> length (stack s)
         then Some (Slot (length (stack s) - nat (- idx))) else None)
      else if idx = LUA_REGISTRYINDEX then Some RegistryAdr
      else if idx = LUA_GLOBALSINDEX then Some GlobalsAdr
      else (case curr_func s of None \<Rightarrow> None | Some f \<Rightarrow>
        (case closures s f of None \<Rightarrow> None | Some cl \<Rightarrow>
           (if idx = LUA_ENVIRONINDEX then Some EnvironAdr
            else (let n = nat (LUA_GLOBALSINDEX - idx)
                  in if n \<le> length (upvalues cl) then Some (UpvalueAdr (n - 1)) else Some NilObject)))))"

definition running :: "'z lua_State_scheme \<Rightarrow> Closure option" where
  "running s = (case curr_func s of None \<Rightarrow> None | Some f \<Rightarrow> closures s f)"

definition deref :: "adr \<Rightarrow> 'z lua_State_scheme \<Rightarrow> TValue" where
  "deref a s = (case a of
     NilObject \<Rightarrow> TNil
   | Slot i \<Rightarrow> stack s ! i
   | RegistryAdr \<Rightarrow> TTable (registry s)
   | GlobalsAdr \<Rightarrow> TTable (globals s)
   | EnvironAdr \<Rightarrow> (case running s of Some cl \<Rightarrow> TTable (cenv cl) | None \<Rightarrow> TNil)
   | UpvalueAdr i \<Rightarrow> (case running s of Some cl \<Rightarrow> upvalues cl ! i | None \<Rightarrow> TNil))"

definition adr_of :: "int \<Rightarrow> ('z lua_State_scheme, adr) lua" where
  [api_defs]: "adr_of idx = bnd (gets (index2adr idx)) defined"

definition value_at :: "int \<Rightarrow> ('z lua_State_scheme, TValue) lua" where
  [api_defs]: "value_at idx = bnd (adr_of idx) (\<lambda>a. gets (deref a))"

definition getcurrenv :: "'z lua_State_scheme \<Rightarrow> ptr" where
  "getcurrenv s = (case running s of None \<Rightarrow> globals s | Some cl \<Rightarrow> cenv cl)"

definition push :: "TValue \<Rightarrow> ('z lua_State_scheme, unit) lua" where
  [api_defs]: "push v = modify (\<lambda>s. s\<lparr>stack := stack s @ [v]\<rparr>)"

definition top_value :: "('z lua_State_scheme, TValue) lua" where
  [api_defs]: "top_value = value_at (- 1)"

definition drop_top :: "nat \<Rightarrow> ('z lua_State_scheme, unit) lua" where
  [api_defs]: "drop_top n = modify (\<lambda>s. s\<lparr>stack := take (length (stack s) - n) (stack s)\<rparr>)"

end
