(* ===== verification/LuaApi.thy ===== *)
theory LuaApi
  imports LuaState
begin

text \<open>
  The functions of \<open>lapi.c\<close> the modules call, in the order of the file: stack manipulation, reading
  of values, pushing, table access, calls and errors.  Each is a program on any record that
  extends \<open>lua_State\<close>, so a module keeps its own fields beside the machine's.  The lemmas give the
  effect of each operation on the frame and are collected in \<open>api_simps\<close>.
\<close>

named_theorems api_simps \<open>effect of the API operations on the frame\<close>

section \<open>Basic stack manipulation\<close>

definition lua_gettop :: "('z lua_State_scheme, int) lua" where
  [api_defs]: "lua_gettop = gets (\<lambda>s. int (length (stack s)))"

definition lua_settop :: "int \<Rightarrow> ('z lua_State_scheme, unit) lua" where
  [api_defs]: "lua_settop idx =
     (if idx \<ge> 0 then
        modify (\<lambda>s. s\<lparr>stack := take (nat idx) (stack s) @ replicate (nat idx - length (stack s)) TNil\<rparr>)
      else bnd lua_gettop (\<lambda>n.
        if - (idx + 1) \<le> n then drop_top (nat (- (idx + 1))) else undef))"

definition lua_pop :: "int \<Rightarrow> ('z lua_State_scheme, unit) lua" where
  [api_defs]: "lua_pop n = lua_settop (- n - 1)"

definition lua_remove :: "int \<Rightarrow> ('z lua_State_scheme, unit) lua" where
  [api_defs]: "lua_remove idx = bnd (adr_of idx) (\<lambda>a. case a of
     Slot i \<Rightarrow> modify (\<lambda>s. s\<lparr>stack := take i (stack s) @ drop (Suc i) (stack s)\<rparr>)
   | _ \<Rightarrow> undef)"

definition lua_insert :: "int \<Rightarrow> ('z lua_State_scheme, unit) lua" where
  [api_defs]: "lua_insert idx = bnd (adr_of idx) (\<lambda>a. case a of
     Slot i \<Rightarrow> modify (\<lambda>s. s\<lparr>stack :=
       take i (stack s) @ last (stack s) # drop i (butlast (stack s))\<rparr>)
   | _ \<Rightarrow> undef)"

definition store :: "adr \<Rightarrow> TValue \<Rightarrow> ('z lua_State_scheme, unit) lua" where
  [api_defs]: "store a v = (case a of
     Slot i \<Rightarrow> modify (\<lambda>s. s\<lparr>stack := (stack s)[i := v]\<rparr>)
   | EnvironAdr \<Rightarrow> (case v of
       TTable e \<Rightarrow> modify (\<lambda>s. s\<lparr>closures := (\<lambda>p. if Some p = curr_func s
          then map_option (\<lambda>cl. cl\<lparr>cenv := e\<rparr>) (closures s p) else closures s p)\<rparr>)
     | _ \<Rightarrow> undef)
   | UpvalueAdr i \<Rightarrow> modify (\<lambda>s. s\<lparr>closures := (\<lambda>p. if Some p = curr_func s
          then map_option (\<lambda>cl. cl\<lparr>upvalues := (upvalues cl)[i := v]\<rparr>) (closures s p) else closures s p)\<rparr>)
   | RegistryAdr \<Rightarrow> (case v of TTable e \<Rightarrow> modify (\<lambda>s. s\<lparr>registry := e\<rparr>) | _ \<Rightarrow> undef)
   | GlobalsAdr \<Rightarrow> (case v of TTable e \<Rightarrow> modify (\<lambda>s. s\<lparr>globals := e\<rparr>) | _ \<Rightarrow> undef)
   | NilObject \<Rightarrow> undef)"

definition lua_replace :: "int \<Rightarrow> ('z lua_State_scheme, unit) lua" where
  [api_defs]: "lua_replace idx = bnd (gets curr_func) (\<lambda>f.
     if idx = LUA_ENVIRONINDEX \<and> f = None then lua_raise ''no calling environment''
     else bnd (adr_of idx) (\<lambda>a. bnd top_value (\<lambda>v. andThen (store a v) (drop_top 1))))"

definition lua_pushvalue :: "int \<Rightarrow> ('z lua_State_scheme, unit) lua" where
  [api_defs]: "lua_pushvalue idx = bnd (value_at idx) push"

section \<open>Access functions\<close>

definition lua_type :: "int \<Rightarrow> ('z lua_State_scheme, int) lua" where
  [api_defs]: "lua_type idx = bnd (adr_of idx) (\<lambda>a.
     if a = NilObject then ret LUA_TNONE else gets (\<lambda>s. ttype (deref a s)))"

definition lua_iscfunction :: "int \<Rightarrow> ('z lua_State_scheme, bool) lua" where
  [api_defs]: "lua_iscfunction idx = bnd (value_at idx) (\<lambda>v. case v of
     TFunction p \<Rightarrow> gets (\<lambda>s. case closures s p of Some cl \<Rightarrow> isC cl | None \<Rightarrow> False)
   | _ \<Rightarrow> ret False)"

definition lua_isnumber :: "int \<Rightarrow> ('z lua_State_scheme, bool) lua" where
  [api_defs]: "lua_isnumber idx = bnd (value_at idx) (\<lambda>v. ret (luaV_tonumber v \<noteq> None))"

definition lua_isstring :: "int \<Rightarrow> ('z lua_State_scheme, bool) lua" where
  [api_defs]: "lua_isstring idx = bnd (lua_type idx) (\<lambda>t. ret (t = LUA_TSTRING \<or> t = LUA_TNUMBER))"

definition lua_isuserdata :: "int \<Rightarrow> ('z lua_State_scheme, bool) lua" where
  [api_defs]: "lua_isuserdata idx = bnd (value_at idx) (\<lambda>v. ret (case v of
     TUserData _ \<Rightarrow> True | TLightUserData _ \<Rightarrow> True | _ \<Rightarrow> False))"

definition lua_rawequal :: "int \<Rightarrow> int \<Rightarrow> ('z lua_State_scheme, bool) lua" where
  [api_defs]: "lua_rawequal i j = bnd (adr_of i) (\<lambda>a. bnd (adr_of j) (\<lambda>b.
     if a = NilObject \<or> b = NilObject then ret False
     else gets (\<lambda>s. luaO_rawequalObj (deref a s) (deref b s))))"

definition lua_tonumber :: "int \<Rightarrow> ('z lua_State_scheme, double) lua" where
  [api_defs]: "lua_tonumber idx = bnd (value_at idx) (\<lambda>v. ret (case luaV_tonumber v of
     Some n \<Rightarrow> n | None \<Rightarrow> Fin 0))"

definition lua_tointeger :: "int \<Rightarrow> ('z lua_State_scheme, int) lua" where
  [api_defs]: "lua_tointeger idx = bnd (value_at idx) (\<lambda>v. case luaV_tonumber v of
     Some n \<Rightarrow> defined (to_ptrdiff n) | None \<Rightarrow> ret 0)"

definition lua_toboolean :: "int \<Rightarrow> ('z lua_State_scheme, bool) lua" where
  [api_defs]: "lua_toboolean idx = bnd (value_at idx) (\<lambda>v. ret (\<not> l_isfalse v))"

definition lua_tolstring :: "int \<Rightarrow> ('z lua_State_scheme, string option) lua" where
  [api_defs]: "lua_tolstring idx = bnd (adr_of idx) (\<lambda>a. bnd (gets (deref a)) (\<lambda>v. case v of
     TString str \<Rightarrow> ret (Some str)
   | _ \<Rightarrow> (case luaV_tostring v of
       Some (TString str) \<Rightarrow> andThen (store a (TString str)) (ret (Some str))
     | _ \<Rightarrow> ret None)))"

text \<open>\<open>luaH_getn\<close> promises some border; with the entries as a list, the least one is taken.\<close>

fun border :: "nat \<Rightarrow> Table \<Rightarrow> nat \<Rightarrow> nat" where
  "border 0 h n = n"
| "border (Suc k) h n =
     (if luaH_get h (TNumber (Fin (of_nat (Suc n)))) = TNil then n else border k h (Suc n))"

definition luaH_getn :: "Table \<Rightarrow> nat" where
  "luaH_getn h = border (Suc (length (entries h))) h 0"

definition lua_objlen :: "int \<Rightarrow> ('z lua_State_scheme, nat) lua" where
  [api_defs]: "lua_objlen idx = bnd (adr_of idx) (\<lambda>a. bnd (gets (deref a)) (\<lambda>v. case v of
     TString str \<Rightarrow> ret (length str)
   | TUserData p \<Rightarrow> gets (\<lambda>s. case udatas s p of Some u \<Rightarrow> ulen u | None \<Rightarrow> 0)
   | TTable p \<Rightarrow> gets (\<lambda>s. case tables s p of Some h \<Rightarrow> luaH_getn h | None \<Rightarrow> 0)
   | TNumber n \<Rightarrow> (case luaV_tostring v of
       Some (TString str) \<Rightarrow> andThen (store a (TString str)) (ret (length str))
     | _ \<Rightarrow> ret 0)
   | _ \<Rightarrow> ret 0))"

definition lua_tocfunction :: "int \<Rightarrow> ('z lua_State_scheme, string option) lua" where
  [api_defs]: "lua_tocfunction idx = bnd (value_at idx) (\<lambda>v. case v of
     TFunction p \<Rightarrow> gets (\<lambda>s. case closures s p of
        Some cl \<Rightarrow> (if isC cl then Some (cfun cl) else None) | None \<Rightarrow> None)
   | _ \<Rightarrow> ret None)"

definition lua_touserdata :: "int \<Rightarrow> ('z lua_State_scheme, ptr) lua" where
  [api_defs]: "lua_touserdata idx = bnd (value_at idx) (\<lambda>v. ret (case v of
     TUserData p \<Rightarrow> p | TLightUserData p \<Rightarrow> p | _ \<Rightarrow> 0))"

definition lua_tothread :: "int \<Rightarrow> ('z lua_State_scheme, ptr) lua" where
  [api_defs]: "lua_tothread idx = bnd (value_at idx) (\<lambda>v. ret (case v of TThread p \<Rightarrow> p | _ \<Rightarrow> 0))"

definition lua_topointer :: "int \<Rightarrow> ('z lua_State_scheme, ptr) lua" where
  [api_defs]: "lua_topointer idx = bnd (value_at idx) (\<lambda>v. ret (case v of
     TTable p \<Rightarrow> p | TFunction p \<Rightarrow> p | TThread p \<Rightarrow> p
   | TUserData p \<Rightarrow> p | TLightUserData p \<Rightarrow> p | _ \<Rightarrow> 0))"

section \<open>Push functions\<close>

definition lua_pushnil :: "('z lua_State_scheme, unit) lua" where
  [api_defs]: "lua_pushnil = push TNil"

definition lua_pushnumber :: "double \<Rightarrow> ('z lua_State_scheme, unit) lua" where
  [api_defs]: "lua_pushnumber n = push (TNumber n)"

definition lua_pushinteger :: "int \<Rightarrow> ('z lua_State_scheme, unit) lua" where
  [api_defs]: "lua_pushinteger n = push (TNumber (double_of_int n))"

definition lua_pushlstring :: "string \<Rightarrow> ('z lua_State_scheme, unit) lua" where
  [api_defs]: "lua_pushlstring s = push (TString s)"

definition lua_pushstring :: "string option \<Rightarrow> ('z lua_State_scheme, unit) lua" where
  [api_defs]: "lua_pushstring s = (case s of
     None \<Rightarrow> lua_pushnil | Some str \<Rightarrow> lua_pushlstring (c_str str))"

definition lua_pushcclosure :: "string \<Rightarrow> nat \<Rightarrow> ('z lua_State_scheme, unit) lua" where
  [api_defs]: "lua_pushcclosure fn n = bnd lua_gettop (\<lambda>t. if int n > t then undef else
     modify (\<lambda>s. let p = next_obj s; k = length (stack s) - n in
       s\<lparr>stack := take k (stack s) @ [TFunction p],
         closures := (closures s)(p \<mapsto>
           \<lparr>isC = True, cfun = fn, cenv = getcurrenv s, upvalues = drop k (stack s)\<rparr>),
         next_obj := p + 1\<rparr>))"

definition lua_pushcfunction :: "string \<Rightarrow> ('z lua_State_scheme, unit) lua" where
  [api_defs]: "lua_pushcfunction fn = lua_pushcclosure fn 0"

definition lua_pushboolean :: "bool \<Rightarrow> ('z lua_State_scheme, unit) lua" where
  [api_defs]: "lua_pushboolean b = push (TBoolean b)"

definition lua_pushlightuserdata :: "ptr \<Rightarrow> ('z lua_State_scheme, unit) lua" where
  [api_defs]: "lua_pushlightuserdata p = push (TLightUserData p)"

section \<open>Calls\<close>

text \<open>
  \<open>luaD_call\<close>: the callee runs on a frame that holds its arguments, and its results replace the
  function and the arguments in the caller's frame.  A value that is no function is called
  through its \<open>__call\<close> metamethod (\<open>tryfuncTM\<close>).
\<close>

definition call_frame ::
  "(ptr \<Rightarrow> ('z lua_State_scheme, TValue list) lua) \<Rightarrow> ptr \<Rightarrow> TValue list \<Rightarrow>
   ('z lua_State_scheme, TValue list) lua" where
  "call_frame run p args = (\<lambda>s. case run p (s\<lparr>stack := args, curr_func := Some p\<rparr>) of
     Ret rs t \<Rightarrow> Ret rs (t\<lparr>stack := stack s, curr_func := curr_func s\<rparr>)
   | Throw e t \<Rightarrow> Throw e (t\<lparr>stack := stack s, curr_func := curr_func s\<rparr>)
   | Undef \<Rightarrow> Undef)"

definition call_value ::
  "(ptr \<Rightarrow> ('z lua_State_scheme, TValue list) lua) \<Rightarrow> TValue \<Rightarrow> TValue list \<Rightarrow>
   ('z lua_State_scheme, TValue list) lua" where
  "call_value run f args = (case f of
     TFunction p \<Rightarrow> call_frame run p args
   | _ \<Rightarrow> bnd (gets (\<lambda>s. luaT_gettmbyobj s f ''__call'')) (\<lambda>tm. case tm of
       TFunction p \<Rightarrow> call_frame run p (f # args)
     | _ \<Rightarrow> lua_raise (''attempt to call a '' @ luaT_typenames (ttype f) @ '' value'')))"

definition adjust_results :: "int \<Rightarrow> TValue list \<Rightarrow> TValue list" where
  "adjust_results nres rs = (if nres = - 1 then rs
     else take (nat nres) rs @ replicate (nat nres - length rs) TNil)"

definition lua_call ::
  "(ptr \<Rightarrow> ('z lua_State_scheme, TValue list) lua) \<Rightarrow> nat \<Rightarrow> int \<Rightarrow> ('z lua_State_scheme, unit) lua" where
  [api_defs]: "lua_call run nargs nresults = bnd (gets stack) (\<lambda>st.
     if nargs + 1 > length st then undef else
     (let k = length st - (nargs + 1) in
      bnd (call_value run (st ! k) (drop (k + 1) st)) (\<lambda>rs.
        modify (\<lambda>s. s\<lparr>stack := take k st @ adjust_results nresults rs\<rparr>))))"

text \<open>\<open>lua_pcall\<close> without an error function: a Lua error becomes \<open>LUA_ERRRUN\<close> and its value on the stack.\<close>

definition lua_pcall ::
  "(ptr \<Rightarrow> ('z lua_State_scheme, TValue list) lua) \<Rightarrow> nat \<Rightarrow> int \<Rightarrow> ('z lua_State_scheme, int) lua" where
  [api_defs]: "lua_pcall run nargs nresults = (\<lambda>s.
     let st = stack s; k = length st - (nargs + 1) in
     case lua_call run nargs nresults s of
       Ret _ t \<Rightarrow> Ret 0 t
     | Throw e t \<Rightarrow> Ret 2 (t\<lparr>stack := take k st @ [e], curr_func := curr_func s\<rparr>)
     | Undef \<Rightarrow> Undef)"

definition lua_error :: "('z lua_State_scheme, 'a) lua" where
  [api_defs]: "lua_error = bnd top_value throw"

section \<open>Get functions\<close>

text \<open>\<open>luaV_gettable\<close> and \<open>luaV_settable\<close> follow at most \<open>MAXTAGLOOP\<close> metamethods.\<close>

fun gettable_loop ::
  "(ptr \<Rightarrow> ('z lua_State_scheme, TValue list) lua) \<Rightarrow> nat \<Rightarrow> TValue \<Rightarrow> TValue \<Rightarrow>
   ('z lua_State_scheme, TValue) lua" where
  "gettable_loop run 0 t key = lua_raise ''loop in gettable''"
| "gettable_loop run (Suc n) t key = bnd (gets (\<lambda>s. luaT_gettmbyobj s t ''__index'')) (\<lambda>tm.
     bnd (gets (\<lambda>s. case t of TTable p \<Rightarrow> table_get s p key | _ \<Rightarrow> TNil)) (\<lambda>res.
     if res \<noteq> TNil then ret res
     else if tm = TNil then
       (case t of TTable _ \<Rightarrow> ret TNil
        | _ \<Rightarrow> lua_raise (''attempt to index a '' @ luaT_typenames (ttype t) @ '' value''))
     else (case tm of
        TFunction p \<Rightarrow> bnd (call_frame run p [t, key]) (\<lambda>rs. ret (hd (adjust_results 1 rs)))
      | _ \<Rightarrow> gettable_loop run n tm key)))"

definition luaV_gettable ::
  "(ptr \<Rightarrow> ('z lua_State_scheme, TValue list) lua) \<Rightarrow> TValue \<Rightarrow> TValue \<Rightarrow> ('z lua_State_scheme, TValue) lua" where
  "luaV_gettable run t key = gettable_loop run 100 t key"

definition put_table :: "ptr \<Rightarrow> Table \<Rightarrow> ('z lua_State_scheme, unit) lua" where
  [api_defs]: "put_table p h = modify (\<lambda>s. s\<lparr>tables := (tables s)(p \<mapsto> h)\<rparr>)"

fun settable_loop ::
  "(ptr \<Rightarrow> ('z lua_State_scheme, TValue list) lua) \<Rightarrow> nat \<Rightarrow> TValue \<Rightarrow> TValue \<Rightarrow> TValue \<Rightarrow>
   ('z lua_State_scheme, unit) lua" where
  "settable_loop run 0 t key v = lua_raise ''loop in settable''"
| "settable_loop run (Suc n) t key v = bnd (gets (\<lambda>s. luaT_gettmbyobj s t ''__newindex'')) (\<lambda>tm.
     let chase = (case tm of
           TFunction p \<Rightarrow> bnd (call_frame run p [t, key, v]) (\<lambda>_. ret ())
         | _ \<Rightarrow> settable_loop run n tm key v) in
     case t of
       TTable p \<Rightarrow> bnd (gets (\<lambda>s. tables s p)) (\<lambda>oh. bnd (defined oh) (\<lambda>h.
         case luaH_set h key of
           Inl msg \<Rightarrow> lua_raise msg
         | Inr h' \<Rightarrow> (if luaH_get h' key \<noteq> TNil \<or> tm = TNil then put_table p (write_slot h' key v)
                     else andThen (put_table p h') chase)))
     | _ \<Rightarrow> (if tm = TNil then lua_raise (''attempt to index a '' @ luaT_typenames (ttype t) @ '' value'')
            else chase))"

definition luaV_settable ::
  "(ptr \<Rightarrow> ('z lua_State_scheme, TValue list) lua) \<Rightarrow> TValue \<Rightarrow> TValue \<Rightarrow> TValue \<Rightarrow>
   ('z lua_State_scheme, unit) lua" where
  "luaV_settable run t key v = settable_loop run 100 t key v"

definition lua_gettable ::
  "(ptr \<Rightarrow> ('z lua_State_scheme, TValue list) lua) \<Rightarrow> int \<Rightarrow> ('z lua_State_scheme, unit) lua" where
  [api_defs]: "lua_gettable run idx = bnd (value_at idx) (\<lambda>t. bnd top_value (\<lambda>k.
     bnd (luaV_gettable run t k) (\<lambda>v. andThen (drop_top 1) (push v))))"

definition lua_getfield ::
  "(ptr \<Rightarrow> ('z lua_State_scheme, TValue list) lua) \<Rightarrow> int \<Rightarrow> string \<Rightarrow> ('z lua_State_scheme, unit) lua" where
  [api_defs]: "lua_getfield run idx k = bnd (value_at idx) (\<lambda>t.
     bnd (luaV_gettable run t (TString (c_str k))) push)"

definition lua_getglobal ::
  "(ptr \<Rightarrow> ('z lua_State_scheme, TValue list) lua) \<Rightarrow> string \<Rightarrow> ('z lua_State_scheme, unit) lua" where
  [api_defs]: "lua_getglobal run k = lua_getfield run LUA_GLOBALSINDEX k"

definition table_at :: "int \<Rightarrow> ('z lua_State_scheme, ptr \<times> Table) lua" where
  [api_defs]: "table_at idx = bnd (value_at idx) (\<lambda>t. case t of
     TTable p \<Rightarrow> bnd (gets (\<lambda>s. tables s p)) (\<lambda>oh. bnd (defined oh) (\<lambda>h. ret (p, h)))
   | _ \<Rightarrow> undef)"

definition lua_rawget :: "int \<Rightarrow> ('z lua_State_scheme, unit) lua" where
  [api_defs]: "lua_rawget idx = bnd (table_at idx) (\<lambda>ph. bnd top_value (\<lambda>k.
     andThen (drop_top 1) (push (luaH_get (snd ph) k))))"

definition lua_rawgeti :: "int \<Rightarrow> int \<Rightarrow> ('z lua_State_scheme, unit) lua" where
  [api_defs]: "lua_rawgeti idx n = bnd (table_at idx) (\<lambda>ph.
     push (luaH_get (snd ph) (TNumber (Fin (of_int n)))))"

definition lua_createtable :: "('z lua_State_scheme, unit) lua" where
  [api_defs]: "lua_createtable = modify (\<lambda>s. let p = next_obj s in
     s\<lparr>stack := stack s @ [TTable p], tables := (tables s)(p \<mapsto> new_table), next_obj := p + 1\<rparr>)"

definition lua_getmetatable :: "int \<Rightarrow> ('z lua_State_scheme, bool) lua" where
  [api_defs]: "lua_getmetatable idx = bnd (value_at idx) (\<lambda>v. bnd (gets (\<lambda>s. getmt s v)) (\<lambda>mt.
     if mt = 0 then ret False else andThen (push (TTable mt)) (ret True)))"

definition lua_getfenv :: "int \<Rightarrow> ('z lua_State_scheme, unit) lua" where
  [api_defs]: "lua_getfenv idx = bnd (adr_of idx) (\<lambda>a. if a = NilObject then undef else
     bnd (gets (deref a)) (\<lambda>v. case v of
       TFunction p \<Rightarrow> bnd (gets (\<lambda>s. closures s p)) (\<lambda>c. bnd (defined c) (\<lambda>cl. push (TTable (cenv cl))))
     | TUserData p \<Rightarrow> bnd (gets (\<lambda>s. udatas s p)) (\<lambda>x. bnd (defined x) (\<lambda>u. push (TTable (uenv u))))
     | TThread p \<Rightarrow> bnd (gets globals) (\<lambda>g. push (TTable g))
     | _ \<Rightarrow> push TNil))"

section \<open>Set functions\<close>

definition lua_settable ::
  "(ptr \<Rightarrow> ('z lua_State_scheme, TValue list) lua) \<Rightarrow> int \<Rightarrow> ('z lua_State_scheme, unit) lua" where
  [api_defs]: "lua_settable run idx = bnd (value_at idx) (\<lambda>t. bnd (value_at (- 2)) (\<lambda>k. bnd top_value (\<lambda>v.
     andThen (luaV_settable run t k v) (drop_top 2))))"

definition lua_setfield ::
  "(ptr \<Rightarrow> ('z lua_State_scheme, TValue list) lua) \<Rightarrow> int \<Rightarrow> string \<Rightarrow> ('z lua_State_scheme, unit) lua" where
  [api_defs]: "lua_setfield run idx k = bnd (value_at idx) (\<lambda>t. bnd top_value (\<lambda>v.
     andThen (luaV_settable run t (TString (c_str k)) v) (drop_top 1)))"

definition lua_setglobal ::
  "(ptr \<Rightarrow> ('z lua_State_scheme, TValue list) lua) \<Rightarrow> string \<Rightarrow> ('z lua_State_scheme, unit) lua" where
  [api_defs]: "lua_setglobal run k = lua_setfield run LUA_GLOBALSINDEX k"

definition raw_store :: "ptr \<Rightarrow> Table \<Rightarrow> TValue \<Rightarrow> TValue \<Rightarrow> ('z lua_State_scheme, unit) lua" where
  [api_defs]: "raw_store p h k v = (case luaH_set h k of
     Inl msg \<Rightarrow> lua_raise msg | Inr h' \<Rightarrow> put_table p (write_slot h' k v))"

definition lua_rawset :: "int \<Rightarrow> ('z lua_State_scheme, unit) lua" where
  [api_defs]: "lua_rawset idx = bnd (table_at idx) (\<lambda>(p, h). bnd (value_at (- 2)) (\<lambda>k. bnd top_value (\<lambda>v.
     andThen (raw_store p h k v) (drop_top 2))))"

definition lua_rawseti :: "int \<Rightarrow> int \<Rightarrow> ('z lua_State_scheme, unit) lua" where
  [api_defs]: "lua_rawseti idx n = bnd (table_at idx) (\<lambda>(p, h). bnd top_value (\<lambda>v.
     andThen (raw_store p h (TNumber (Fin (of_int n))) v) (drop_top 1)))"

definition lua_setmetatable :: "int \<Rightarrow> ('z lua_State_scheme, unit) lua" where
  [api_defs]: "lua_setmetatable idx = bnd (value_at idx) (\<lambda>v. bnd top_value (\<lambda>m.
     bnd (case m of TNil \<Rightarrow> ret 0 | TTable p \<Rightarrow> ret p | _ \<Rightarrow> undef) (\<lambda>mt.
     andThen (case v of
       TTable p \<Rightarrow> modify (\<lambda>s. s\<lparr>tables := (tables s)(p :=
         map_option (\<lambda>h. h\<lparr>metatable := mt\<rparr>) (tables s p))\<rparr>)
     | TUserData p \<Rightarrow> modify (\<lambda>s. s\<lparr>udatas := (udatas s)(p :=
         map_option (\<lambda>u. u\<lparr>umetatable := mt\<rparr>) (udatas s p))\<rparr>)
     | _ \<Rightarrow> modify (\<lambda>s. s\<lparr>typemt := (typemt s)(ttype v := mt)\<rparr>))
     (drop_top 1))))"

definition lua_setfenv :: "int \<Rightarrow> ('z lua_State_scheme, bool) lua" where
  [api_defs]: "lua_setfenv idx = bnd (value_at idx) (\<lambda>v. bnd top_value (\<lambda>e.
     bnd (case e of TTable p \<Rightarrow> ret p | _ \<Rightarrow> undef) (\<lambda>env.
     bnd (case v of
       TFunction p \<Rightarrow> andThen (modify (\<lambda>s. s\<lparr>closures := (closures s)(p :=
         map_option (\<lambda>cl. cl\<lparr>cenv := env\<rparr>) (closures s p))\<rparr>)) (ret True)
     | TUserData p \<Rightarrow> andThen (modify (\<lambda>s. s\<lparr>udatas := (udatas s)(p :=
         map_option (\<lambda>u. u\<lparr>uenv := env\<rparr>) (udatas s p))\<rparr>)) (ret True)
     | TThread p \<Rightarrow> andThen (modify (\<lambda>s. s\<lparr>globals := env\<rparr>)) (ret True)
     | _ \<Rightarrow> ret False) (\<lambda>r. andThen (drop_top 1) (ret r)))))"

section \<open>Miscellaneous functions\<close>

definition lua_next :: "int \<Rightarrow> ('z lua_State_scheme, bool) lua" where
  [api_defs]: "lua_next idx = bnd (table_at idx) (\<lambda>ph. bnd top_value (\<lambda>k.
     case luaH_next (snd ph) k of
       Inl msg \<Rightarrow> lua_raise msg
     | Inr None \<Rightarrow> andThen (drop_top 1) (ret False)
     | Inr (Some e) \<Rightarrow> andThen (drop_top 1) (andThen (push (fst e)) (andThen (push (snd e)) (ret True)))))"

definition lua_newuserdata :: "nat \<Rightarrow> ('z lua_State_scheme, ptr) lua" where
  [api_defs]: "lua_newuserdata sz = (\<lambda>s. let p = uaddr s (next_udata s) in
     Ret p (s\<lparr>stack := stack s @ [TUserData p],
       udatas := (udatas s)(p \<mapsto> \<lparr>ulen = sz, umetatable = 0, uenv = getcurrenv s, ublock = None\<rparr>),
       next_udata := next_udata s + 1\<rparr>))"

text \<open>The C++ code reads and writes the first pointer of a userdata block directly.\<close>

definition read_block :: "ptr \<Rightarrow> ('z lua_State_scheme, ptr) lua" where
  [api_defs]: "read_block p = bnd (gets (\<lambda>s. udatas s p)) (\<lambda>x. bnd (defined x) (\<lambda>u. defined (ublock u)))"

definition write_block :: "ptr \<Rightarrow> ptr \<Rightarrow> ('z lua_State_scheme, unit) lua" where
  [api_defs]: "write_block p q = bnd (gets (\<lambda>s. udatas s p)) (\<lambda>x. bnd (defined x) (\<lambda>u.
     modify (\<lambda>s. s\<lparr>udatas := (udatas s)(p \<mapsto> u\<lparr>ublock := Some q\<rparr>)\<rparr>)))"

end
