(* ===== verification/StdMap.thy ===== *)
theory StdMap
  imports Prelude
begin

text \<open>
  Keyed stores: what the modules promise of a container in which objects are found by a key.  The
  locale \<open>keyed_store\<close> holds the laws of lookup after insertion and removal, \<open>iterated_store\<close> adds
  iteration over the items.  The first provider is \<open>std::map\<close>, as the list of its pairs in the
  order of the keys, which is the order its iterators visit; the texture ids of a dictionary, the
  containers, the images and the byte orders of \<open>TextureImage\<close> are kept in one.
\<close>

section \<open>The contract\<close>

locale keyed_store =
  fixes ok :: "'m \<Rightarrow> bool"
    and lookup :: "'k \<Rightarrow> 'm \<Rightarrow> 'v option"
    and put :: "'k \<Rightarrow> 'v \<Rightarrow> 'm \<Rightarrow> 'm"
    and del :: "'k \<Rightarrow> 'm \<Rightarrow> 'm"
    and keyed :: "'k \<Rightarrow> bool"
    and storable :: "'v \<Rightarrow> bool"
  assumes lookup_put: "ok m \<Longrightarrow> keyed k \<Longrightarrow> storable v \<Longrightarrow>
      lookup j (put k v m) = (if j = k then Some v else lookup j m)"
    and lookup_del: "ok m \<Longrightarrow> keyed k \<Longrightarrow> lookup j (del k m) = (if j = k then None else lookup j m)"
    and ok_put: "ok m \<Longrightarrow> keyed k \<Longrightarrow> storable v \<Longrightarrow> ok (put k v m)"
    and ok_del: "ok m \<Longrightarrow> keyed k \<Longrightarrow> ok (del k m)"
begin

definition domain :: "'m \<Rightarrow> 'k set" where
  "domain m = {k. lookup k m \<noteq> None}"

lemma domain_put: "ok m \<Longrightarrow> keyed k \<Longrightarrow> storable v \<Longrightarrow> domain (put k v m) = insert k (domain m)"
  by (auto simp: domain_def lookup_put)

lemma domain_del: "ok m \<Longrightarrow> keyed k \<Longrightarrow> domain (del k m) = domain m - {k}"
  by (auto simp: domain_def lookup_del)

lemma del_put: "ok m \<Longrightarrow> keyed k \<Longrightarrow> storable v \<Longrightarrow> lookup k m = None \<Longrightarrow>
    lookup j (del k (put k v m)) = lookup j m"
  by (simp add: lookup_put lookup_del ok_put)

text \<open>Insertions one after the other: of several under one key the last one counts.\<close>

lemma lookup_fold_put:
  "ok m \<Longrightarrow> \<forall>(k, v) \<in> set kvs. keyed k \<and> storable v \<Longrightarrow>
   ok (fold (\<lambda>(k, v). put k v) kvs m) \<and>
   lookup j (fold (\<lambda>(k, v). put k v) kvs m) = (case map_of (rev kvs) j of Some v \<Rightarrow> Some v | None \<Rightarrow> lookup j m)"
  by (induction kvs arbitrary: m) (auto simp: ok_put lookup_put map_add_def split: option.split)

lemma ok_fold_del: "ok m \<Longrightarrow> \<forall>k \<in> set ks. keyed k \<Longrightarrow> ok (fold del ks m)"
  by (induction ks arbitrary: m) (auto simp: ok_del)

lemma lookup_fold_del:
  "ok m \<Longrightarrow> \<forall>k \<in> set ks. keyed k \<Longrightarrow>
   lookup j (fold del ks m) = (if j \<in> set ks then None else lookup j m)"
  by (induction ks arbitrary: m) (auto simp: ok_del lookup_del)

end

locale iterated_store = keyed_store ok lookup put del keyed storable
  for ok :: "'m \<Rightarrow> bool"
    and lookup :: "'k \<Rightarrow> 'm \<Rightarrow> 'v option"
    and put :: "'k \<Rightarrow> 'v \<Rightarrow> 'm \<Rightarrow> 'm"
    and del :: "'k \<Rightarrow> 'm \<Rightarrow> 'm"
    and keyed :: "'k \<Rightarrow> bool"
    and storable :: "'v \<Rightarrow> bool" +
  fixes items :: "'m \<Rightarrow> ('k \<times> 'v) list"
  assumes items_lookup: "ok m \<Longrightarrow> (k, v) \<in> set (items m) \<longleftrightarrow> lookup k m = Some v"
    and distinct_items: "ok m \<Longrightarrow> distinct (map fst (items m))"
begin

lemma domain_items: "ok m \<Longrightarrow> domain m = fst ` set (items m)"
  by (force simp: domain_def simp flip: items_lookup)

lemma finite_domain: "ok m \<Longrightarrow> finite (domain m)"
  by (simp add: domain_items)

lemma size_items: "ok m \<Longrightarrow> length (items m) = card (domain m)"
  by (metis distinct_card distinct_items domain_items length_map list.set_map)

lemma size_put_new:
  assumes "ok m" and "keyed k" and "storable v" and "lookup k m = None"
  shows "length (items (put k v m)) = Suc (length (items m))"
  using assms finite_domain [OF assms(1)]
  by (simp add: size_items ok_put domain_put) (simp add: domain_def)

lemma lookup_drop_where:
  assumes "ok m" and "\<forall>(k, v) \<in> set (items m). keyed k"
  shows "lookup j (fold del (map fst (filter (\<lambda>(k, v). P v) (items m))) m) =
    (case lookup j m of Some v \<Rightarrow> (if P v then None else Some v) | None \<Rightarrow> None)"
proof -
  have sel: "j \<in> set (map fst (filter (\<lambda>(k, v). P v) (items m))) \<longleftrightarrow> (\<exists>v. lookup j m = Some v \<and> P v)"
    using assms(1) by (force simp flip: items_lookup)
  have "\<forall>k \<in> set (map fst (filter (\<lambda>(k, v). P v) (items m))). keyed k"
    using assms(2) by auto
  then show ?thesis using assms(1) sel
    by (auto simp: lookup_fold_del split: option.split)
qed

end

section \<open>std::map\<close>

type_synonym ('k, 'v) stdmap = "('k \<times> 'v) list"

fun map_put :: "'k::linorder \<Rightarrow> 'v \<Rightarrow> ('k, 'v) stdmap \<Rightarrow> ('k, 'v) stdmap" where
  "map_put k v [] = [(k, v)]"
| "map_put k v ((j, w) # m) = (if k < j then (k, v) # (j, w) # m
     else if k = j then (k, v) # m else (j, w) # map_put k v m)"

definition map_find :: "'k \<Rightarrow> ('k, 'v) stdmap \<Rightarrow> 'v option" where
  "map_find k m = map_of m k"

definition map_erase :: "'k \<Rightarrow> ('k, 'v) stdmap \<Rightarrow> ('k, 'v) stdmap" where
  "map_erase k m = filter (\<lambda>e. fst e \<noteq> k) m"

definition map_ok :: "('k::linorder, 'v) stdmap \<Rightarrow> bool" where
  "map_ok m \<longleftrightarrow> sorted_wrt (<) (map fst m)"

lemma fst_map_put: "fst ` set (map_put k v m) = insert k (fst ` set m)"
  by (induction k v m rule: map_put.induct) auto

lemma map_ok_Nil [simp]: "map_ok []"
  by (simp add: map_ok_def)

lemma map_ok_put: "map_ok m \<Longrightarrow> map_ok (map_put k v m)"
proof (induction k v m rule: map_put.induct)
  case (2 k v j w m)
  have "x \<in> fst ` set (map_put k v m) \<Longrightarrow> x = k \<or> x \<in> fst ` set m" for x
    by (simp add: fst_map_put)
  with 2 show ?case by (fastforce simp: map_ok_def)
qed (simp add: map_ok_def)

lemma map_ok_erase: "map_ok m \<Longrightarrow> map_ok (map_erase k m)"
  by (induction m) (auto simp: map_ok_def map_erase_def)

lemma map_find_put: "map_ok m \<Longrightarrow> map_find j (map_put k v m) = (if j = k then Some v else map_find j m)"
  by (induction k v m rule: map_put.induct) (auto simp: map_find_def map_ok_def)

lemma map_find_erase: "map_find j (map_erase k m) = (if j = k then None else map_find j m)"
  by (induction m) (auto simp: map_find_def map_erase_def)

interpretation stdmap: iterated_store map_ok map_find map_put map_erase "\<lambda>_. True" "\<lambda>_. True" "\<lambda>m. m"
proof unfold_locales
  fix m :: "('k::linorder, 'v) stdmap"
  assume "map_ok m"
  then show distinct: "distinct (map fst m)"
    unfolding map_ok_def using strict_sorted_iff by blast
  then show "(k, v) \<in> set m \<longleftrightarrow> map_find k m = Some v" for k and v
    by (simp add: map_find_def)
qed (simp_all add: map_find_put map_find_erase map_ok_put map_ok_erase)

section \<open>The first free id\<close>

text \<open>The loop \<open>while (m.count(id) == 1) id++\<close> of \<open>addTexture\<close>.\<close>

function free_id :: "(int, 'v) stdmap \<Rightarrow> int \<Rightarrow> int" where
  "free_id m n = (if map_find n m \<noteq> None then free_id m (n + 1) else n)"
  by pat_completeness auto
termination
proof (relation "measure (\<lambda>(m, n). card {k \<in> fst ` set m. n \<le> k})"; clarsimp simp: map_find_def)
  fix m :: "(int, 'v) stdmap" and n :: int and v
  assume "map_of m n = Some v"
  then have "n \<in> fst ` set m" by (force dest: map_of_SomeD)
  then have "n \<in> {k \<in> fst ` set m. n \<le> k}" "n \<notin> {k \<in> fst ` set m. n + 1 \<le> k}" by auto
  then have "{k \<in> fst ` set m. n + 1 \<le> k} \<subset> {k \<in> fst ` set m. n \<le> k}" by force
  then show "card {k \<in> fst ` set m. n + 1 \<le> k} < card {k \<in> fst ` set m. n \<le> k}"
    by (intro psubset_card_mono) auto
qed

declare free_id.simps [simp del]

lemma free_id_least:
  "map_find (free_id m n) m = None \<and> n \<le> free_id m n \<and> (\<forall>k. n \<le> k \<and> k < free_id m n \<longrightarrow> map_find k m \<noteq> None)"
proof (induction m n rule: free_id.induct)
  case (1 m n)
  show ?case
  proof (cases "map_find n m = None")
    case True
    then show ?thesis by (auto simp: free_id.simps)
  next
    case False
    with 1 have IH: "map_find (free_id m (n + 1)) m = None" "n + 1 \<le> free_id m (n + 1)"
      "\<forall>k. n + 1 \<le> k \<and> k < free_id m (n + 1) \<longrightarrow> map_find k m \<noteq> None" by auto
    have eq: "free_id m n = free_id m (n + 1)" using False by (simp add: free_id.simps [of m n])
    have "map_find k m \<noteq> None" if "n \<le> k" "k < free_id m n" for k
      using IH(3) False that eq by (cases "k = n") auto
    then show ?thesis using IH eq by auto
  qed
qed

end
