(* ===== verification/LuaAux.thy ===== *)
theory LuaAux
  imports LuaApi StdMap
begin

text \<open>
  The argument checks of \<open>lauxlib.c\<close>: how a C function reports a bad argument, and how it reads the
  arguments it requires.  The debug information behind \<open>luaL_where\<close> and \<open>lua_getinfo\<close> is the field
  \<open>caller\<close> of the state.  The second half states what each operation of the API does to a frame,
  for the indices the modules use.
\<close>

section \<open>Error reports\<close>

definition luaL_error :: "string \<Rightarrow> ('z lua_State_scheme, 'a) lua" where
  [api_defs]: "luaL_error msg = bnd (gets (\<lambda>s. where_prefix (caller s))) (\<lambda>w.
     andThen (push (TString (w @ msg))) lua_error)"

definition luaL_argerror :: "int \<Rightarrow> string \<Rightarrow> ('z lua_State_scheme, 'a) lua" where
  [api_defs]: "luaL_argerror narg extramsg = bnd (gets curr_func) (\<lambda>f. bnd (gets caller) (\<lambda>ar.
     if f = None then luaL_error (''bad argument #'' @ int_str narg @ '' ('' @ extramsg @ '')'')
     else (let n = (if called_method ar then narg - 1 else narg);
               name = (case called_name ar of Some x \<Rightarrow> x | None \<Rightarrow> ''?'')
       in if called_method ar \<and> n = 0
          then luaL_error (''calling '' @ quoted (case called_name ar of Some x \<Rightarrow> x | None \<Rightarrow> ''(null)'')
                 @ '' on bad self ('' @ extramsg @ '')'')
          else luaL_error (''bad argument #'' @ int_str n @ '' to '' @ quoted name
                 @ '' ('' @ extramsg @ '')''))))"

definition luaL_typerror :: "int \<Rightarrow> string \<Rightarrow> ('z lua_State_scheme, 'a) lua" where
  [api_defs]: "luaL_typerror narg tname = bnd (lua_type narg) (\<lambda>t.
     let msg = tname @ '' expected, got '' @ lua_typename t in
     andThen (push (TString msg)) (luaL_argerror narg msg))"

definition tag_error :: "int \<Rightarrow> int \<Rightarrow> ('z lua_State_scheme, 'a) lua" where
  [api_defs]: "tag_error narg tag = luaL_typerror narg (lua_typename tag)"

definition luaL_argcheck :: "bool \<Rightarrow> int \<Rightarrow> string \<Rightarrow> ('z lua_State_scheme, unit) lua" where
  [api_defs]: "luaL_argcheck c narg msg = (if c then ret () else luaL_argerror narg msg)"

section \<open>Metatables of userdata\<close>

definition luaL_newmetatable ::
  "(ptr \<Rightarrow> ('z lua_State_scheme, TValue list) lua) \<Rightarrow> string \<Rightarrow> ('z lua_State_scheme, bool) lua" where
  [api_defs]: "luaL_newmetatable run tname =
     andThen (lua_getfield run LUA_REGISTRYINDEX tname) (bnd (lua_type (- 1)) (\<lambda>t.
     if t \<noteq> LUA_TNIL then ret False
     else andThen (lua_pop 1) (andThen lua_createtable (andThen (lua_pushvalue (- 1))
       (andThen (lua_setfield run LUA_REGISTRYINDEX tname) (ret True))))))"

definition luaL_getmetatable ::
  "(ptr \<Rightarrow> ('z lua_State_scheme, TValue list) lua) \<Rightarrow> string \<Rightarrow> ('z lua_State_scheme, unit) lua" where
  [api_defs]: "luaL_getmetatable run tname = lua_getfield run LUA_REGISTRYINDEX tname"

definition luaL_checkudata ::
  "(ptr \<Rightarrow> ('z lua_State_scheme, TValue list) lua) \<Rightarrow> int \<Rightarrow> string \<Rightarrow> ('z lua_State_scheme, ptr) lua" where
  [api_defs]: "luaL_checkudata run ud tname = bnd (lua_touserdata ud) (\<lambda>p.
     if p \<noteq> 0 then bnd (lua_getmetatable ud) (\<lambda>m.
       if m then andThen (lua_getfield run LUA_REGISTRYINDEX tname) (bnd (lua_rawequal (- 1) (- 2)) (\<lambda>e.
         if e then andThen (lua_pop 2) (ret p) else luaL_typerror ud tname))
       else luaL_typerror ud tname)
     else luaL_typerror ud tname)"

section \<open>Required and optional arguments\<close>

definition luaL_checktype :: "int \<Rightarrow> int \<Rightarrow> ('z lua_State_scheme, unit) lua" where
  [api_defs]: "luaL_checktype narg t = bnd (lua_type narg) (\<lambda>u. if u \<noteq> t then tag_error narg t else ret ())"

definition luaL_checkany :: "int \<Rightarrow> ('z lua_State_scheme, unit) lua" where
  [api_defs]: "luaL_checkany narg = bnd (lua_type narg) (\<lambda>t.
     if t = LUA_TNONE then luaL_argerror narg ''value expected'' else ret ())"

definition luaL_checklstring :: "int \<Rightarrow> ('z lua_State_scheme, string) lua" where
  [api_defs]: "luaL_checklstring narg = bnd (lua_tolstring narg) (\<lambda>r. case r of
     None \<Rightarrow> tag_error narg LUA_TSTRING | Some str \<Rightarrow> ret str)"

definition luaL_optlstring :: "int \<Rightarrow> string option \<Rightarrow> ('z lua_State_scheme, string option) lua" where
  [api_defs]: "luaL_optlstring narg def = bnd (lua_type narg) (\<lambda>t.
     if t \<le> 0 then ret def else bnd (luaL_checklstring narg) (\<lambda>str. ret (Some str)))"

definition luaL_checknumber :: "int \<Rightarrow> ('z lua_State_scheme, double) lua" where
  [api_defs]: "luaL_checknumber narg = bnd (lua_tonumber narg) (\<lambda>d. bnd (lua_isnumber narg) (\<lambda>n.
     if d = Fin 0 \<and> \<not> n then tag_error narg LUA_TNUMBER else ret d))"

definition luaL_optnumber :: "int \<Rightarrow> double \<Rightarrow> ('z lua_State_scheme, double) lua" where
  [api_defs]: "luaL_optnumber narg def = bnd (lua_type narg) (\<lambda>t.
     if t \<le> 0 then ret def else luaL_checknumber narg)"

definition luaL_checkinteger :: "int \<Rightarrow> ('z lua_State_scheme, int) lua" where
  [api_defs]: "luaL_checkinteger narg = bnd (lua_tointeger narg) (\<lambda>d. bnd (lua_isnumber narg) (\<lambda>n.
     if d = 0 \<and> \<not> n then tag_error narg LUA_TNUMBER else ret d))"

definition luaL_optinteger :: "int \<Rightarrow> int \<Rightarrow> ('z lua_State_scheme, int) lua" where
  [api_defs]: "luaL_optinteger narg def = bnd (lua_type narg) (\<lambda>t.
     if t \<le> 0 then ret def else luaL_checkinteger narg)"

fun option_index :: "string list \<Rightarrow> string \<Rightarrow> nat option" where
  "option_index [] x = None"
| "option_index (o1 # os) x = (if c_str o1 = c_str x then Some 0 else map_option Suc (option_index os x))"

definition luaL_checkoption ::
  "int \<Rightarrow> string option \<Rightarrow> string list \<Rightarrow> ('z lua_State_scheme, nat) lua" where
  [api_defs]: "luaL_checkoption narg def lst = bnd (case def of
       Some d \<Rightarrow> luaL_optlstring narg (Some d)
     | None \<Rightarrow> bnd (luaL_checklstring narg) (\<lambda>str. ret (Some str))) (\<lambda>r. bnd (defined r) (\<lambda>name.
     case option_index lst name of
       Some i \<Rightarrow> ret i
     | None \<Rightarrow> (let msg = ''invalid option '' @ quoted (c_str name) in
         andThen (push (TString msg)) (luaL_argerror narg msg))))"

definition luaL_getmetafield :: "int \<Rightarrow> string \<Rightarrow> ('z lua_State_scheme, bool) lua" where
  [api_defs]: "luaL_getmetafield obj event = bnd (lua_getmetatable obj) (\<lambda>m. if \<not> m then ret False
     else andThen (lua_pushstring (Some event)) (andThen (lua_rawget (- 2)) (bnd (lua_type (- 1)) (\<lambda>t.
       if t = LUA_TNIL then andThen (lua_pop 2) (ret False)
       else andThen (lua_remove (- 2)) (ret True)))))"

definition luaL_callmeta ::
  "(ptr \<Rightarrow> ('z lua_State_scheme, TValue list) lua) \<Rightarrow> int \<Rightarrow> string \<Rightarrow> ('z lua_State_scheme, bool) lua" where
  [api_defs]: "luaL_callmeta run obj0 event = bnd lua_gettop (\<lambda>n.
     let obj = (if obj0 > 0 \<or> obj0 \<le> LUA_REGISTRYINDEX then obj0 else n + obj0 + 1) in
     bnd (luaL_getmetafield obj event) (\<lambda>m. if \<not> m then ret False
       else andThen (lua_pushvalue obj) (andThen (lua_call run 1 1) (ret True))))"

section \<open>Arguments of a frame\<close>

definition arg :: "'z lua_State_scheme \<Rightarrow> int \<Rightarrow> TValue" where
  "arg s i = (if 0 < i \<and> nat i \<le> length (stack s) then stack s ! nat (i - 1) else TNil)"

definition argtype :: "'z lua_State_scheme \<Rightarrow> int \<Rightarrow> int" where
  "argtype s i = (if 0 < i \<and> nat i \<le> length (stack s) then ttype (arg s i) else LUA_TNONE)"

lemma ttype_range: "0 \<le> ttype v \<and> ttype v \<le> 8"
  by (cases v) simp_all

lemma bnd_apply: "bnd m f s = (case m s of Ret a t \<Rightarrow> f a t | Throw e t \<Rightarrow> Throw e t | Undef \<Rightarrow> Undef)"
  by (simp add: bnd_def)

lemma andThen_apply: "andThen m n s = (case m s of Ret _ t \<Rightarrow> n t | Throw e t \<Rightarrow> Throw e t | Undef \<Rightarrow> Undef)"
  by (simp add: andThen_def bnd_def)

lemma prog_apply [simp]:
  "ret a s = Ret a s" "throw e s = Throw e s" "undef s = Undef" "gets f s = Ret (f s) s"
  "modify g s = Ret () (g s)"
  by (simp_all add: prog_defs)

lemmas run_simps = bnd_apply andThen_apply defined_def whenever_def

lemma ttype_eq_simps:
  "ttype v = 0 \<longleftrightarrow> v = TNil"
  "ttype v = 1 \<longleftrightarrow> (\<exists>b. v = TBoolean b)"
  "ttype v = 2 \<longleftrightarrow> (\<exists>p. v = TLightUserData p)"
  "ttype v = 3 \<longleftrightarrow> (\<exists>n. v = TNumber n)"
  "ttype v = 4 \<longleftrightarrow> (\<exists>str. v = TString str)"
  "ttype v = 5 \<longleftrightarrow> (\<exists>p. v = TTable p)"
  "ttype v = 6 \<longleftrightarrow> (\<exists>p. v = TFunction p)"
  "ttype v = 7 \<longleftrightarrow> (\<exists>p. v = TUserData p)"
  "ttype v = 8 \<longleftrightarrow> (\<exists>p. v = TThread p)"
  by (cases v; simp)+

lemma index2adr_pos: "0 < i \<Longrightarrow> index2adr i s = Some (if nat i \<le> length (stack s) then Slot (nat (i - 1)) else NilObject)"
  by (auto simp: index2adr_def)

lemma value_at_pos [api_simps]: "0 < i \<Longrightarrow> value_at i s = Ret (arg s i) s"
  by (simp add: value_at_def adr_of_def run_simps index2adr_pos deref_def arg_def)

lemma lua_type_pos [api_simps]: "0 < i \<Longrightarrow> lua_type i s = Ret (argtype s i) s"
  by (simp add: lua_type_def adr_of_def run_simps index2adr_pos deref_def argtype_def arg_def)

lemma lua_tonumber_pos [api_simps]:
  "0 < i \<Longrightarrow> lua_tonumber i s = Ret (case luaV_tonumber (arg s i) of Some n \<Rightarrow> n | None \<Rightarrow> Fin 0) s"
  by (simp add: lua_tonumber_def run_simps value_at_pos)

lemma lua_toboolean_pos [api_simps]: "0 < i \<Longrightarrow> lua_toboolean i s = Ret (\<not> l_isfalse (arg s i)) s"
  by (simp add: lua_toboolean_def run_simps value_at_pos)

lemma lua_touserdata_pos [api_simps]:
  "0 < i \<Longrightarrow> lua_touserdata i s = Ret (case arg s i of TUserData p \<Rightarrow> p | TLightUserData p \<Rightarrow> p | _ \<Rightarrow> 0) s"
  by (simp add: lua_touserdata_def run_simps value_at_pos)

lemma lua_tolstring_string [api_simps]:
  "0 < i \<Longrightarrow> arg s i = TString str \<Longrightarrow> lua_tolstring i s = Ret (Some str) s"
  by (auto simp: lua_tolstring_def adr_of_def run_simps index2adr_pos deref_def arg_def split: if_splits)

lemma lua_tolstring_number:
  "0 < i \<Longrightarrow> arg s i = TNumber n \<Longrightarrow> lua_tolstring i s = Ret (Some (c_str (lua_number2str n)))
     (s\<lparr>stack := (stack s)[nat (i - 1) := TString (c_str (lua_number2str n))]\<rparr>)"
  by (auto simp: lua_tolstring_def adr_of_def run_simps index2adr_pos deref_def arg_def
      luaV_tostring_def store_def split: if_splits)

lemma push_apply [api_simps]: "push v s = Ret () (s\<lparr>stack := stack s @ [v]\<rparr>)"
  by (simp add: push_def)

lemma lua_push_apply [api_simps]:
  "lua_pushnil s = Ret () (s\<lparr>stack := stack s @ [TNil]\<rparr>)"
  "lua_pushnumber n s = Ret () (s\<lparr>stack := stack s @ [TNumber n]\<rparr>)"
  "lua_pushinteger i s = Ret () (s\<lparr>stack := stack s @ [TNumber (double_of_int i)]\<rparr>)"
  "lua_pushboolean b s = Ret () (s\<lparr>stack := stack s @ [TBoolean b]\<rparr>)"
  "lua_pushlightuserdata p s = Ret () (s\<lparr>stack := stack s @ [TLightUserData p]\<rparr>)"
  "lua_pushlstring str s = Ret () (s\<lparr>stack := stack s @ [TString str]\<rparr>)"
  by (simp_all add: lua_pushnil_def lua_pushnumber_def lua_pushinteger_def lua_pushboolean_def
      lua_pushlightuserdata_def lua_pushlstring_def push_apply)

lemma lua_pushstring_apply [api_simps]:
  "lua_pushstring (Some str) s = Ret () (s\<lparr>stack := stack s @ [TString (c_str str)]\<rparr>)"
  "lua_pushstring None s = Ret () (s\<lparr>stack := stack s @ [TNil]\<rparr>)"
  by (simp_all add: lua_pushstring_def api_simps)

lemma value_at_top [api_simps]:
  "stack s \<noteq> [] \<Longrightarrow> value_at (- 1) s = Ret (last (stack s)) s"
  by (auto simp: value_at_def adr_of_def run_simps index2adr_def deref_def last_conv_nth Suc_le_eq)

lemma lua_pop_apply [api_simps]:
  "0 \<le> n \<Longrightarrow> nat n \<le> length (stack s) \<Longrightarrow>
   lua_pop n s = Ret () (s\<lparr>stack := take (length (stack s) - nat n) (stack s)\<rparr>)"
  by (auto simp: lua_pop_def lua_settop_def lua_gettop_def drop_top_def run_simps)

lemma argtype_none: "argtype s i = LUA_TNONE \<longleftrightarrow> \<not> (0 < i \<and> nat i \<le> length (stack s))"
  using ttype_range [of "arg s i"] by (auto simp: argtype_def)

lemma argtype_nonneg: "argtype s i = t \<Longrightarrow> 0 \<le> t \<Longrightarrow> 0 < i \<and> nat i \<le> length (stack s) \<and> ttype (arg s i) = t"
  by (auto simp: argtype_def split: if_splits)

text \<open>A required argument that is there is returned, anything else raises.\<close>

lemma luaL_checklstring_string [api_simps]:
  "0 < i \<Longrightarrow> arg s i = TString str \<Longrightarrow> luaL_checklstring i s = Ret str s"
  by (simp add: luaL_checklstring_def run_simps api_simps)

lemma luaL_error_throws: "luaL_error msg s =
    Throw (TString (where_prefix (caller s) @ msg)) (s\<lparr>stack := stack s @ [TString (where_prefix (caller s) @ msg)]\<rparr>)"
  by (simp add: luaL_error_def lua_error_def top_value_def run_simps api_simps)

lemma luaL_argerror_throws: "\<exists>msg. luaL_argerror n m s = Throw (TString msg) (s\<lparr>stack := stack s @ [TString msg]\<rparr>)"
  by (auto simp: luaL_argerror_def run_simps luaL_error_throws Let_def)

lemma luaL_typerror_throws:
  fixes s :: "'z lua_State_scheme"
  assumes "0 < n"
  shows "\<exists>msg st. (luaL_typerror n m s :: (TValue, 'a, _) outcome) = Throw (TString msg) (s\<lparr>stack := stack s @ st\<rparr>)"
proof -
  let ?m = "m @ '' expected, got '' @ lua_typename (argtype s n)"
  let ?s = "s\<lparr>stack := stack s @ [TString ?m]\<rparr>"
  have "(luaL_typerror n m s :: (TValue, 'a, _) outcome) = luaL_argerror n ?m ?s"
    using assms by (simp add: luaL_typerror_def run_simps api_simps Let_def)
  moreover obtain msg where "(luaL_argerror n ?m ?s :: (TValue, 'a, _) outcome)
      = Throw (TString msg) (?s\<lparr>stack := stack ?s @ [TString msg]\<rparr>)"
    using luaL_argerror_throws by blast
  ultimately show ?thesis
    by (intro exI [of _ msg] exI [of _ "[TString ?m, TString msg]"]) simp
qed

text \<open>Raw table access: what is written is read back, other keys keep their values.\<close>

lemma rawequal_iff: "luaO_rawequalObj a b \<longleftrightarrow> a = b \<and> b \<noteq> TNumber NaN"
  by (cases a; cases b) (auto simp: luaO_rawequalObj_def luai_numeq_def)

lemma slot_iff: "slot h k = Some e \<Longrightarrow> fst e = k \<and> k \<noteq> TNumber NaN"
  by (auto simp: slot_def rawequal_iff dest!: find_Some_in)

lemma find_map_entry:
  "(\<And>e. P (f e) = P e) \<Longrightarrow> List.find P (map f es) = map_option f (List.find P es)"
  by (induction es) auto

lemma find_append: "List.find P (xs @ ys) = (case List.find P xs of None \<Rightarrow> List.find P ys | Some x \<Rightarrow> Some x)"
  by (induction xs) auto

lemma luaH_set_get:
  assumes "luaH_set h k = Inr h'"
  shows "luaH_get (write_slot h' k v) k' = (if k' = k then v else luaH_get h k')"
proof -
  have k: "k \<noteq> TNil" "k \<noteq> TNumber NaN"
    using assms slot_iff [of h k] by (auto simp: luaH_set_def split: if_splits)
  then have ex: "slot h' k \<noteq> None"
    using assms by (auto simp: luaH_set_def slot_def find_append rawequal_iff split: if_splits option.splits)
  have get: "slot (write_slot h' k v) j = map_option (\<lambda>e. if fst e = k then (fst e, v) else e) (slot h' j)" for j
    using k by (simp add: slot_def write_slot_def rawequal_iff) (subst find_map_entry; simp)
  show ?thesis
  proof (cases "k' = k")
    case True
    from ex obtain e where e: "slot h' k = Some e" by blast
    with slot_iff [OF e] True k get show ?thesis by (simp add: luaH_get_def)
  next
    case False
    then have "slot h' k' = slot h k'"
      using assms by (auto simp: luaH_set_def slot_def find_append rawequal_iff split: if_splits option.splits)
    with False get show ?thesis
      by (auto simp: luaH_get_def split: option.splits dest!: slot_iff)
  qed
qed

text \<open>Access to a present field needs no metamethod and cannot raise.\<close>

lemma unroll_100: "(100 :: nat) = Suc 99"
  by simp

text \<open>
  A Lua table is a keyed store: the keys are the values other than \<open>nil\<close> and not-a-number, and a
  key is absent when its value is \<open>nil\<close>.
\<close>

definition table_lookup :: "TValue \<Rightarrow> Table \<Rightarrow> TValue option" where
  "table_lookup k h = (if luaH_get h k = TNil then None else Some (luaH_get h k))"

definition table_put :: "TValue \<Rightarrow> TValue \<Rightarrow> Table \<Rightarrow> Table" where
  "table_put k v h = (case luaH_set h k of Inr h' \<Rightarrow> write_slot h' k v | Inl _ \<Rightarrow> h)"

definition table_key :: "TValue \<Rightarrow> bool" where
  "table_key k \<longleftrightarrow> k \<noteq> TNil \<and> k \<noteq> TNumber NaN"

lemma luaH_set_key: "table_key k \<Longrightarrow> \<exists>h'. luaH_set h k = Inr h'"
  by (auto simp: luaH_set_def table_key_def)

lemma luaH_get_put: "table_key k \<Longrightarrow> luaH_get (table_put k v h) j = (if j = k then v else luaH_get h j)"
  using luaH_set_key [of k h] by (auto simp: table_put_def luaH_set_get)

interpretation luatable: keyed_store "\<lambda>_. True" table_lookup table_put "\<lambda>k. table_put k TNil" table_key "\<lambda>v. v \<noteq> TNil"
  by unfold_locales (simp_all add: table_lookup_def luaH_get_put)

lemma luaV_gettable_raw [api_simps]:
  assumes "table_get s p k \<noteq> TNil"
  shows "luaV_gettable run (TTable p) k s = Ret (table_get s p k) s"
  unfolding luaV_gettable_def using assms by (subst unroll_100, subst gettable_loop.simps) (simp add: run_simps)

lemma value_at_globals [api_simps]: "value_at LUA_GLOBALSINDEX s = Ret (TTable (globals s)) s"
  by (simp add: value_at_def adr_of_def run_simps index2adr_def deref_def)

lemma value_at_registry [api_simps]: "value_at LUA_REGISTRYINDEX s = Ret (TTable (registry s)) s"
  by (simp add: value_at_def adr_of_def run_simps index2adr_def deref_def)

lemma table_get_stack [simp]: "table_get (s\<lparr>stack := st\<rparr>) p k = table_get s p k"
  by (simp add: table_get_def)

lemma getmt_stack [simp]: "getmt (s\<lparr>stack := st\<rparr>) v = getmt s v"
  by (simp add: getmt_def split: TValue.split)

lemma lua_getfield_raw [api_simps]:
  assumes "value_at i s = Ret (TTable p) s" and "table_get s p (TString (c_str k)) \<noteq> TNil"
  shows "lua_getfield run i k s = Ret () (s\<lparr>stack := stack s @ [table_get s p (TString (c_str k))]\<rparr>)"
  using assms by (simp add: lua_getfield_def run_simps api_simps)

text \<open>A machine after \<open>lua_newstate\<close>, with an empty registry and a global table that holds functions.\<close>

definition new_state :: "(string \<times> ptr) list \<Rightarrow> TValue list \<Rightarrow> lua_State" where
  "new_state fs args = \<lparr>stack = args, curr_func = None,
     tables = [1 \<mapsto> new_table, 2 \<mapsto> \<lparr>entries = map (\<lambda>(n, p). (TString n, TFunction p)) fs, metatable = 0\<rparr>],
     closures = (\<lambda>_. None), udatas = (\<lambda>_. None), next_obj = 3, uaddr = (\<lambda>n. n + 1000), next_udata = 0,
     registry = 1, globals = 2, typemt = (\<lambda>_. 0),
     caller = \<lparr>where_prefix = [], called_name = None, called_method = False\<rparr>\<rparr>"

section \<open>Userdata and tables in a frame\<close>

text \<open>Argument 1 is a full userdata with the metatable registered under a name.\<close>

definition is_object :: "'z lua_State_scheme \<Rightarrow> string \<Rightarrow> ptr \<Rightarrow> Udata \<Rightarrow> bool" where
  "is_object s tname ud u \<longleftrightarrow> arg s 1 = TUserData ud \<and> ud \<noteq> 0 \<and> udatas s ud = Some u \<and> umetatable u \<noteq> 0
     \<and> table_get s (registry s) (TString (c_str tname)) = TTable (umetatable u)"

lemma luaL_checkudata_ok [api_simps]:
  assumes "is_object s tname ud u"
  shows "luaL_checkudata run 1 tname s = Ret ud s"
proof -
  let ?mt = "TTable (umetatable u)"
  have mt: "getmt s (TUserData ud) = umetatable u" using assms by (simp add: is_object_def getmt_def)
  have get: "lua_getfield run LUA_REGISTRYINDEX tname (s\<lparr>stack := stack s @ [?mt]\<rparr>)
      = Ret () (s\<lparr>stack := stack s @ [?mt, ?mt]\<rparr>)"
    using assms by (subst lua_getfield_raw [of _ _ "registry s"]) (simp_all add: value_at_registry is_object_def)
  have eq: "lua_rawequal (- 1) (- 2) (s\<lparr>stack := stack s @ [?mt, ?mt]\<rparr>) = Ret True (s\<lparr>stack := stack s @ [?mt, ?mt]\<rparr>)"
    by (simp add: lua_rawequal_def adr_of_def run_simps index2adr_def deref_def nth_append luaO_rawequalObj_def)
  have "lua_getmetatable 1 s = Ret True (s\<lparr>stack := stack s @ [?mt]\<rparr>)"
    using assms mt by (simp add: lua_getmetatable_def run_simps api_simps is_object_def)
  then show ?thesis using assms get eq
    by (simp add: luaL_checkudata_def run_simps api_simps is_object_def)
qed

lemma read_block_ok [api_simps]: "udatas s ud = Some u \<Longrightarrow> ublock u = Some p \<Longrightarrow> read_block ud s = Ret p s"
  by (simp add: read_block_def run_simps)

lemma write_block_ok [api_simps]: "udatas s ud = Some u \<Longrightarrow>
    write_block ud q s = Ret () (s\<lparr>udatas := (udatas s)(ud \<mapsto> u\<lparr>ublock := Some q\<rparr>)\<rparr>)"
  by (simp add: write_block_def run_simps)

lemma luaL_argcheck_simps [api_simps]:
  "luaL_argcheck True n m = ret ()" "luaL_argcheck False n m = luaL_argerror n m"
  by (simp_all add: luaL_argcheck_def)

text \<open>Writing a new key of a table without a metatable appends an entry.\<close>

lemma write_slot_fresh:
  assumes "slot h k = None" and "k \<noteq> TNil" and "k \<noteq> TNumber NaN"
  shows "luaH_set h k = Inr (h\<lparr>entries := entries h @ [(k, TNil)]\<rparr>)"
    and "write_slot (h\<lparr>entries := entries h @ [(k, TNil)]\<rparr>) k v = h\<lparr>entries := entries h @ [(k, v)]\<rparr>"
proof -
  have "fst e \<noteq> k" if "e \<in> set (entries h)" for e
    using assms that by (cases e) (auto simp: slot_def find_None_iff rawequal_iff)
  then have "map (\<lambda>e. if fst e = k then (fst e, v) else e) (entries h) = entries h"
    by (intro map_idI) auto
  then show "write_slot (h\<lparr>entries := entries h @ [(k, TNil)]\<rparr>) k v = h\<lparr>entries := entries h @ [(k, v)]\<rparr>"
    using assms by (simp add: write_slot_def rawequal_iff)
qed (use assms in \<open>simp add: luaH_set_def\<close>)

lemma gettm_no_metatable: "tables s p = Some h \<Longrightarrow> metatable h = 0 \<Longrightarrow> luaT_gettmbyobj s (TTable p) ev = TNil"
  by (simp add: luaT_gettmbyobj_def getmt_def Let_def)

lemma luaV_settable_raw:
  assumes "tables s p = Some h" and "metatable h = 0" and "luaH_set h k = Inr h'"
  shows "luaV_settable run (TTable p) k v s = Ret () (s\<lparr>tables := (tables s)(p \<mapsto> write_slot h' k v)\<rparr>)"
  unfolding luaV_settable_def using assms
  by (subst unroll_100, subst settable_loop.simps)
    (simp add: run_simps gettm_no_metatable put_table_def Let_def)

lemma lua_settable_new:
  assumes "stack s = st @ [TTable p, k, v]" and "tables s p = Some h" and "metatable h = 0"
    and "slot h k = None" and "k \<noteq> TNil" and "k \<noteq> TNumber NaN"
  shows "lua_settable run (- 3) s = Ret () (s\<lparr>stack := st @ [TTable p],
    tables := (tables s)(p \<mapsto> h\<lparr>entries := entries h @ [(k, v)]\<rparr>)\<rparr>)"
proof -
  have "value_at (- 3) s = Ret (TTable p) s" "value_at (- 2) s = Ret k s" "value_at (- 1) s = Ret v s"
    using assms(1) by (simp_all add: value_at_def adr_of_def run_simps index2adr_def deref_def nth_append)
  then show ?thesis
    using luaV_settable_raw [OF assms(2,3) write_slot_fresh(1) [OF assms(4-6)], of run v] assms(1)
    by (simp add: lua_settable_def top_value_def run_simps drop_top_def write_slot_fresh(2) [OF assms(4-6)])
qed

lemma lua_rawseti_new:
  assumes "stack s = st @ [TTable p, v]" and "tables s p = Some h"
    and "slot h (TNumber (Fin (of_int n))) = None"
  shows "lua_rawseti (- 2) n s = Ret () (s\<lparr>stack := st @ [TTable p],
    tables := (tables s)(p \<mapsto> h\<lparr>entries := entries h @ [(TNumber (Fin (of_int n)), v)]\<rparr>)\<rparr>)"
proof -
  have "value_at (- 2) s = Ret (TTable p) s" "value_at (- 1) s = Ret v s"
    using assms(1) by (simp_all add: value_at_def adr_of_def run_simps index2adr_def deref_def nth_append)
  then show ?thesis
    using assms write_slot_fresh [OF assms(3)]
    by (simp add: lua_rawseti_def table_at_def top_value_def run_simps drop_top_def raw_store_def put_table_def)
qed

lemma is_object_cong:
  assumes "is_object s tname ud u" and "stack t = stack s" and "tables t = tables s"
    and "registry t = registry s" and "udatas t ud = Some u'" and "umetatable u' = umetatable u"
  shows "is_object t tname ud u'"
proof -
  have "arg t 1 = arg s 1" using assms(2) by (simp add: arg_def)
  with assms show ?thesis by (simp add: is_object_def table_get_def)
qed

end
