(* ===== verification/LuaArguments.thy ===== *)
theory LuaArguments
  imports LuaAux
begin

text \<open>
  \<open>CLuaArgument\<close> and \<open>CLuaArguments\<close> of the module SDK (four copies in the repository, modelled from
  the one of the sockets module): a value read from a Lua frame or built by C++, a list of them,
  and \<open>Call\<close>, which calls a global Lua function with the list.  A member a constructor does not set
  is \<open>None\<close>, and reading it is undefined; \<open>arg_ok\<close> says that the member the type asks for is set.
\<close>

section \<open>CLuaArgument\<close>

record CLuaArgument =
  m_iType :: int
  m_bBoolean :: "bool option"
  m_Number :: "double option"
  m_pLightUserData :: "ptr option"
  m_szString :: "string option"

definition raw_argument :: "int \<Rightarrow> CLuaArgument" where
  "raw_argument t = \<lparr>m_iType = t, m_bBoolean = None, m_Number = None, m_pLightUserData = None, m_szString = None\<rparr>"

definition arg_nil :: CLuaArgument where
  "arg_nil = raw_argument LUA_TNIL"

definition arg_bool :: "bool \<Rightarrow> CLuaArgument" where
  "arg_bool b = (raw_argument LUA_TBOOLEAN)\<lparr>m_bBoolean := Some b\<rparr>"

definition arg_number :: "double \<Rightarrow> CLuaArgument" where
  "arg_number d = (raw_argument LUA_TNUMBER)\<lparr>m_Number := Some d\<rparr>"

definition arg_string :: "string \<Rightarrow> CLuaArgument" where
  "arg_string str = (raw_argument LUA_TSTRING)\<lparr>m_szString := Some (c_str str)\<rparr>"

definition arg_userdata :: "ptr \<Rightarrow> CLuaArgument" where
  "arg_userdata p = (raw_argument LUA_TLIGHTUSERDATA)\<lparr>m_pLightUserData := Some p\<rparr>"

text \<open>\<open>operator=\<close> frees the old string, takes the type over and then the member that goes with it.\<close>

definition arg_assign :: "CLuaArgument \<Rightarrow> CLuaArgument \<Rightarrow> CLuaArgument" where
  "arg_assign a b = (let a1 = a\<lparr>m_szString := None, m_iType := m_iType b\<rparr> in
     if m_iType b = LUA_TBOOLEAN then a1\<lparr>m_bBoolean := m_bBoolean b\<rparr>
     else if m_iType b = LUA_TLIGHTUSERDATA then a1\<lparr>m_pLightUserData := m_pLightUserData b\<rparr>
     else if m_iType b = LUA_TNUMBER then a1\<lparr>m_Number := m_Number b\<rparr>
     else if m_iType b = LUA_TSTRING then (case m_szString b of
       Some str \<Rightarrow> a1\<lparr>m_szString := Some (c_str str)\<rparr> | None \<Rightarrow> a1)
     else a1)"

definition arg_copy :: "CLuaArgument \<Rightarrow> CLuaArgument" where
  "arg_copy b = arg_assign (raw_argument LUA_TNIL) b"

text \<open>\<open>operator==\<close>; \<open>None\<close> when it would compare a member that was never set.\<close>

definition both :: "('a \<Rightarrow> 'a \<Rightarrow> bool) \<Rightarrow> 'a option \<Rightarrow> 'a option \<Rightarrow> bool option" where
  "both f x y = (case x of None \<Rightarrow> None | Some a \<Rightarrow> (case y of None \<Rightarrow> None | Some b \<Rightarrow> Some (f a b)))"

definition arg_eq :: "CLuaArgument \<Rightarrow> CLuaArgument \<Rightarrow> bool option" where
  "arg_eq a b = (if m_iType b \<noteq> m_iType a then Some False
     else if m_iType a = LUA_TBOOLEAN then both (=) (m_bBoolean a) (m_bBoolean b)
     else if m_iType a = LUA_TLIGHTUSERDATA then both (=) (m_pLightUserData a) (m_pLightUserData b)
     else if m_iType a = LUA_TNUMBER then both luai_numeq (m_Number a) (m_Number b)
     else if m_iType a = LUA_TSTRING then (case m_szString a of
       Some x \<Rightarrow> (case m_szString b of Some y \<Rightarrow> Some (c_str x = c_str y) | None \<Rightarrow> Some False)
     | None \<Rightarrow> Some (m_szString b = None))
     else Some True)"

definition arg_neq :: "CLuaArgument \<Rightarrow> CLuaArgument \<Rightarrow> bool option" where
  "arg_neq a b = map_option Not (arg_eq a b)"

definition arg_Read :: "int \<Rightarrow> CLuaArgument \<Rightarrow> ('z lua_State_scheme, CLuaArgument) lua" where
  "arg_Read i a = (let a0 = a\<lparr>m_szString := None\<rparr> in
     bnd (lua_type i) (\<lambda>t. let a1 = a0\<lparr>m_iType := t\<rparr> in
     if t = LUA_TNONE \<or> t = LUA_TNIL then ret a1
     else if t = LUA_TBOOLEAN then bnd (lua_toboolean i) (\<lambda>b. ret (a1\<lparr>m_bBoolean := Some b\<rparr>))
     else if t = LUA_TLIGHTUSERDATA then bnd (lua_touserdata i) (\<lambda>p. ret (a1\<lparr>m_pLightUserData := Some p\<rparr>))
     else if t = LUA_TNUMBER then bnd (lua_tonumber i) (\<lambda>n. ret (a1\<lparr>m_Number := Some n\<rparr>))
     else if t = LUA_TSTRING then bnd (lua_tolstring i) (\<lambda>r. bnd (defined r) (\<lambda>str.
       ret (a1\<lparr>m_szString := Some (c_str str)\<rparr>)))
     else ret (a1\<lparr>m_iType := LUA_TNONE\<rparr>)))"

definition arg_Push :: "CLuaArgument \<Rightarrow> ('z lua_State_scheme, unit) lua" where
  "arg_Push a = (let t = m_iType a in
     if t = LUA_TNIL then lua_pushnil
     else if t = LUA_TBOOLEAN then bnd (defined (m_bBoolean a)) lua_pushboolean
     else if t = LUA_TLIGHTUSERDATA then bnd (defined (m_pLightUserData a)) lua_pushlightuserdata
     else if t = LUA_TNUMBER then bnd (defined (m_Number a)) lua_pushnumber
     else if t = LUA_TSTRING then (case m_szString a of
       Some str \<Rightarrow> lua_pushstring (Some str) | None \<Rightarrow> lua_pushstring (Some ''''))
     else ret ())"

section \<open>CLuaArguments\<close>

type_synonym CLuaArguments = "CLuaArgument list"

definition args_copy :: "CLuaArguments \<Rightarrow> CLuaArguments" where
  "args_copy bs = map arg_copy bs"

definition args_assign :: "CLuaArguments \<Rightarrow> CLuaArguments \<Rightarrow> CLuaArguments" where
  "args_assign as bs = map arg_copy bs"

text \<open>The loop of \<open>ReadArguments\<close> ends with the frame: \<open>n\<close> bounds the slots that are left.\<close>

fun read_loop :: "nat \<Rightarrow> int \<Rightarrow> CLuaArguments \<Rightarrow> ('z lua_State_scheme, CLuaArguments) lua" where
  "read_loop 0 i acc = undef"
| "read_loop (Suc n) i acc = bnd (lua_type i) (\<lambda>t. if t = LUA_TNONE then ret acc
     else bnd (arg_Read i (raw_argument LUA_TNIL)) (\<lambda>a. read_loop n (i + 1) (acc @ [a])))"

definition ReadArguments :: "int \<Rightarrow> ('z lua_State_scheme, CLuaArguments) lua" where
  "ReadArguments uiIndexBegin = bnd lua_gettop (\<lambda>n. read_loop (Suc (nat n)) uiIndexBegin [])"

definition PushArguments :: "CLuaArguments \<Rightarrow> ('z lua_State_scheme, unit) lua" where
  "PushArguments as = forEach as arg_Push"

definition PushArguments_list :: "CLuaArguments \<Rightarrow> CLuaArguments \<Rightarrow> CLuaArguments" where
  "PushArguments_list as bs = as @ map arg_copy bs"

definition args_Call ::
  "(ptr \<Rightarrow> ('z lua_State_scheme, TValue list) lua) \<Rightarrow> CLuaArguments \<Rightarrow> string \<Rightarrow>
   ('z lua_State_scheme, bool) lua" where
  "args_Call run as szFunction =
     andThen (lua_pushstring (Some szFunction))
    (andThen (lua_gettable run LUA_GLOBALSINDEX)
    (andThen (PushArguments as)
    (bnd (lua_pcall run (length as) 0) (\<lambda>iret. ret (\<not> (iret = 2 \<or> iret = 4))))))"

definition PushNil :: "CLuaArguments \<Rightarrow> CLuaArguments" where
  "PushNil as = as @ [arg_nil]"

definition PushBoolean :: "CLuaArguments \<Rightarrow> bool \<Rightarrow> CLuaArguments" where
  "PushBoolean as b = as @ [arg_bool b]"

definition PushNumber :: "CLuaArguments \<Rightarrow> double \<Rightarrow> CLuaArguments" where
  "PushNumber as d = as @ [arg_number d]"

definition PushString :: "CLuaArguments \<Rightarrow> string \<Rightarrow> CLuaArguments" where
  "PushString as str = as @ [arg_string str]"

definition PushUserData :: "CLuaArguments \<Rightarrow> ptr \<Rightarrow> CLuaArguments" where
  "PushUserData as p = as @ [arg_userdata p]"

definition DeleteArguments :: "CLuaArguments \<Rightarrow> CLuaArguments" where
  "DeleteArguments as = []"

section \<open>What an argument stands for\<close>

definition arg_ok :: "CLuaArgument \<Rightarrow> bool" where
  "arg_ok a \<longleftrightarrow> m_iType a \<in> {LUA_TNONE .. LUA_TSTRING}
     \<and> (m_iType a = LUA_TBOOLEAN \<longrightarrow> m_bBoolean a \<noteq> None)
     \<and> (m_iType a = LUA_TLIGHTUSERDATA \<longrightarrow> m_pLightUserData a \<noteq> None)
     \<and> (m_iType a = LUA_TNUMBER \<longrightarrow> m_Number a \<noteq> None)
     \<and> (m_iType a = LUA_TSTRING \<longrightarrow> m_szString a \<noteq> None)
     \<and> (\<forall>str. m_szString a = Some str \<longrightarrow> nul \<notin> set str)"

text \<open>\<open>arg_value\<close> is the Lua value an argument pushes; an argument of type none pushes nothing.\<close>

definition arg_value :: "CLuaArgument \<Rightarrow> TValue option" where
  "arg_value a = (let t = m_iType a in
     if t = LUA_TNIL then Some TNil
     else if t = LUA_TBOOLEAN then map_option TBoolean (m_bBoolean a)
     else if t = LUA_TLIGHTUSERDATA then map_option TLightUserData (m_pLightUserData a)
     else if t = LUA_TNUMBER then map_option TNumber (m_Number a)
     else if t = LUA_TSTRING then Some (TString (case m_szString a of Some str \<Rightarrow> str | None \<Rightarrow> ''''))
     else None)"

text \<open>\<open>carried\<close> is what survives of a Lua value that passes through an argument.\<close>

fun carried :: "TValue \<Rightarrow> TValue option" where
  "carried TNil = Some TNil"
| "carried (TBoolean b) = Some (TBoolean b)"
| "carried (TLightUserData p) = Some (TLightUserData p)"
| "carried (TNumber n) = Some (TNumber n)"
| "carried (TString str) = Some (TString (c_str str))"
| "carried _ = None"

fun keep :: "'a option list \<Rightarrow> 'a list" where
  "keep [] = []"
| "keep (None # xs) = keep xs"
| "keep (Some x # xs) = x # keep xs"

lemma keep_append: "keep (xs @ ys) = keep xs @ keep ys"
  by (induction xs rule: keep.induct) auto

lemmas arg_ctor_defs = arg_nil_def arg_bool_def arg_number_def arg_string_def arg_userdata_def
  raw_argument_def

lemma arg_ctor_ok [simp]:
  "arg_ok arg_nil" "arg_ok (arg_bool b)" "arg_ok (arg_number d)" "arg_ok (arg_string str)"
  "arg_ok (arg_userdata p)"
  by (simp_all add: arg_ok_def arg_ctor_defs)

lemma arg_ctor_value [simp]:
  "arg_value arg_nil = Some TNil" "arg_value (arg_bool b) = Some (TBoolean b)"
  "arg_value (arg_number d) = Some (TNumber d)" "arg_value (arg_string str) = Some (TString (c_str str))"
  "arg_value (arg_userdata p) = Some (TLightUserData p)"
  by (simp_all add: arg_value_def arg_ctor_defs Let_def)

lemma arg_type_cases:
  assumes "arg_ok a"
  obtains "m_iType a = -1" | "m_iType a = 0" | "m_iType a = 1" | "m_iType a = 2"
    | "m_iType a = 3" | "m_iType a = 4"
  using assms by (force simp: arg_ok_def)

lemma arg_assign_spec:
  assumes "arg_ok b"
  shows "arg_ok (arg_assign a b)" and "arg_value (arg_assign a b) = arg_value b"
  using assms by (cases rule: arg_type_cases [OF assms];
    force simp: arg_assign_def arg_ok_def arg_value_def Let_def)+

lemma arg_copy_spec [simp]:
  "arg_ok b \<Longrightarrow> arg_ok (arg_copy b)" "arg_ok b \<Longrightarrow> arg_value (arg_copy b) = arg_value b"
  by (simp_all add: arg_copy_def arg_assign_spec)

lemma arg_Push_spec:
  assumes "arg_ok a"
  shows "arg_Push a s = Ret () (s\<lparr>stack := stack s @ keep [arg_value a]\<rparr>)"
  using assms by (cases rule: arg_type_cases [OF assms];
    force simp: arg_Push_def arg_value_def arg_ok_def Let_def run_simps api_simps split: option.splits)

lemma PushArguments_spec:
  "\<forall>a \<in> set as. arg_ok a \<Longrightarrow>
   PushArguments as s = Ret () (s\<lparr>stack := stack s @ keep (map arg_value as)\<rparr>)"
proof (induction as arbitrary: s)
  case Nil
  then show ?case by (simp add: PushArguments_def)
next
  case (Cons a as)
  have "PushArguments (a # as) s = PushArguments as (s\<lparr>stack := stack s @ keep [arg_value a]\<rparr>)"
    using Cons.prems by (simp add: PushArguments_def run_simps arg_Push_spec)
  also have "\<dots> = Ret () (s\<lparr>stack := stack s @ keep [arg_value a] @ keep (map arg_value as)\<rparr>)"
    using Cons by simp
  finally show ?case by (cases "arg_value a") simp_all
qed

lemma arg_Read_spec:
  assumes "0 < i" and "nat i \<le> length (stack s)"
  shows "\<exists>a. arg_Read i (raw_argument LUA_TNIL) s = Ret a s \<and> arg_ok a \<and> arg_value a = carried (arg s i)"
  using assms
  by (cases "arg s i") (auto simp: arg_Read_def run_simps api_simps Let_def argtype_def arg_ok_def
    arg_value_def raw_argument_def luaV_tonumber_def l_isfalse_def)

lemma read_loop_spec:
  assumes "0 < i" and "0 < n" and "length (stack s) < nat i - 1 + n"
  shows "\<exists>as. read_loop n i acc s = Ret (acc @ as) s \<and> (\<forall>a \<in> set as. arg_ok a)
    \<and> map arg_value as = map carried (drop (nat (i - 1)) (stack s))"
  using assms
proof (induction n arbitrary: i acc)
  case 0
  then show ?case by simp
next
  case (Suc n)
  show ?case
  proof (cases "nat i \<le> length (stack s)")
    case False
    then show ?thesis using Suc.prems
      by (simp add: run_simps api_simps argtype_def)
  next
    case True
    from arg_Read_spec [OF Suc.prems(1) True] obtain a where
      a: "arg_Read i (raw_argument LUA_TNIL) s = Ret a s" "arg_ok a" "arg_value a = carried (arg s i)"
      by blast
    have "\<exists>as. read_loop n (i + 1) (acc @ [a]) s = Ret ((acc @ [a]) @ as) s \<and> (\<forall>a \<in> set as. arg_ok a)
      \<and> map arg_value as = map carried (drop (nat (i + 1 - 1)) (stack s))"
      using Suc.prems True by (intro Suc.IH) auto
    then obtain as where as: "read_loop n (i + 1) (acc @ [a]) s = Ret (acc @ a # as) s"
      "\<forall>a \<in> set as. arg_ok a" "map arg_value as = map carried (drop (nat i) (stack s))"
      by auto
    have d: "drop (nat (i - 1)) (stack s) = arg s i # drop (nat i) (stack s)"
      using Suc.prems True by (simp add: arg_def nat_diff_distrib Cons_nth_drop_Suc [symmetric])
    have "argtype s i \<noteq> LUA_TNONE" using Suc.prems True by (simp add: argtype_none)
    then show ?thesis using Suc.prems a as
      by (intro exI [of _ "a # as"]) (simp add: run_simps api_simps d)
  qed
qed

lemma ReadArguments_spec:
  assumes "0 < i"
  shows "\<exists>as. ReadArguments i s = Ret as s \<and> (\<forall>a \<in> set as. arg_ok a)
    \<and> map arg_value as = map carried (drop (nat (i - 1)) (stack s))"
  using read_loop_spec [of i "Suc (length (stack s))" s "[]"] assms
  by (simp add: ReadArguments_def run_simps lua_gettop_def del: read_loop.simps)

section \<open>Calling a Lua function\<close>

text \<open>
  \<open>lua_pcall\<close> is told the number of arguments in the list, not the number that was pushed.  When
  every argument pushes a value the two agree and the function found is called.
\<close>

lemma keep_all_Some: "None \<notin> set xs \<Longrightarrow> length (keep xs) = length xs"
  by (induction xs rule: keep.induct) auto

definition call_result ::
  "'z lua_State_scheme \<Rightarrow> (TValue, TValue list, 'z lua_State_scheme) outcome \<Rightarrow> (TValue, bool, 'z lua_State_scheme) outcome" where
  "call_result s r = (case r of
     Ret rs t \<Rightarrow> Ret True (t\<lparr>stack := stack s, curr_func := curr_func s\<rparr>)
   | Throw e t \<Rightarrow> Ret False (t\<lparr>stack := stack s @ [e], curr_func := curr_func s\<rparr>)
   | Undef \<Rightarrow> Undef)"

lemma args_Call_pushed:
  assumes "\<forall>a \<in> set as. arg_ok a"
    and f: "table_get s (globals s) (TString (c_str szFunction)) = f" "f \<noteq> TNil"
  shows "args_Call run as szFunction s =
    bnd (lua_pcall run (length as) 0) (\<lambda>iret. ret (\<not> (iret = 2 \<or> iret = 4)))
      (s\<lparr>stack := stack s @ f # keep (map arg_value as)\<rparr>)"
proof -
  let ?s = "s\<lparr>stack := stack s @ [TString (c_str szFunction)]\<rparr>"
  have "luaV_gettable run (TTable (globals s)) (TString (c_str szFunction)) ?s = Ret f ?s"
    using f by (subst luaV_gettable_raw) simp_all
  then have "lua_gettable run LUA_GLOBALSINDEX ?s = Ret () (s\<lparr>stack := stack s @ [f]\<rparr>)"
    by (simp add: lua_gettable_def top_value_def drop_top_def run_simps api_simps)
  then show ?thesis
    using assms(1) by (simp add: args_Call_def run_simps api_simps PushArguments_spec)
qed

lemma args_Call_function:
  assumes "\<forall>a \<in> set as. arg_ok a \<and> arg_value a \<noteq> None"
    and "table_get s (globals s) (TString (c_str szFunction)) = TFunction p"
  shows "args_Call run as szFunction s =
    call_result s (run p (s\<lparr>stack := keep (map arg_value as), curr_func := Some p\<rparr>))"
proof -
  have "length (keep (map arg_value as)) = length as"
    using assms(1) by (subst keep_all_Some) force+
  then show ?thesis
    using args_Call_pushed [of as s szFunction "TFunction p" run] assms
    by (simp add: run_simps lua_pcall_def lua_call_def call_value_def call_frame_def
        adjust_results_def call_result_def Let_def nth_append split: outcome.split)
qed

section \<open>Properties\<close>

text \<open>C30: Reading the arguments of a frame from a position on and pushing them on any frame
  pushes, in order, every nil, boolean, number, string (cut at its first zero byte) and light
  userdata, and drops tables, functions, full userdata and threads.  Neither step can fail.\<close>

theorem arguments_round_trip:
  assumes "0 < i"
  shows "\<exists>as. ReadArguments i s = Ret as s \<and>
    (\<forall>t. PushArguments as t =
      Ret () (t\<lparr>stack := stack t @ keep (map carried (drop (nat (i - 1)) (stack s)))\<rparr>))"
  using ReadArguments_spec [OF assms, of s] PushArguments_spec by metis

theorem arguments_round_trip_witness:
  "\<exists>as. ReadArguments 2 (new_state [] [TNil, TString ''a'', TTable 1, TNumber (Fin 3)]) =
      Ret as (new_state [] [TNil, TString ''a'', TTable 1, TNumber (Fin 3)]) \<and>
    PushArguments as (new_state [] [TNil]) = Ret () (new_state [] [TNil, TString ''a'', TNumber (Fin 3)])"
proof -
  obtain as where "ReadArguments 2 (new_state [] [TNil, TString ''a'', TTable 1, TNumber (Fin 3)]) =
      Ret as (new_state [] [TNil, TString ''a'', TTable 1, TNumber (Fin 3)])"
    and "\<forall>t :: lua_State. PushArguments as t = Ret () (t\<lparr>stack := stack t @
      keep (map carried (drop (nat (2 - 1)) (stack (new_state [] [TNil, TString ''a'', TTable 1, TNumber (Fin 3)]))))\<rparr>)"
    using arguments_round_trip [of 2 "new_state [] [TNil, TString ''a'', TTable 1, TNumber (Fin 3)]"]
    by auto
  then show ?thesis by (intro exI [of _ as]) (simp add: new_state_def c_str_def nul_def)
qed

text \<open>C31: \<open>CLuaArguments::Call\<close> with arguments that all carry a value runs the global function with
  exactly these values.  It returns true with the frame as it was when the function returns, and
  false with the error value left on the frame when the function raises.\<close>

theorem args_Call_calls:
  assumes "\<forall>a \<in> set as. arg_ok a \<and> arg_value a \<noteq> None"
    and "table_get s (globals s) (TString (c_str szFunction)) = TFunction p"
  shows "args_Call run as szFunction s =
    call_result s (run p (s\<lparr>stack := keep (map arg_value as), curr_func := Some p\<rparr>))"
  using assms by (rule args_Call_function)

theorem args_Call_calls_witness:
  "args_Call (\<lambda>p s. Throw (TString ''no'') s) [arg_bool True] ''f'' (new_state [(''f'', 7)] [])
     = Ret False (new_state [(''f'', 7)] [TString ''no''])"
  using args_Call_calls [of "[arg_bool True]" "new_state [(''f'', 7)] []" "''f''" 7
      "\<lambda>p s. Throw (TString ''no'') s"]
  by (simp add: new_state_def table_get_def luaH_get_def slot_def luaO_rawequalObj_def
      call_result_def c_str_def nul_def)

text \<open>One argument of type none (a table or a full userdata that was read) makes \<open>Call\<close> call the
  value that lies below the function, with the function itself as the first argument.\<close>

theorem args_Call_none_argument:
  assumes "\<forall>a \<in> set as. arg_ok a \<and> arg_value a \<noteq> None" and "stack s = st @ [TFunction q]"
    and "table_get s (globals s) (TString (c_str szFunction)) = TFunction p"
  shows "args_Call run (as @ [raw_argument LUA_TNONE]) szFunction s =
    call_result (s\<lparr>stack := st\<rparr>)
      (run q (s\<lparr>stack := TFunction p # keep (map arg_value as), curr_func := Some q\<rparr>))"
proof -
  have none: "arg_ok (raw_argument LUA_TNONE)" "arg_value (raw_argument LUA_TNONE) = None"
    by (simp_all add: arg_ok_def arg_value_def raw_argument_def)
  have "length (keep (map arg_value as)) = length as"
    using assms(1) by (subst keep_all_Some) force+
  then show ?thesis
    using args_Call_pushed [of "as @ [raw_argument LUA_TNONE]" s szFunction "TFunction p" run] assms none
    by (simp add: run_simps lua_pcall_def lua_call_def call_value_def call_frame_def keep_append
        adjust_results_def call_result_def Let_def nth_append split: outcome.split)
qed

theorem args_Call_none_argument_witness:
  "args_Call (\<lambda>p s. if p = 9 then Throw (TString ''nine'') s else Ret [] s)
      ([] @ [raw_argument LUA_TNONE]) ''f'' (new_state [(''f'', 7)] [TFunction 9])
     = Ret False (new_state [(''f'', 7)] [TString ''nine''])"
  using args_Call_none_argument [of "[]" "new_state [(''f'', 7)] [TFunction 9]" "[]" 9 "''f''" 7
      "\<lambda>p s. if p = 9 then Throw (TString ''nine'') s else Ret [] s"]
  by (simp add: new_state_def table_get_def luaH_get_def slot_def luaO_rawequalObj_def
      call_result_def c_str_def nul_def)

text \<open>Copying an argument and comparing the copy with the original gives true, except for a
  number that is not-a-number; the comparison never reads a member that was not set.\<close>

theorem arg_copy_equal:
  assumes "arg_ok b"
  shows "arg_eq (arg_copy b) b = Some (\<not> (m_iType b = LUA_TNUMBER \<and> m_Number b = Some NaN))"
  using assms by (cases rule: arg_type_cases [OF assms])
    (auto simp: arg_eq_def arg_copy_def arg_assign_def arg_ok_def both_def raw_argument_def Let_def
      luai_numeq_def split: option.splits)

theorem arg_copy_equal_witness: "arg_eq (arg_copy (arg_string ''ab'')) (arg_string ''ab'') = Some True"
  using arg_copy_equal [of "arg_string ''ab''", OF arg_ctor_ok(4)] by (simp add: arg_string_def raw_argument_def)

end
