(* ===== verification/Sockets.thy ===== *)
theory Sockets
  imports LuaArguments
begin

text \<open>
  The sockets module: \<open>CSocket\<close>, \<open>CSocketManager\<close>, the Lua functions of \<open>CFunctions.cpp\<close> and the entry
  points of \<open>ml_sockets.cpp\<close>, as compiled for Linux.  The state \<open>sock_world\<close> extends the Lua machine
  that is running by the other machines of the server, the heap of \<open>CSocket\<close> objects, the three global
  lists of the manager and the operating system.  The system calls are the parameter \<open>os_calls\<close>.
  What the server and the Lua scripts do in an event is the parameter \<open>script\<close>: any sequence of
  calls of the module's functions, in any machine, that may depend on the results.
\<close>

section \<open>State\<close>

record CSocket =
  m_strHost :: string
  m_usPort :: int
  m_pUserdata :: ptr
  m_bConnected :: bool
  m_pLuaVM :: nat
  m_sSockAddr :: "int \<times> int"
  m_pSocket :: int

record 'o os_calls =
  os_inet_addr :: "string \<Rightarrow> int"
  os_gethostbyname :: "string \<Rightarrow> 'o \<Rightarrow> int option \<times> 'o"
  os_socket :: "'o \<Rightarrow> int \<times> 'o"
  os_nonblocking :: "int \<Rightarrow> 'o \<Rightarrow> 'o"
  os_connect :: "int \<Rightarrow> int \<times> int \<Rightarrow> 'o \<Rightarrow> int \<times> 'o"
  os_errno :: "'o \<Rightarrow> int"
  os_select :: "int \<Rightarrow> 'o \<Rightarrow> int \<times> 'o"
  os_recv :: "int \<Rightarrow> nat \<Rightarrow> 'o \<Rightarrow> (int \<times> string) \<times> 'o"
  os_send :: "int \<Rightarrow> string \<Rightarrow> 'o \<Rightarrow> int \<times> 'o"
  os_shutdown :: "int \<Rightarrow> 'o \<Rightarrow> 'o"
  os_close :: "int \<Rightarrow> 'o \<Rightarrow> int \<times> 'o"

record 'o sock_world = lua_State +
  cur_vm :: nat
  vms :: "nat \<Rightarrow> lua_State"
  socks :: "ptr \<Rightarrow> CSocket option"
  next_sock :: ptr
  vecSockets :: "ptr list"
  processQueue :: "ptr list"
  deleteList :: "ptr list"
  ms_iTotalOpenSocketCount :: int
  ms_bInitWorked :: bool
  os :: 'o
  printed :: "string list"
  tick :: nat

type_synonym ('o, 'a) sock = "('o sock_world, 'a) lua"

text \<open>The Lua code that runs when a function is called from C++.\<close>

type_synonym 'o runner = "ptr \<Rightarrow> ('o, TValue list) sock"

abbreviation (input) ERR_INVALID_SOCKET :: int where "ERR_INVALID_SOCKET \<equiv> - 1"
abbreviation (input) ERR_SEND_FAILURE :: int where "ERR_SEND_FAILURE \<equiv> - 1"
abbreviation (input) ERR_CONNECT_FAILURE :: int where "ERR_CONNECT_FAILURE \<equiv> - 1"
abbreviation (input) ERR_CONNECT_SUCCESS :: int where "ERR_CONNECT_SUCCESS \<equiv> 0"
abbreviation (input) ERR_NO_ERROR :: int where "ERR_NO_ERROR \<equiv> 0"
abbreviation (input) ERR_WOULD_BLOCK :: int where "ERR_WOULD_BLOCK \<equiv> 11"
abbreviation (input) ERR_CONNECT_IN_PROGRESS :: int where "ERR_CONNECT_IN_PROGRESS \<equiv> 115"
abbreviation (input) ERR_NOT_CONNECTED :: int where "ERR_NOT_CONNECTED \<equiv> 107"
abbreviation (input) INADDR_NONE :: int where "INADDR_NONE \<equiv> 0xFFFFFFFF"
abbreviation (input) SOCK_RECV_LIMIT :: nat where "SOCK_RECV_LIMIT \<equiv> 1024"

text \<open>Switching the running machine: its fields are put aside and those of the other one are loaded.\<close>

definition saved_vms :: "'o sock_world \<Rightarrow> nat \<Rightarrow> lua_State" where
  "saved_vms w = (vms w)(cur_vm w := lua_State.truncate w)"

definition load_vm :: "nat \<Rightarrow> 'o sock_world \<Rightarrow> 'o sock_world" where
  "load_vm v w = (let L = saved_vms w v in w\<lparr>stack := stack L, curr_func := curr_func L,
     tables := tables L, closures := closures L, udatas := udatas L, next_obj := next_obj L,
     uaddr := uaddr L, next_udata := next_udata L, registry := registry L, globals := globals L,
     typemt := typemt L, caller := caller L, cur_vm := v, vms := saved_vms w\<rparr>)"

definition with_vm :: "nat \<Rightarrow> ('o, 'a) sock \<Rightarrow> ('o, 'a) sock" where
  "with_vm v m = (\<lambda>w. case m (load_vm v w) of
     Ret a t \<Rightarrow> Ret a (load_vm (cur_vm w) t)
   | Throw e t \<Rightarrow> Throw e (load_vm (cur_vm w) t)
   | Undef \<Rightarrow> Undef)"

definition syscall :: "('o \<Rightarrow> 'a \<times> 'o) \<Rightarrow> ('o, 'a) sock" where
  "syscall f = (\<lambda>w. let (a, o') = f (os w) in Ret a (w\<lparr>os := o'\<rparr>))"

definition get_sock :: "ptr \<Rightarrow> ('o, CSocket) sock" where
  "get_sock p = bnd (gets (\<lambda>w. socks w p)) defined"

definition set_sock :: "ptr \<Rightarrow> (CSocket \<Rightarrow> CSocket) \<Rightarrow> ('o, unit) sock" where
  "set_sock p f = bnd (get_sock p) (\<lambda>c. modify (\<lambda>w. w\<lparr>socks := (socks w)(p \<mapsto> f c)\<rparr>))"

section \<open>CSocket\<close>

definition GetLastSocketError :: "'o os_calls \<Rightarrow> ('o, int) sock" where
  "GetLastSocketError oc = gets (\<lambda>w. os_errno oc (os w))"

definition ProcessTargetLocation :: "'o os_calls \<Rightarrow> ptr \<Rightarrow> string \<Rightarrow> int \<Rightarrow> ('o, bool) sock" where
  "ProcessTargetLocation oc p strHost usPort =
     andThen (set_sock p (\<lambda>c. c\<lparr>m_sSockAddr := (0, usPort)\<rparr>))
     (let IP = os_inet_addr oc strHost in
      if IP \<noteq> INADDR_NONE then andThen (set_sock p (\<lambda>c. c\<lparr>m_sSockAddr := (IP, usPort)\<rparr>)) (ret True)
      else bnd (syscall (os_gethostbyname oc strHost)) (\<lambda>h. case h of
        None \<Rightarrow> ret False
      | Some a \<Rightarrow> andThen (set_sock p (\<lambda>c. c\<lparr>m_sSockAddr := (a, usPort)\<rparr>)) (ret True)))"

definition SetNonBlocking :: "'o os_calls \<Rightarrow> ptr \<Rightarrow> ('o, unit) sock" where
  "SetNonBlocking oc p = bnd (get_sock p) (\<lambda>c.
     modify (\<lambda>w. w\<lparr>os := os_nonblocking oc (m_pSocket c) (os w)\<rparr>))"

definition CloseSocket :: "'o os_calls \<Rightarrow> ptr \<Rightarrow> ('o, unit) sock" where
  "CloseSocket oc p = bnd (get_sock p) (\<lambda>c.
     andThen (modify (\<lambda>w. w\<lparr>os := os_shutdown oc (m_pSocket c) (os w)\<rparr>))
    (bnd (syscall (os_close oc (m_pSocket c))) (\<lambda>r.
     andThen (whenever (r = 0) (modify (\<lambda>w. w\<lparr>ms_iTotalOpenSocketCount := ms_iTotalOpenSocketCount w - 1\<rparr>)))
    (set_sock p (\<lambda>c. c\<lparr>m_pSocket := ERR_INVALID_SOCKET\<rparr>)))))"

text \<open>The constructor runs in the machine of the caller, whose stack receives the userdata.\<close>

definition alloc_sock :: "CSocket \<Rightarrow> ('o, ptr) sock" where
  "alloc_sock c = (\<lambda>w. let p = next_sock w in
     Ret p (w\<lparr>socks := (socks w)(p \<mapsto> c), next_sock := p + 1\<rparr>))"

definition CSocket_new :: "'o os_calls \<Rightarrow> string \<Rightarrow> int \<Rightarrow> ('o, ptr) sock" where
  "CSocket_new oc strHost usPort = bnd (gets cur_vm) (\<lambda>luaVM.
     bnd (alloc_sock \<lparr>m_strHost = strHost, m_usPort = usPort, m_pUserdata = 0, m_bConnected = False,
            m_pLuaVM = luaVM, m_sSockAddr = (0, 0), m_pSocket = ERR_INVALID_SOCKET\<rparr>) (\<lambda>p.
     bnd (ProcessTargetLocation oc p strHost usPort) (\<lambda>ok. if \<not> ok then ret p else
     bnd (syscall (os_socket oc)) (\<lambda>fd. andThen (set_sock p (\<lambda>c. c\<lparr>m_pSocket := fd\<rparr>))
    (if fd = ERR_INVALID_SOCKET then ret p else
     andThen (modify (\<lambda>w. w\<lparr>ms_iTotalOpenSocketCount := ms_iTotalOpenSocketCount w + 1\<rparr>))
    (andThen (SetNonBlocking oc p)
    (bnd (get_sock p) (\<lambda>c. bnd (syscall (os_connect oc fd (m_sSockAddr c))) (\<lambda>r.
     bnd (if r \<noteq> ERR_CONNECT_SUCCESS then bnd (GetLastSocketError oc) (\<lambda>iError.
            if iError \<noteq> ERR_CONNECT_IN_PROGRESS then andThen (CloseSocket oc p) (ret False) else ret True)
          else ret True) (\<lambda>go. if \<not> go then ret p else
     bnd (lua_newuserdata 128) (\<lambda>u. andThen (set_sock p (\<lambda>c. c\<lparr>m_pUserdata := u\<rparr>)) (ret p))))))))))))"

definition CSocket_delete :: "'o os_calls \<Rightarrow> ptr \<Rightarrow> ('o, unit) sock" where
  "CSocket_delete oc p = bnd (get_sock p) (\<lambda>c.
     andThen (whenever (m_pSocket c \<noteq> ERR_INVALID_SOCKET) (CloseSocket oc p))
    (modify (\<lambda>w. w\<lparr>socks := (socks w)(p := None)\<rparr>)))"

text \<open>\<open>TriggerEvent\<close> leaves the value of \<open>root\<close> on the stack of the socket's machine.\<close>

definition TriggerEvent :: "'o runner \<Rightarrow> ptr \<Rightarrow> string \<Rightarrow> string \<Rightarrow> ('o, unit) sock" where
  "TriggerEvent run p eventName arg1 = bnd (get_sock p) (\<lambda>c. with_vm (m_pLuaVM c)
    (let args = PushString [] eventName in
     andThen (lua_getglobal run ''root'')
    (bnd (arg_Read (- 1) (raw_argument LUA_TNIL)) (\<lambda>RootElement.
     bnd (defined (m_pLightUserData RootElement)) (\<lambda>r.
     let args = PushUserData args r; args = PushUserData args (m_pUserdata c);
         args = (if length arg1 > 0 then PushString args arg1 else args) in
     andThen (args_Call run args ''triggerEvent'') (ret ()))))))"

definition CloseSocketWithEvent :: "'o os_calls \<Rightarrow> 'o runner \<Rightarrow> ptr \<Rightarrow> bool \<Rightarrow> ('o, unit) sock" where
  "CloseSocketWithEvent oc run p bTriggerCloseEvent = bnd (get_sock p) (\<lambda>c.
     whenever (m_pSocket c \<noteq> ERR_INVALID_SOCKET) (andThen (CloseSocket oc p)
       (whenever bTriggerCloseEvent (TriggerEvent run p ''onSockClosed'' []))))"

definition Send :: "'o os_calls \<Rightarrow> ptr \<Rightarrow> string \<Rightarrow> ('o, bool) sock" where
  "Send oc p data = bnd (get_sock p) (\<lambda>c.
     if m_pSocket c = ERR_INVALID_SOCKET then ret False
     else bnd (syscall (os_send oc (m_pSocket c) data)) (\<lambda>r. ret (r \<noteq> ERR_SEND_FAILURE)))"

definition HandleConnection :: "'o runner \<Rightarrow> ptr \<Rightarrow> int \<Rightarrow> ('o, int) sock" where
  "HandleConnection run p iError =
     (if iError = ERR_NO_ERROR \<or> iError = ERR_WOULD_BLOCK then
        andThen (set_sock p (\<lambda>c. c\<lparr>m_bConnected := True\<rparr>))
       (andThen (TriggerEvent run p ''onSockOpened'' []) (ret 1))
      else if iError = ERR_NOT_CONNECTED then ret 0
      else andThen (modify (\<lambda>w. w\<lparr>printed := printed w @ [''Could not connect due to error: '' @ int_str iError]\<rparr>))
        (ret (- 1)))"

text \<open>The buffer has \<open>SOCK_RECV_LIMIT + 1\<close> bytes: the terminator is written inside it or nowhere defined.\<close>

definition receive :: "'o os_calls \<Rightarrow> 'o runner \<Rightarrow> ptr \<Rightarrow> ('o, bool) sock" where
  "receive oc run p = bnd (get_sock p) (\<lambda>c0.
     bnd (syscall (os_recv oc (m_pSocket c0) SOCK_RECV_LIMIT)) (\<lambda>(iLength, chBuffer).
     bnd (GetLastSocketError oc) (\<lambda>iError.
     bnd (if m_bConnected c0 then ret True
          else bnd (HandleConnection run p iError) (\<lambda>h. ret (h \<noteq> ERR_CONNECT_FAILURE))) (\<lambda>go.
     if \<not> go then ret False else
     bnd (get_sock p) (\<lambda>c. if \<not> m_bConnected c then ret True else
       (if iLength > 0 then
          (if nat iLength > SOCK_RECV_LIMIT then undef
           else andThen (TriggerEvent run p ''onSockData'' (c_str (take (nat iLength) chBuffer))) (ret True))
        else if (iError \<noteq> ERR_NO_ERROR \<and> iError \<noteq> ERR_WOULD_BLOCK) \<or> iLength = 0 then
          andThen (set_sock p (\<lambda>c. c\<lparr>m_bConnected := False\<rparr>)) (ret False)
        else ret True))))))"

definition CSocket_DoPulse :: "'o os_calls \<Rightarrow> 'o runner \<Rightarrow> ptr \<Rightarrow> ('o, bool) sock" where
  "CSocket_DoPulse oc run p = bnd (get_sock p) (\<lambda>c.
     if m_pSocket c = ERR_INVALID_SOCKET then ret False
     else if m_bConnected c then receive oc run p
     else bnd (syscall (os_select oc (m_pSocket c))) (\<lambda>r.
       if r = 0 then ret True else if r = - 1 then ret False else receive oc run p))"

definition IsConnected :: "ptr \<Rightarrow> ('o, bool) sock" where
  "IsConnected p = bnd (get_sock p) (\<lambda>c. ret (m_pSocket c \<noteq> ERR_INVALID_SOCKET \<and> m_bConnected c))"

section \<open>CSocketManager\<close>

definition SocketAdd :: "ptr \<Rightarrow> ('o, unit) sock" where
  "SocketAdd p = modify (\<lambda>w. w\<lparr>vecSockets := vecSockets w @ [p]\<rparr>)"

definition SocketRemove :: "'o os_calls \<Rightarrow> 'o runner \<Rightarrow> ptr \<Rightarrow> bool \<Rightarrow> ('o, unit) sock" where
  "SocketRemove oc run p bTriggerCloseEvent =
     andThen (modify (\<lambda>w. w\<lparr>vecSockets := remove1 p (vecSockets w)\<rparr>))
    (andThen (modify (\<lambda>w. w\<lparr>processQueue := remove1 p (processQueue w)\<rparr>))
    (andThen (CloseSocketWithEvent oc run p bTriggerCloseEvent)
    (andThen (modify (\<lambda>w. w\<lparr>deleteList := remove1 p (deleteList w)\<rparr>))
    (modify (\<lambda>w. w\<lparr>deleteList := deleteList w @ [p]\<rparr>)))))"

fun find_sock :: "(CSocket \<Rightarrow> bool) \<Rightarrow> ptr list \<Rightarrow> ('o, ptr option) sock" where
  "find_sock P [] = ret None"
| "find_sock P (p # ps) = bnd (get_sock p) (\<lambda>c. if P c then ret (Some p) else find_sock P ps)"

definition GetSocket :: "ptr \<Rightarrow> ('o, ptr option) sock" where
  "GetSocket pUserdata = (if pUserdata = 0 then ret None
     else bnd (gets vecSockets) (find_sock (\<lambda>c. m_pUserdata c = pUserdata)))"

definition GetSocketByLuaVM :: "nat \<Rightarrow> ('o, ptr option) sock" where
  "GetSocketByLuaVM luaVM = bnd (gets vecSockets) (find_sock (\<lambda>c. m_pLuaVM c = luaVM))"

text \<open>
  The three loops take fuel.  \<open>Undef\<close> stands for a loop that has not ended; the theorems show that
  the length of the list at the start is enough.
\<close>

fun pulse_loop :: "nat \<Rightarrow> 'o os_calls \<Rightarrow> 'o runner \<Rightarrow> ('o, unit) sock" where
  "pulse_loop n oc run = bnd (gets processQueue) (\<lambda>q. case q of
     [] \<Rightarrow> ret ()
   | p # ps \<Rightarrow> (case n of 0 \<Rightarrow> undef | Suc m \<Rightarrow>
       andThen (modify (\<lambda>w. w\<lparr>processQueue := ps\<rparr>))
      (bnd (CSocket_DoPulse oc run p) (\<lambda>r.
       andThen (whenever (\<not> r) (SocketRemove oc run p True)) (pulse_loop m oc run)))))"

fun delete_loop :: "nat \<Rightarrow> 'o os_calls \<Rightarrow> ('o, unit) sock" where
  "delete_loop n oc = bnd (gets deleteList) (\<lambda>q. case q of
     [] \<Rightarrow> ret ()
   | p # ps \<Rightarrow> (case n of 0 \<Rightarrow> undef | Suc m \<Rightarrow>
       andThen (modify (\<lambda>w. w\<lparr>deleteList := ps\<rparr>))
      (andThen (whenever (p \<noteq> 0) (CSocket_delete oc p)) (delete_loop m oc))))"

definition Manager_DoPulse :: "'o os_calls \<Rightarrow> 'o runner \<Rightarrow> ('o, unit) sock" where
  "Manager_DoPulse oc run =
     andThen (modify (\<lambda>w. w\<lparr>processQueue := vecSockets w\<rparr>))
    (bnd (gets (\<lambda>w. length (processQueue w))) (\<lambda>n. andThen (pulse_loop n oc run)
    (bnd (gets (\<lambda>w. length (deleteList w))) (\<lambda>n. delete_loop n oc))))"

fun stop_loop :: "nat \<Rightarrow> 'o os_calls \<Rightarrow> 'o runner \<Rightarrow> nat \<Rightarrow> ('o, unit) sock" where
  "stop_loop n oc run luaVM = bnd (GetSocketByLuaVM luaVM) (\<lambda>r. case r of
     None \<Rightarrow> ret ()
   | Some p \<Rightarrow> (case n of 0 \<Rightarrow> undef | Suc m \<Rightarrow>
       andThen (SocketRemove oc run p False) (stop_loop m oc run luaVM)))"

definition Manager_ResourceStopped :: "'o os_calls \<Rightarrow> 'o runner \<Rightarrow> nat \<Rightarrow> ('o, unit) sock" where
  "Manager_ResourceStopped oc run luaVM = bnd (gets (\<lambda>w. length (vecSockets w))) (\<lambda>n.
     stop_loop n oc run luaVM)"

text \<open>\<open>HandleStop\<close> overwrites each deleted entry with \<open>NULL\<close> and then clears the lists.\<close>

definition HandleStop :: "'o os_calls \<Rightarrow> ('o, unit) sock" where
  "HandleStop oc =
     bnd (gets vecSockets) (\<lambda>ps. andThen (forEach ps (\<lambda>p. whenever (p \<noteq> 0) (CSocket_delete oc p)))
    (bnd (gets deleteList) (\<lambda>qs. andThen (forEach qs (\<lambda>p. whenever (p \<noteq> 0) (CSocket_delete oc p)))
    (modify (\<lambda>w. w\<lparr>vecSockets := [], processQueue := [], deleteList := []\<rparr>)))))"

section \<open>CFunctions\<close>

definition sockOpen :: "'o os_calls \<Rightarrow> ('o, int) sock" where
  "sockOpen oc = bnd (lua_type 1) (\<lambda>t1. bnd (lua_type 2) (\<lambda>t2.
     if t1 = LUA_TSTRING \<and> t2 = LUA_TNUMBER then
       bnd (gets ms_iTotalOpenSocketCount) (\<lambda>n. if n \<ge> 255 then
         andThen (modify (\<lambda>w. w\<lparr>printed := printed w
           @ [''[Sockets] Can'' @ [CHR 0x27] @ ''t sockOpen as 255 sockets already open'']\<rparr>))
        (andThen (lua_pushboolean False) (ret 1))
       else
       bnd (lua_tolstring 1) (\<lambda>h. bnd (defined h) (\<lambda>host.
       bnd (lua_tonumber 2) (\<lambda>d. bnd (defined (to_ushort d)) (\<lambda>usPort.
       bnd (CSocket_new oc (c_str host) usPort) (\<lambda>pSocket.
       bnd (get_sock pSocket) (\<lambda>c.
       if m_pUserdata c = 0 then
         andThen (CSocket_delete oc pSocket) (andThen (lua_pushboolean False) (ret 1))
       else andThen (SocketAdd pSocket)
           (andThen (lua_pushlightuserdata (m_pUserdata c)) (ret 1)))))))))
     else andThen (lua_pushboolean False) (ret 1)))"

definition sockWrite :: "'o os_calls \<Rightarrow> ('o, int) sock" where
  "sockWrite oc = bnd (lua_type 1) (\<lambda>t1. bnd (lua_type 2) (\<lambda>t2.
     if t1 = LUA_TLIGHTUSERDATA \<and> t2 = LUA_TSTRING then
       bnd (lua_touserdata 1) (\<lambda>pUserdata. bnd (GetSocket pUserdata) (\<lambda>r. case r of
         None \<Rightarrow> andThen (lua_pushboolean False) (ret 1)
       | Some pSocket \<Rightarrow> bnd (lua_tolstring 2) (\<lambda>d. bnd (defined d) (\<lambda>str.
           bnd (Send oc pSocket (c_str str)) (\<lambda>bSuccess.
           andThen (lua_pushboolean bSuccess) (ret 1))))))
     else andThen (lua_pushboolean False) (ret 1)))"

definition sockClose :: "'o os_calls \<Rightarrow> 'o runner \<Rightarrow> ('o, int) sock" where
  "sockClose oc run = bnd (lua_type 1) (\<lambda>t1.
     if t1 = LUA_TLIGHTUSERDATA then
       bnd (lua_touserdata 1) (\<lambda>pUserdata. bnd (GetSocket pUserdata) (\<lambda>r. case r of
         None \<Rightarrow> andThen (lua_pushboolean False) (ret 1)
       | Some pSocket \<Rightarrow> andThen (SocketRemove oc run pSocket True)
           (andThen (lua_pushboolean True) (ret 1))))
     else andThen (lua_pushboolean False) (ret 1))"

definition AddEvent :: "'o runner \<Rightarrow> string \<Rightarrow> ('o, unit) sock" where
  "AddEvent run strEventName =
     andThen (args_Call run (PushBoolean (PushString [] strEventName) True) ''addEvent'') (ret ())"

section \<open>Scripts\<close>

text \<open>
  A script of the server calls functions of the module and goes on with their results.  Lua
  bounds nested C calls (\<open>LUAI_MAXCCALLS\<close>) and raises an error beyond; \<open>run_lua\<close> has that depth as
  its first argument, so events that trigger events end.
\<close>

datatype script =
    Finish "TValue list"
  | Raise TValue
  | Call nat string "TValue list" "TValue list \<Rightarrow> script"

type_synonym server = "nat \<Rightarrow> ptr \<Rightarrow> TValue list \<Rightarrow> script"

definition call_function :: "'o os_calls \<Rightarrow> 'o runner \<Rightarrow> nat \<Rightarrow> string \<Rightarrow> TValue list \<Rightarrow> ('o, TValue list) sock" where
  "call_function oc run v f args = with_vm v (\<lambda>w.
     let body = (if f = ''sockOpen'' then sockOpen oc
                 else if f = ''sockWrite'' then sockWrite oc
                 else if f = ''sockClose'' then sockClose oc run
                 else lua_raise ''attempt to call a nil value'')
     in case body (w\<lparr>stack := args\<rparr>) of
       Ret n t \<Rightarrow> Ret (drop (length (stack t) - nat n) (stack t)) (t\<lparr>stack := stack w\<rparr>)
     | Throw e t \<Rightarrow> Throw e (t\<lparr>stack := stack w\<rparr>)
     | Undef \<Rightarrow> Undef)"

primrec run_script :: "'o os_calls \<Rightarrow> 'o runner \<Rightarrow> script \<Rightarrow> ('o, TValue list) sock" where
  "run_script oc run (Finish rs) = ret rs"
| "run_script oc run (Raise e) = throw e"
| "run_script oc run (Call v f args k) =
     bnd (call_function oc run v f args) (\<lambda>rs. run_script oc run (k rs))"

fun run_lua :: "nat \<Rightarrow> 'o os_calls \<Rightarrow> server \<Rightarrow> 'o runner" where
  "run_lua 0 oc sv p = lua_raise ''C stack overflow''"
| "run_lua (Suc d) oc sv p = bnd (gets tick) (\<lambda>n.
     andThen (modify (\<lambda>w. w\<lparr>tick := n + 1\<rparr>))
    (bnd (gets stack) (\<lambda>args. run_script oc (run_lua d oc sv) (sv n p args))))"

section \<open>Module entry points\<close>

definition InitModule :: "('o, bool) sock \<Rightarrow> ('o, bool) sock" where
  "InitModule ImportLua = bnd ImportLua (\<lambda>ok. if \<not> ok then ret False else
     andThen (modify (\<lambda>w. w\<lparr>ms_bInitWorked := True\<rparr>)) (ret True))"

definition RegisterFunctions :: "(string \<Rightarrow> ('o, unit) sock) \<Rightarrow> 'o runner \<Rightarrow> ('o, unit) sock" where
  "RegisterFunctions RegisterFunction run = bnd (gets ms_bInitWorked) (\<lambda>b. if \<not> b then ret () else
     andThen (RegisterFunction ''sockOpen'') (andThen (RegisterFunction ''sockWrite'')
    (andThen (RegisterFunction ''sockClose'') (andThen (AddEvent run ''onSockOpened'')
    (andThen (AddEvent run ''onSockData'') (AddEvent run ''onSockClosed''))))))"

definition Module_DoPulse :: "'o os_calls \<Rightarrow> 'o runner \<Rightarrow> ('o, bool) sock" where
  "Module_DoPulse oc run = andThen (Manager_DoPulse oc run) (ret True)"

definition ResourceStopped :: "'o os_calls \<Rightarrow> 'o runner \<Rightarrow> nat \<Rightarrow> ('o, unit) sock" where
  "ResourceStopped oc run luaVM = Manager_ResourceStopped oc run luaVM"

definition ShutdownModule :: "'o os_calls \<Rightarrow> ('o, bool) sock" where
  "ShutdownModule oc = andThen (HandleStop oc) (ret True)"

end
