(* ===== verification/SocketsSafety.thy ===== *)
theory SocketsSafety
  imports Sockets
begin

text \<open>
  Memory safety of the sockets module under re-entrant scripts.  \<open>sock_inv K M n v\<close> is the invariant:
  the lists hold distinct live sockets, every live socket is in a list or in \<open>K\<close> (the sockets a
  C++ frame below is about to put into a list), the sockets of \<open>M\<close> stay in a list, the process queue
  has at most \<open>n\<close> entries, machine \<open>v\<close> is running, and no more sockets are open than the counter says,
  which is at most 255.  Every operation keeps it for all \<open>K\<close>, \<open>M\<close>, \<open>n\<close> and \<open>v\<close> when the code it calls
  back does, and \<open>run_lua\<close> does by induction on the depth of nested calls.
\<close>

section \<open>The invariant\<close>

definition open_socks :: "'o sock_world \<Rightarrow> ptr set" where
  "open_socks w = {p. \<exists>c. socks w p = Some c \<and> m_pSocket c \<noteq> ERR_INVALID_SOCKET}"

definition lua_ok :: "'z lua_State_scheme \<Rightarrow> bool" where
  "lua_ok L \<longleftrightarrow> (\<exists>r. table_get L (globals L) (TString ''root'') = TLightUserData r)
     \<and> (\<exists>p. table_get L (globals L) (TString ''triggerEvent'') = TFunction p)"

definition heap_inv :: "ptr set \<Rightarrow> ptr set \<Rightarrow> 'o sock_world \<Rightarrow> bool" where
  "heap_inv K M w \<longleftrightarrow> distinct (vecSockets w) \<and> distinct (deleteList w)
     \<and> set (vecSockets w) \<inter> set (deleteList w) = {}
     \<and> distinct (processQueue w) \<and> set (processQueue w) \<subseteq> set (vecSockets w)
     \<and> dom (socks w) = set (vecSockets w) \<union> set (deleteList w) \<union> K
     \<and> (\<forall>p \<in> dom (socks w). 0 < p \<and> p < next_sock w) \<and> 0 < next_sock w
     \<and> K \<inter> set (vecSockets w) = {} \<and> M \<subseteq> set (vecSockets w) \<union> set (deleteList w)"

definition count_inv :: "'o sock_world \<Rightarrow> bool" where
  "count_inv w \<longleftrightarrow> int (card (open_socks w)) \<le> ms_iTotalOpenSocketCount w
     \<and> ms_iTotalOpenSocketCount w \<le> 255"

definition sock_inv :: "ptr set \<Rightarrow> ptr set \<Rightarrow> nat \<Rightarrow> nat \<Rightarrow> 'o sock_world \<Rightarrow> bool" where
  "sock_inv K M n v w \<longleftrightarrow> heap_inv K M w \<and> count_inv w \<and> length (processQueue w) \<le> n
     \<and> cur_vm w = v \<and> (\<forall>u. lua_ok (saved_vms w u))"

definition runner_ok :: "'o runner \<Rightarrow> bool" where
  "runner_ok run \<longleftrightarrow> (\<forall>p K M n v. keeps True (sock_inv K M n v) (run p))"

definition recv_ok :: "'o os_calls \<Rightarrow> bool" where
  "recv_ok oc \<longleftrightarrow> (\<forall>fd n s. fst (fst (os_recv oc fd n s)) \<le> int n)"

section \<open>What the invariant does not look at\<close>

lemma truncate_eqs [simp]:
  "stack (lua_State.truncate w) = stack w" "tables (lua_State.truncate w) = tables w"
  "globals (lua_State.truncate w) = globals w" "udatas (lua_State.truncate w) = udatas w"
  "curr_func (lua_State.truncate w) = curr_func w" "closures (lua_State.truncate w) = closures w"
  "next_obj (lua_State.truncate w) = next_obj w" "uaddr (lua_State.truncate w) = uaddr w"
  "next_udata (lua_State.truncate w) = next_udata w" "registry (lua_State.truncate w) = registry w"
  "typemt (lua_State.truncate w) = typemt w" "caller (lua_State.truncate w) = caller w"
  by (simp_all add: lua_State.truncate_def)

lemma lua_ok_truncate [simp]: "lua_ok (lua_State.truncate w) = lua_ok w"
  by (simp add: lua_ok_def table_get_def)

lemma lua_ok_frame [simp]:
  "lua_ok (w\<lparr>stack := st\<rparr>) = lua_ok w" "lua_ok (w\<lparr>curr_func := f\<rparr>) = lua_ok w"
  "lua_ok (w\<lparr>udatas := us\<rparr>) = lua_ok w" "lua_ok (w\<lparr>next_udata := k\<rparr>) = lua_ok w"
  "lua_ok (w\<lparr>uaddr := a\<rparr>) = lua_ok w"
  by (simp_all add: lua_ok_def table_get_def)

lemma all_vms_ok: "(\<forall>u. lua_ok (saved_vms w u)) \<longleftrightarrow> lua_ok w \<and> (\<forall>u. u \<noteq> cur_vm w \<longrightarrow> lua_ok (vms w u))"
  by (auto simp: saved_vms_def)

lemmas sock_inv_defs = sock_inv_def heap_inv_def count_inv_def open_socks_def all_vms_ok

lemma sock_inv_frame [simp]:
  "sock_inv K M n v (w\<lparr>stack := st\<rparr>) = sock_inv K M n v w"
  "sock_inv K M n v (w\<lparr>curr_func := f\<rparr>) = sock_inv K M n v w"
  "sock_inv K M n v (w\<lparr>udatas := us\<rparr>) = sock_inv K M n v w"
  "sock_inv K M n v (w\<lparr>next_udata := k\<rparr>) = sock_inv K M n v w"
  "sock_inv K M n v (w\<lparr>uaddr := a\<rparr>) = sock_inv K M n v w"
  by (simp_all add: sock_inv_defs)

lemma lua_ok_ext [simp]:
  "lua_ok (w\<lparr>os := x\<rparr>) = lua_ok w" "lua_ok (w\<lparr>printed := y\<rparr>) = lua_ok w"
  "lua_ok (w\<lparr>tick := k\<rparr>) = lua_ok w" "lua_ok (w\<lparr>socks := h\<rparr>) = lua_ok w"
  "lua_ok (w\<lparr>vecSockets := q\<rparr>) = lua_ok w" "lua_ok (w\<lparr>processQueue := q\<rparr>) = lua_ok w"
  "lua_ok (w\<lparr>deleteList := q\<rparr>) = lua_ok w" "lua_ok (w\<lparr>next_sock := k\<rparr>) = lua_ok w"
  "lua_ok (w\<lparr>ms_iTotalOpenSocketCount := i\<rparr>) = lua_ok w"
  by (simp_all add: lua_ok_def table_get_def)

lemma sock_inv_os [simp]:
  "sock_inv K M n v (w\<lparr>os := x\<rparr>) = sock_inv K M n v w"
  "sock_inv K M n v (w\<lparr>printed := y\<rparr>) = sock_inv K M n v w"
  "sock_inv K M n v (w\<lparr>tick := k\<rparr>) = sock_inv K M n v w"
  by (simp_all add: sock_inv_defs)

lemma keeps_syscall [triple_intros]: "keeps t (sock_inv K M n v) (syscall f)"
  by (rule keepsI) (simp add: syscall_def split: prod.split)

section \<open>Switching machines\<close>

lemma truncate_load [simp]: "lua_State.truncate (load_vm v w) = saved_vms w v"
  by (simp add: lua_State.truncate_def load_vm_def Let_def)

lemma load_vm_ext [simp]:
  "cur_vm (load_vm v w) = v" "vms (load_vm v w) = saved_vms w" "socks (load_vm v w) = socks w"
  "vecSockets (load_vm v w) = vecSockets w" "processQueue (load_vm v w) = processQueue w"
  "deleteList (load_vm v w) = deleteList w" "next_sock (load_vm v w) = next_sock w"
  "ms_iTotalOpenSocketCount (load_vm v w) = ms_iTotalOpenSocketCount w" "os (load_vm v w) = os w"
  by (simp_all add: load_vm_def Let_def)

lemma saved_vms_load [simp]: "saved_vms (load_vm v w) = saved_vms w"
  by (rule ext) (simp add: saved_vms_def [of "load_vm v w"])

lemma sock_inv_load [simp]: "sock_inv K M n v (load_vm v w) \<longleftrightarrow> sock_inv K M n (cur_vm w) w"
  by (simp add: sock_inv_def heap_inv_def count_inv_def open_socks_def)

lemma keeps_with_vm [triple_intros]:
  assumes "keeps t (sock_inv K M n v) m"
  shows "keeps t (sock_inv K M n u) (with_vm v m)"
proof (rule keepsI)
  fix w :: "'a sock_world"
  assume w: "sock_inv K M n u w"
  then have u: "cur_vm w = u" by (simp add: sock_inv_def)
  with w have "sock_inv K M n v (load_vm v w)" by simp
  from keepsD [OF assms this] u
  show "case with_vm v m w of Ret a s \<Rightarrow> sock_inv K M n u s | Throw e s \<Rightarrow> t \<and> sock_inv K M n u s | Undef \<Rightarrow> False"
    by (auto simp: with_vm_def sock_inv_def heap_inv_def count_inv_def open_socks_def split: outcome.splits)
qed

section \<open>Socket objects\<close>

lemma inv_alive: "sock_inv K M n v w \<Longrightarrow> p \<in> K \<or> p \<in> M \<Longrightarrow> \<exists>c. socks w p = Some c"
  by (auto simp: sock_inv_def heap_inv_def domIff set_eq_iff)

lemma open_update:
  "m_pSocket (f c) = m_pSocket c \<Longrightarrow> socks w p = Some c \<Longrightarrow>
   open_socks (w\<lparr>socks := (socks w)(p \<mapsto> f c)\<rparr>) = open_socks w"
  by (auto simp: open_socks_def)

lemma inv_update:
  assumes "sock_inv K M n v w" and "socks w p = Some c" and "m_pSocket d = m_pSocket c"
  shows "sock_inv K M n v (w\<lparr>socks := (socks w)(p \<mapsto> d)\<rparr>)"
proof -
  have "dom ((socks w)(p \<mapsto> d)) = dom (socks w)" using assms(2) by auto
  with assms open_update [of "\<lambda>_. d" c w p] show ?thesis
    by (simp add: sock_inv_def heap_inv_def count_inv_def all_vms_ok)
qed

lemma keeps_set_sock [triple_intros]:
  assumes "p \<in> K \<or> p \<in> M" and "\<And>c. m_pSocket (f c) = m_pSocket c"
  shows "keeps t (sock_inv K M n v) (set_sock p f)"
proof (rule keepsI)
  fix w :: "'a sock_world"
  assume w: "sock_inv K M n v w"
  then obtain c where "socks w p = Some c" using assms inv_alive by blast
  with w assms inv_update [OF w this, of "f c"]
  show "case set_sock p f w of Ret a s \<Rightarrow> sock_inv K M n v s | Throw e s \<Rightarrow> t \<and> sock_inv K M n v s | Undef \<Rightarrow> False"
    by (simp add: set_sock_def get_sock_def run_simps)
qed

lemma keeps_get_sock [triple_intros]: "p \<in> K \<or> p \<in> M \<Longrightarrow> keeps t (sock_inv K M n v) (get_sock p)"
  by (rule keepsI) (force simp: get_sock_def run_simps dest: inv_alive split: option.splits)

lemma finite_open: "sock_inv K M n v w \<Longrightarrow> finite (open_socks w)"
  by (rule finite_subset [of _ "{..<next_sock w}"])
    (auto simp: sock_inv_def heap_inv_def open_socks_def)

text \<open>Closing an open socket frees one of the counted sockets.\<close>

lemma inv_close:
  assumes w: "sock_inv K M n v w" and p: "socks w p = Some c" "m_pSocket c \<noteq> ERR_INVALID_SOCKET"
    and k: "k = ms_iTotalOpenSocketCount w - 1 \<or> k = ms_iTotalOpenSocketCount w"
  shows "sock_inv K M n v (w\<lparr>ms_iTotalOpenSocketCount := k,
    socks := (socks w)(p \<mapsto> c\<lparr>m_pSocket := ERR_INVALID_SOCKET\<rparr>)\<rparr>)" (is "sock_inv K M n v ?t")
proof -
  have o: "open_socks ?t = open_socks w - {p}" and pin: "p \<in> open_socks w"
    using p by (auto simp: open_socks_def)
  have d: "dom (socks ?t) = dom (socks w)" using p by auto
  have "card (open_socks ?t) = card (open_socks w) - 1"
    unfolding o using finite_open [OF w] pin by simp
  moreover have "card (open_socks w) > 0"
    using finite_open [OF w] pin card_gt_0_iff by blast
  ultimately show ?thesis
    using w k d by (auto simp: sock_inv_def heap_inv_def count_inv_def all_vms_ok)
qed

lemma CloseSocket_spec:
  assumes "socks w p = Some c" "m_pSocket c \<noteq> ERR_INVALID_SOCKET"
  shows "\<exists>k x. CloseSocket oc p w = Ret () (w\<lparr>os := x, ms_iTotalOpenSocketCount := k,
           socks := (socks w)(p \<mapsto> c\<lparr>m_pSocket := ERR_INVALID_SOCKET\<rparr>)\<rparr>)
         \<and> (k = ms_iTotalOpenSocketCount w - 1 \<or> k = ms_iTotalOpenSocketCount w)"
proof -
  let ?r = "os_close oc (m_pSocket c) (os_shutdown oc (m_pSocket c) (os w))"
  show ?thesis using assms
    by (intro exI [of _ "if fst ?r = 0 then ms_iTotalOpenSocketCount w - 1 else ms_iTotalOpenSocketCount w"]
        exI [of _ "snd ?r"])
      (auto simp: CloseSocket_def get_sock_def set_sock_def syscall_def run_simps split: prod.split)
qed

lemma CloseSocket_keeps:
  assumes "sock_inv K M n v w" and "socks w p = Some c" "m_pSocket c \<noteq> ERR_INVALID_SOCKET"
  shows "\<exists>t. CloseSocket oc p w = Ret () t \<and> sock_inv K M n v t"
proof -
  obtain k x where cl: "CloseSocket oc p w = Ret () (w\<lparr>os := x, ms_iTotalOpenSocketCount := k,
      socks := (socks w)(p \<mapsto> c\<lparr>m_pSocket := ERR_INVALID_SOCKET\<rparr>)\<rparr>)"
    and k: "k = ms_iTotalOpenSocketCount w - 1 \<or> k = ms_iTotalOpenSocketCount w"
    using CloseSocket_spec [OF assms(2,3)] by blast
  have "sock_inv K M n v (w\<lparr>os := x\<rparr>)" using assms(1) by simp
  from inv_close [OF this _ assms(3), of p k] assms(2) k cl show ?thesis
    by (auto intro!: exI)
qed

section \<open>Events\<close>

text \<open>
  What \<open>TriggerEvent\<close> does, exactly: the function \<open>triggerEvent\<close> of the socket's machine is called with
  the event name, \<open>root\<close>, the handle of the socket and the data if there is any, and the frame
  of that machine keeps the value of \<open>root\<close> that was pushed to be read.
\<close>

definition event_args :: "string \<Rightarrow> ptr \<Rightarrow> ptr \<Rightarrow> string \<Rightarrow> TValue list" where
  "event_args ev r h a = [TString (c_str ev), TLightUserData r, TLightUserData h]
     @ (if a = [] then [] else [TString (c_str a)])"

lemma TriggerEvent_exact:
  assumes c: "socks w p = Some c" and u: "u = load_vm (m_pLuaVM c) w"
    and root: "table_get u (globals u) (TString ''root'') = TLightUserData r"
    and trig: "table_get u (globals u) (TString ''triggerEvent'') = TFunction q"
  shows "TriggerEvent run p ev a w =
    (case call_result (u\<lparr>stack := stack u @ [TLightUserData r]\<rparr>)
        (run q (u\<lparr>stack := event_args ev r (m_pUserdata c) a, curr_func := Some q\<rparr>)) of
       Ret _ t \<Rightarrow> Ret () (load_vm (cur_vm w) t)
     | Throw e t \<Rightarrow> Throw e (load_vm (cur_vm w) t)
     | Undef \<Rightarrow> Undef)"
proof -
  let ?u = "u\<lparr>stack := stack u @ [TLightUserData r]\<rparr>"
  let ?args = "[arg_string ev, arg_userdata r, arg_userdata (m_pUserdata c)]
    @ (if a = [] then [] else [arg_string a])"
  have str: "c_str ''root'' = ''root''" "c_str ''triggerEvent'' = ''triggerEvent''"
    by (simp_all add: c_str_def nul_def)
  have get: "lua_getglobal run ''root'' u = Ret () ?u"
    using root unfolding lua_getglobal_def
    by (subst lua_getfield_raw [of _ _ "globals u"]) (simp_all add: value_at_globals str)
  have read: "arg_Read (- 1) (raw_argument LUA_TNIL) ?u
      = Ret (arg_userdata r) ?u" and mem: "m_pLightUserData (arg_userdata r) = Some r"
    by (simp_all add: arg_userdata_def arg_Read_def lua_type_def lua_touserdata_def value_at_def adr_of_def index2adr_def
        deref_def run_simps raw_argument_def Let_def)
  have call: "args_Call run ?args ''triggerEvent'' ?u
      = call_result ?u (run q (?u\<lparr>stack := keep (map arg_value ?args), curr_func := Some q\<rparr>))"
    using trig by (intro args_Call_function) (auto simp: str)
  have vals: "keep (map arg_value ?args) = event_args ev r (m_pUserdata c) a"
    by (simp add: event_args_def)
  have "TriggerEvent run p ev a w = with_vm (m_pLuaVM c)
      (andThen (lua_getglobal run ''root'') (bnd (arg_Read (- 1) (raw_argument LUA_TNIL))
        (\<lambda>RootElement. bnd (defined (m_pLightUserData RootElement)) (\<lambda>r.
           andThen (args_Call run ([arg_string ev, arg_userdata r, arg_userdata (m_pUserdata c)]
             @ (if a = [] then [] else [arg_string a])) ''triggerEvent'') (ret ()))))) w"
    by (simp add: TriggerEvent_def get_sock_def bnd_apply defined_def c Let_def PushString_def
        PushUserData_def)
  then show ?thesis
    using call vals by (auto simp: with_vm_def u [symmetric] run_simps get read mem
        split: outcome.split)
qed

lemma keeps_TriggerEvent [triple_intros]:
  assumes run: "runner_ok run" and p: "p \<in> K \<or> p \<in> M"
  shows "keeps t (sock_inv K M n v) (TriggerEvent run p ev a)"
proof (rule keepsI)
  fix w :: "'a sock_world"
  assume w: "sock_inv K M n v w"
  then obtain c where c: "socks w p = Some c" using p inv_alive by blast
  define u where "u = load_vm (m_pLuaVM c) w"
  have v: "cur_vm w = v" using w by (simp add: sock_inv_def)
  with w have iu: "sock_inv K M n (m_pLuaVM c) u" by (simp add: u_def)
  then have "lua_ok u" by (simp add: sock_inv_def all_vms_ok)
  then obtain r q where rq: "table_get u (globals u) (TString ''root'') = TLightUserData r"
    "table_get u (globals u) (TString ''triggerEvent'') = TFunction q" by (auto simp: lua_ok_def)
  let ?s = "u\<lparr>stack := event_args ev r (m_pUserdata c) a, curr_func := Some q\<rparr>"
  have "keeps True (sock_inv K M n (m_pLuaVM c)) (run q)" using run by (simp add: runner_ok_def)
  from keepsD [OF this, of ?s] iu
  have "case run q ?s of Ret a t \<Rightarrow> sock_inv K M n (m_pLuaVM c) t | Throw e t \<Rightarrow> sock_inv K M n (m_pLuaVM c) t
     | Undef \<Rightarrow> False" by (simp split: outcome.splits)
  then show "case TriggerEvent run p ev a w of Ret a s \<Rightarrow> sock_inv K M n v s
      | Throw e s \<Rightarrow> t \<and> sock_inv K M n v s | Undef \<Rightarrow> False"
    unfolding TriggerEvent_exact [OF c u_def rq] using v
    by (cases "run q ?s") (auto simp: call_result_def sock_inv_def heap_inv_def count_inv_def open_socks_def
        all_vms_ok)
qed

section \<open>Operations of a socket\<close>

lemma keeps_CloseSocketWithEvent [triple_intros]:
  assumes run: "runner_ok run" and p: "p \<in> K \<or> p \<in> M"
  shows "keeps t (sock_inv K M n v) (CloseSocketWithEvent oc run p b)"
proof (rule keepsI)
  fix w :: "'a sock_world"
  assume w: "sock_inv K M n v w"
  then obtain c where c: "socks w p = Some c" using p inv_alive by blast
  show "case CloseSocketWithEvent oc run p b w of Ret a s \<Rightarrow> sock_inv K M n v s
      | Throw e s \<Rightarrow> t \<and> sock_inv K M n v s | Undef \<Rightarrow> False"
  proof (cases "m_pSocket c = ERR_INVALID_SOCKET")
    case True
    with c w show ?thesis by (simp add: CloseSocketWithEvent_def get_sock_def run_simps)
  next
    case False
    obtain s where s: "CloseSocket oc p w = Ret () s" "sock_inv K M n v s"
      using CloseSocket_keeps [OF w c False] by blast
    from keepsD [OF keeps_TriggerEvent [OF run p] s(2), of t] False c s show ?thesis
      by (simp add: CloseSocketWithEvent_def get_sock_def run_simps)
  qed
qed

lemma keeps_Send [triple_intros]: "p \<in> K \<or> p \<in> M \<Longrightarrow> keeps t (sock_inv K M n v) (Send oc p d)"
  unfolding Send_def by (intro keeps_bnd triple_intros)

lemma keeps_HandleConnection [triple_intros]:
  "runner_ok run \<Longrightarrow> p \<in> K \<or> p \<in> M \<Longrightarrow> keeps t (sock_inv K M n v) (HandleConnection run p e)"
  unfolding HandleConnection_def by (intro keeps_bnd triple_intros keeps_modify) simp_all

lemma keeps_recv:
  assumes "recv_ok oc" and "\<And>i d. i \<le> int k \<Longrightarrow> keeps t (sock_inv K M n v) (f (i, d))"
  shows "keeps t (sock_inv K M n v) (bnd (syscall (os_recv oc fd k)) f)"
proof (rule keepsI)
  fix w :: "'a sock_world"
  assume w: "sock_inv K M n v w"
  obtain i d x where r: "os_recv oc fd k (os w) = ((i, d), x)" by (metis surj_pair)
  with assms(1) have "i \<le> int k" unfolding recv_ok_def by (metis fst_conv)
  from keepsD [OF assms(2) [OF this], of "w\<lparr>os := x\<rparr>" d] w
  show "case bnd (syscall (os_recv oc fd k)) f w of Ret a s \<Rightarrow> sock_inv K M n v s
      | Throw e s \<Rightarrow> t \<and> sock_inv K M n v s | Undef \<Rightarrow> False"
    by (simp add: run_simps syscall_def r)
qed

lemma keeps_receive [triple_intros]:
  "runner_ok run \<Longrightarrow> recv_ok oc \<Longrightarrow> p \<in> K \<or> p \<in> M \<Longrightarrow> keeps t (sock_inv K M n v) (receive oc run p)"
  unfolding receive_def GetLastSocketError_def split_beta
  by (intro keeps_bnd [of _ _ "get_sock p"] keeps_recv keeps_bnd [of _ _ "gets g" for g]
      keeps_bnd [of _ _ "if b then m else m'" for b m m'] keeps_bnd [of _ _ "HandleConnection r q e" for r q e]
      triple_intros) simp_all

lemma keeps_DoPulse [triple_intros]:
  "runner_ok run \<Longrightarrow> recv_ok oc \<Longrightarrow> p \<in> K \<or> p \<in> M \<Longrightarrow> keeps t (sock_inv K M n v) (CSocket_DoPulse oc run p)"
  unfolding CSocket_DoPulse_def by (intro keeps_bnd triple_intros)

section \<open>Operations of the manager\<close>

lemma remove_into_limbo:
  assumes "sock_inv K M n v w" and "p \<in> M"
  shows "sock_inv (insert p K) (M - {p}) n v
    (w\<lparr>vecSockets := remove1 p (vecSockets w), processQueue := remove1 p (processQueue w)\<rparr>)"
  using assms by (auto simp: sock_inv_def heap_inv_def count_inv_def open_socks_def all_vms_ok
      length_remove1 domIff set_eq_iff)

lemma limbo_into_delete:
  assumes "sock_inv (insert p K) (M - {p}) n v w"
  shows "sock_inv K M n v (w\<lparr>deleteList := remove1 p (deleteList w) @ [p]\<rparr>)"
  using assms by (auto simp: sock_inv_def heap_inv_def count_inv_def open_socks_def all_vms_ok)

lemma keeps_SocketRemove [triple_intros]:
  assumes run: "runner_ok run" and p: "p \<in> M"
  shows "keeps t (sock_inv K M n v) (SocketRemove oc run p b)"
proof (rule keepsI)
  fix w :: "'a sock_world"
  assume w: "sock_inv K M n v w"
  let ?w = "w\<lparr>vecSockets := remove1 p (vecSockets w), processQueue := remove1 p (processQueue w)\<rparr>"
  have k: "keeps False (sock_inv (insert p K) (M - {p}) n v) (CloseSocketWithEvent oc run p b)"
    using run by (intro triple_intros) simp_all
  from keepsD [OF k remove_into_limbo [OF w p]]
  obtain s where s: "CloseSocketWithEvent oc run p b ?w = Ret () s" "sock_inv (insert p K) (M - {p}) n v s"
    by (auto split: outcome.splits)
  show "case SocketRemove oc run p b w of Ret a s \<Rightarrow> sock_inv K M n v s
      | Throw e s \<Rightarrow> t \<and> sock_inv K M n v s | Undef \<Rightarrow> False"
    using s limbo_into_delete [OF s(2)] by (simp add: SocketRemove_def run_simps)
qed

lemma find_sock_spec:
  assumes "\<forall>p \<in> set ps. socks w p \<noteq> None"
  shows "find_sock P ps w = Ret (List.find (\<lambda>p. P (the (socks w p))) ps) w"
  using assms by (induction ps) (auto simp: run_simps get_sock_def)

lemma vec_alive: "sock_inv K M n v w \<Longrightarrow> \<forall>p \<in> set (vecSockets w). socks w p \<noteq> None"
  by (auto simp: sock_inv_def heap_inv_def domIff set_eq_iff)

lemma GetSocket_spec:
  assumes "sock_inv K M n v w"
  shows "GetSocket h w = Ret (if h = 0 then None
    else List.find (\<lambda>p. m_pUserdata (the (socks w p)) = h) (vecSockets w)) w"
  using assms by (simp add: GetSocket_def run_simps find_sock_spec vec_alive)

lemma inv_grow_M: "sock_inv K M n v w \<Longrightarrow> p \<in> set (vecSockets w) \<Longrightarrow> sock_inv K (insert p M) n v w"
  by (simp add: sock_inv_def heap_inv_def)

lemma inv_shrink_M: "sock_inv K M n v w \<Longrightarrow> N \<subseteq> M \<Longrightarrow> sock_inv K N n v w"
  by (auto simp: sock_inv_def heap_inv_def)

text \<open>A socket found by its handle is in the vector while the rest of the operation runs.\<close>

lemma keeps_GetSocket:
  assumes none: "keeps t (sock_inv K M n v) (f None)"
    and some: "\<And>p. keeps t (sock_inv K (insert p M) n v) (f (Some p))"
  shows "keeps t (sock_inv K M n v) (bnd (GetSocket h) f)"
proof (rule keepsI)
  fix w :: "'a sock_world"
  assume w: "sock_inv K M n v w"
  let ?r = "if h = 0 then None else List.find (\<lambda>p. m_pUserdata (the (socks w p)) = h) (vecSockets w)"
  have "case f ?r w of Ret a s \<Rightarrow> sock_inv K M n v s | Throw e s \<Rightarrow> t \<and> sock_inv K M n v s | Undef \<Rightarrow> False"
  proof (cases ?r)
    case None
    with keepsD [OF none w] show ?thesis by simp
  next
    case (Some p)
    then have "p \<in> set (vecSockets w)" by (auto split: if_splits dest: find_Some_in)
    from keepsD [OF some inv_grow_M [OF w this]] Some show ?thesis
      by (auto split: outcome.splits dest: inv_shrink_M [where N = M])
  qed
  then show "case bnd (GetSocket h) f w of Ret a s \<Rightarrow> sock_inv K M n v s
      | Throw e s \<Rightarrow> t \<and> sock_inv K M n v s | Undef \<Rightarrow> False"
    using w by (simp add: run_simps GetSocket_spec)
qed

section \<open>Creation and deletion\<close>

definition same_lists :: "'o sock_world \<Rightarrow> 'o sock_world \<Rightarrow> bool" where
  "same_lists w t \<longleftrightarrow> vecSockets t = vecSockets w \<and> processQueue t = processQueue w
     \<and> deleteList t = deleteList w \<and> cur_vm t = cur_vm w \<and> vms t = vms w
     \<and> tables t = tables w \<and> globals t = globals w"

lemma same_lists_lua: "same_lists w t \<Longrightarrow> (\<forall>u. lua_ok (saved_vms t u)) = (\<forall>u. lua_ok (saved_vms w u))"
  unfolding all_vms_ok by (simp add: same_lists_def lua_ok_def table_get_def)

lemma ProcessTargetLocation_spec:
  assumes "socks w p = Some c"
  shows "\<exists>ok a x. ProcessTargetLocation oc p h port w =
    Ret ok (w\<lparr>os := x, socks := (socks w)(p \<mapsto> c\<lparr>m_sSockAddr := a\<rparr>)\<rparr>)"
proof (cases "os_inet_addr oc h = INADDR_NONE")
  case False
  then show ?thesis using assms
    by (intro exI [of _ True] exI [of _ "(os_inet_addr oc h, port)"] exI [of _ "os w"])
      (simp add: ProcessTargetLocation_def set_sock_def get_sock_def run_simps)
next
  case True
  obtain r x where r: "os_gethostbyname oc h (os w) = (r, x)" by fastforce
  show ?thesis using assms True r
    by (intro exI [of _ "r \<noteq> None"] exI [of _ "(case r of None \<Rightarrow> 0 | Some a \<Rightarrow> a, port)"] exI [of _ x])
      (cases r; simp add: ProcessTargetLocation_def set_sock_def get_sock_def syscall_def run_simps)
qed

text \<open>What the constructor may change: one new object, and a count that covers it if it is open.\<close>

definition created :: "'o sock_world \<Rightarrow> CSocket \<Rightarrow> 'o sock_world \<Rightarrow> bool" where
  "created w c t \<longleftrightarrow> same_lists w t \<and> socks t = (socks w)(next_sock w \<mapsto> c) \<and> next_sock t = next_sock w + 1
     \<and> ms_iTotalOpenSocketCount w \<le> ms_iTotalOpenSocketCount t
     \<and> ms_iTotalOpenSocketCount t \<le> ms_iTotalOpenSocketCount w + 1
     \<and> (m_pSocket c \<noteq> ERR_INVALID_SOCKET \<longrightarrow> ms_iTotalOpenSocketCount t = ms_iTotalOpenSocketCount w + 1)"

lemma CSocket_new_spec:
  "\<exists>c t. CSocket_new oc h port w = Ret (next_sock w) t \<and> created w c t \<and> m_pLuaVM c = cur_vm w
     \<and> (\<exists>st. stack t = stack w @ st)"
proof -
  let ?c = "\<lparr>m_strHost = h, m_usPort = port, m_pUserdata = 0, m_bConnected = False, m_pLuaVM = cur_vm w,
      m_sSockAddr = (0, 0), m_pSocket = ERR_INVALID_SOCKET\<rparr>"
  let ?w = "w\<lparr>socks := (socks w)(next_sock w \<mapsto> ?c), next_sock := Suc (next_sock w)\<rparr>"
  obtain ok a x where p: "ProcessTargetLocation oc (next_sock w) h port ?w =
      Ret ok (?w\<lparr>os := x, socks := (socks ?w)(next_sock w \<mapsto> ?c\<lparr>m_sSockAddr := a\<rparr>)\<rparr>)"
    using ProcessTargetLocation_spec [of ?w "next_sock w" ?c oc h port] by auto
  obtain fd x1 where fd: "os_socket oc x = (fd, x1)" by fastforce
  obtain r x2 where con: "os_connect oc fd a (os_nonblocking oc fd x1) = (r, x2)" by fastforce
  obtain z x3 where cls: "os_close oc fd (os_shutdown oc fd x2) = (z, x3)" by fastforce
  note defs = CSocket_new_def alloc_sock_def run_simps p syscall_def set_sock_def get_sock_def fd con cls
    SetNonBlocking_def GetLastSocketError_def CloseSocket_def lua_newuserdata_def Let_def
    created_def same_lists_def
  consider "\<not> ok" | "ok" "fd = -1" | "ok" "fd \<noteq> -1" "r \<noteq> 0" "os_errno oc x2 \<noteq> 115"
    | "ok" "fd \<noteq> -1" "r = 0 \<or> os_errno oc x2 = 115" by blast
  then show ?thesis by cases (auto simp: defs)
qed

lemma inv_created:
  assumes w: "sock_inv K M n v w" and cr: "created w c t" and lt: "ms_iTotalOpenSocketCount w < 255"
  shows "sock_inv (insert (next_sock w) K) M n v t"
proof -
  have fresh: "next_sock w \<notin> dom (socks w)" using w by (auto simp: sock_inv_def heap_inv_def)
  then have o: "open_socks t = (if m_pSocket c = ERR_INVALID_SOCKET then open_socks w
      else insert (next_sock w) (open_socks w))" and nin: "next_sock w \<notin> open_socks w"
    using cr by (auto simp: open_socks_def created_def split: if_splits)
  have "count_inv t" using w lt cr finite_open [OF w] nin o
    by (auto simp: count_inv_def sock_inv_def created_def split: if_splits)
  moreover have "heap_inv (insert (next_sock w) K) M t"
    using w cr fresh by (auto simp: heap_inv_def sock_inv_def created_def same_lists_def less_Suc_eq)
  moreover have "length (processQueue t) \<le> n" "cur_vm t = v" "\<forall>u. lua_ok (saved_vms t u)"
    using w cr same_lists_lua [of w t] by (simp_all add: sock_inv_def created_def same_lists_def)
  ultimately show ?thesis by (simp add: sock_inv_def)
qed

lemma CSocket_delete_spec:
  assumes w: "sock_inv (insert p K) M n v w" and p: "p \<notin> K" "p \<notin> set (vecSockets w)" "p \<notin> set (deleteList w)"
  shows "\<exists>t. CSocket_delete oc p w = Ret () t \<and> sock_inv K M n v t \<and> same_lists w t
    \<and> stack t = stack w"
proof -
  obtain c where c: "socks w p = Some c" using w inv_alive by blast
  obtain s where s: "(if m_pSocket c \<noteq> ERR_INVALID_SOCKET then CloseSocket oc p else ret ()) w = Ret () s"
      "sock_inv (insert p K) M n v s" "same_lists w s" "stack s = stack w"
      "\<exists>d. socks s p = Some d \<and> m_pSocket d = ERR_INVALID_SOCKET"
  proof (cases "m_pSocket c = ERR_INVALID_SOCKET")
    case True
    with that [of w] w c show ?thesis by (simp add: same_lists_def)
  next
    case False
    obtain k x where cl: "CloseSocket oc p w = Ret () (w\<lparr>os := x, ms_iTotalOpenSocketCount := k,
        socks := (socks w)(p \<mapsto> c\<lparr>m_pSocket := ERR_INVALID_SOCKET\<rparr>)\<rparr>)"
      using CloseSocket_spec [OF c False] by blast
    then have "sock_inv (insert p K) M n v (w\<lparr>os := x, ms_iTotalOpenSocketCount := k,
        socks := (socks w)(p \<mapsto> c\<lparr>m_pSocket := ERR_INVALID_SOCKET\<rparr>)\<rparr>)"
      using CloseSocket_keeps [OF w c False, of oc] by simp
    with that [OF _ this] cl False show ?thesis by (simp add: same_lists_def)
  qed
  let ?t = "s\<lparr>socks := (socks s)(p := None)\<rparr>"
  have o: "open_socks ?t = open_socks s" using s(5) by (auto simp: open_socks_def)
  have "sock_inv K M n v ?t"
    using s(2,3) p o by (auto simp: sock_inv_def heap_inv_def count_inv_def all_vms_ok same_lists_def)
  moreover have "CSocket_delete oc p w = Ret () ?t"
    using s(1) c by (simp add: CSocket_delete_def get_sock_def run_simps split: if_splits)
  ultimately show ?thesis using s(3,4) by (simp add: same_lists_def)
qed

section \<open>The Lua functions and the scripts\<close>

lemma keeps_api [triple_intros]:
  "0 < i \<Longrightarrow> keeps t (sock_inv K M n v) (lua_type i)"
  "0 < i \<Longrightarrow> keeps t (sock_inv K M n v) (lua_touserdata i)"
  "keeps t (sock_inv K M n v) (lua_pushboolean b)"
  "keeps t (sock_inv K M n v) (lua_pushlightuserdata p)"
  by (auto intro!: keepsI simp: api_simps)

lemma keeps_sockClose [triple_intros]:
  assumes "runner_ok run"
  shows "keeps t (sock_inv K M n v) (sockClose oc run)"
  unfolding sockClose_def using assms
  by (intro keeps_bnd [of _ _ "lua_type i" for i] keeps_bnd [of _ _ "lua_touserdata i" for i] keeps_GetSocket
      triple_intros) (auto intro!: triple_intros)

lemma keeps_sockWrite [triple_intros]: "keeps t (sock_inv K M n v) (sockWrite oc)"
proof (rule keepsI)
  fix w :: "'a sock_world"
  assume w: "sock_inv K M n v w"
  show "case sockWrite oc w of Ret a s \<Rightarrow> sock_inv K M n v s
      | Throw e s \<Rightarrow> t \<and> sock_inv K M n v s | Undef \<Rightarrow> False"
  proof (cases "argtype w 1 = LUA_TLIGHTUSERDATA \<and> argtype w 2 = LUA_TSTRING")
    case False
    with w show ?thesis by (auto simp: sockWrite_def run_simps api_simps)
  next
    case True
    then obtain h str where a: "arg w 1 = TLightUserData h" "arg w 2 = TString str"
      by (auto dest!: argtype_nonneg simp: ttype_eq_simps)
    have "case bnd (GetSocket h) (\<lambda>r. case r of
         None \<Rightarrow> andThen (lua_pushboolean False) (ret 1)
       | Some p \<Rightarrow> bnd (Send oc p (c_str str)) (\<lambda>b. andThen (lua_pushboolean b) (ret 1))) w of
        Ret a s \<Rightarrow> sock_inv K M n v s | Throw e s \<Rightarrow> t \<and> sock_inv K M n v s | Undef \<Rightarrow> False"
      by (rule keepsD [OF keeps_GetSocket w]) (auto intro!: triple_intros keeps_bnd [of _ _ "Send a b c" for a b c])
    with True a w show ?thesis
      by (auto simp: sockWrite_def run_simps api_simps GetSocket_spec split: option.splits)
  qed
qed

text \<open>A port number outside the range of \<open>unsigned short\<close> is converted with undefined result.\<close>

definition open_args_ok :: "TValue list \<Rightarrow> bool" where
  "open_args_ok args \<longleftrightarrow> (case args of
     TString h # TNumber d # rest \<Rightarrow> to_ushort d \<noteq> None
   | _ \<Rightarrow> True)"

lemma inv_add:
  assumes "sock_inv (insert p K) M n v w" and "p \<notin> K" and "p \<notin> set (deleteList w)"
  shows "sock_inv K M n v (w\<lparr>vecSockets := vecSockets w @ [p]\<rparr>)"
  using assms by (auto simp: sock_inv_def heap_inv_def count_inv_def open_socks_def all_vms_ok)

lemma sockOpen_keeps:
  assumes w: "sock_inv K M n v w" and args: "open_args_ok (stack w)"
  shows "\<exists>s. sockOpen oc w = Ret 1 s \<and> sock_inv K M n v s"
proof (cases "argtype w 1 = LUA_TSTRING \<and> argtype w 2 = LUA_TNUMBER")
  case False
  with w show ?thesis by (auto simp: sockOpen_def run_simps api_simps)
next
  case True
  then obtain h d where a: "arg w 1 = TString h" "arg w 2 = TNumber d" and len: "2 \<le> length (stack w)"
    by (auto dest!: argtype_nonneg simp: ttype_eq_simps)
  then obtain rest where "stack w = TString h # TNumber d # rest"
    by (cases "stack w"; cases "tl (stack w)") (auto simp: arg_def)
  with args obtain port where port: "to_ushort d = Some port" by (auto simp: open_args_ok_def)
  show ?thesis
  proof (cases "ms_iTotalOpenSocketCount w \<ge> 255")
    case ge: True
    with w True show ?thesis by (auto simp: sockOpen_def run_simps api_simps)
  next
    case lt: False
    obtain c s where s: "CSocket_new oc (c_str h) port w = Ret (next_sock w) s" "created w c s"
      using CSocket_new_spec by blast
    have inv: "sock_inv (insert (next_sock w) K) M n v s" using inv_created [OF w s(2)] lt by simp
    have fresh: "next_sock w \<notin> K" "next_sock w \<notin> set (vecSockets s)" "next_sock w \<notin> set (deleteList s)"
      using w s(2) by (auto simp: sock_inv_def heap_inv_def created_def same_lists_def)
    have c: "socks s (next_sock w) = Some c" using s(2) by (simp add: created_def)
    have go: "sockOpen oc w = (if m_pUserdata c = 0
        then andThen (CSocket_delete oc (next_sock w)) (andThen (lua_pushboolean False) (ret 1)) s
        else andThen (SocketAdd (next_sock w)) (andThen (lua_pushlightuserdata (m_pUserdata c)) (ret 1)) s)"
      using True lt a port s(1) c
      by (simp add: sockOpen_def run_simps api_simps luaV_tonumber_def get_sock_def)
    obtain t where t: "CSocket_delete oc (next_sock w) s = Ret () t" "sock_inv K M n v t"
      using CSocket_delete_spec [OF inv fresh] by blast
    show ?thesis unfolding go using t inv_add [OF inv fresh(1,3)]
      by (auto simp: run_simps api_simps SocketAdd_def)
  qed
qed

primrec script_ok :: "script \<Rightarrow> bool" where
  "script_ok (Finish rs) = True"
| "script_ok (Raise e) = True"
| "script_ok (Call v f args k) = ((f = ''sockOpen'' \<longrightarrow> open_args_ok args) \<and> (\<forall>rs. script_ok (k rs)))"

lemma keeps_call_function:
  assumes "runner_ok run" and "f = ''sockOpen'' \<longrightarrow> open_args_ok args"
  shows "keeps True (sock_inv K M n v) (call_function oc run u f args)"
  unfolding call_function_def
proof (rule keeps_with_vm, rule keepsI)
  fix w :: "'a sock_world"
  assume w: "sock_inv K M n u w"
  let ?body = "if f = ''sockOpen'' then sockOpen oc else if f = ''sockWrite'' then sockWrite oc
    else if f = ''sockClose'' then sockClose oc run else lua_raise ''attempt to call a nil value''"
  have b: "case ?body (w\<lparr>stack := args\<rparr>) of Ret a s \<Rightarrow> sock_inv K M n u s
      | Throw e s \<Rightarrow> True \<and> sock_inv K M n u s | Undef \<Rightarrow> False"
  proof (cases "f = ''sockOpen''")
    case True
    then show ?thesis using sockOpen_keeps [of K M n u "w\<lparr>stack := args\<rparr>" oc] w assms by auto
  next
    case False
    then have "keeps True (sock_inv K M n u) ?body"
      using assms by (auto intro!: triple_intros)
    from keepsD [OF this, of "w\<lparr>stack := args\<rparr>"] w show ?thesis by simp
  qed
  then show "case let body = ?body in case body (w\<lparr>stack := args\<rparr>) of
        Ret n t \<Rightarrow> Ret (drop (length (stack t) - nat n) (stack t)) (t\<lparr>stack := stack w\<rparr>)
      | Throw e t \<Rightarrow> Throw e (t\<lparr>stack := stack w\<rparr>) | Undef \<Rightarrow> Undef of
      Ret a s \<Rightarrow> sock_inv K M n u s | Throw e s \<Rightarrow> True \<and> sock_inv K M n u s | Undef \<Rightarrow> False"
    unfolding Let_def by (cases "?body (w\<lparr>stack := args\<rparr>)") simp_all
qed

lemma keeps_run_script:
  "runner_ok run \<Longrightarrow> script_ok sc \<Longrightarrow> keeps True (sock_inv K M n v) (run_script oc run sc)"
  by (induction sc) (auto intro!: keeps_bnd keeps_call_function keeps_ret)

definition server_ok :: "server \<Rightarrow> bool" where
  "server_ok sv \<longleftrightarrow> (\<forall>k p args. script_ok (sv k p args))"

theorem runner_ok_run_lua: "server_ok sv \<Longrightarrow> runner_ok (run_lua d oc sv)"
proof (induction d)
  case 0
  show ?case by (auto simp: runner_ok_def intro!: keepsI)
next
  case (Suc d)
  then show ?case
    by (auto simp: runner_ok_def server_ok_def intro!: keeps_bnd [of _ _ "gets g" for g] keeps_ret
        keeps_andThen keeps_modify keeps_run_script)
qed

section \<open>The loops of the manager\<close>

declare pulse_loop.simps [simp del] delete_loop.simps [simp del] stop_loop.simps [simp del]

lemma pulse_loop_spec:
  assumes "runner_ok run" and "recv_ok oc"
  shows "sock_inv {} {} n v w \<Longrightarrow> \<exists>t. pulse_loop n oc run w = Ret () t \<and> sock_inv {} {} 0 v t"
proof (induction n arbitrary: w)
  case 0
  then show ?case by (simp add: pulse_loop.simps run_simps sock_inv_def)
next
  case (Suc n)
  show ?case
  proof (cases "processQueue w")
    case Nil
    then show ?thesis using Suc.prems by (simp add: pulse_loop.simps [of "Suc n"] run_simps sock_inv_def)
  next
    case (Cons p ps)
    let ?w = "w\<lparr>processQueue := ps\<rparr>"
    have i: "sock_inv {} {p} n v ?w"
      using Suc.prems Cons by (auto simp: sock_inv_def heap_inv_def count_inv_def open_socks_def all_vms_ok)
    have k: "keeps False (sock_inv {} {p} n v) (bnd (CSocket_DoPulse oc run p) (\<lambda>r.
        whenever (\<not> r) (SocketRemove oc run p True)))"
      using assms by (intro keeps_bnd triple_intros) simp_all
    obtain s where s: "bnd (CSocket_DoPulse oc run p) (\<lambda>r. whenever (\<not> r) (SocketRemove oc run p True)) ?w
        = Ret () s" "sock_inv {} {p} n v s"
      using keepsD [OF k i] by (auto split: outcome.splits)
    obtain t where "pulse_loop n oc run s = Ret () t" "sock_inv {} {} 0 v t"
      using Suc.IH [of s] inv_shrink_M [OF s(2)] by blast
    moreover have "pulse_loop (Suc n) oc run w = pulse_loop n oc run s"
      using s(1) Cons by (auto simp: pulse_loop.simps [of "Suc n"] run_simps split: outcome.splits if_splits)
    ultimately show ?thesis by simp
  qed
qed

lemma delete_loop_spec:
  "sock_inv {} {} k v w \<Longrightarrow> length (deleteList w) \<le> n \<Longrightarrow> \<exists>t. delete_loop n oc w = Ret () t
    \<and> sock_inv {} {} k v t \<and> deleteList t = [] \<and> vecSockets t = vecSockets w \<and> stack t = stack w"
proof (induction n arbitrary: w)
  case 0
  then show ?case by (simp add: delete_loop.simps run_simps)
next
  case (Suc n)
  show ?case
  proof (cases "deleteList w")
    case Nil
    then show ?thesis using Suc.prems by (simp add: delete_loop.simps [of "Suc n"] run_simps)
  next
    case (Cons p ps)
    let ?w = "w\<lparr>deleteList := ps\<rparr>"
    have i: "sock_inv {p} {} k v ?w" and p: "p \<notin> set (vecSockets ?w)" "p \<notin> set (deleteList ?w)" "p \<noteq> 0"
      using Suc.prems Cons by (auto simp: sock_inv_def heap_inv_def count_inv_def open_socks_def all_vms_ok)
    obtain s where s: "CSocket_delete oc p ?w = Ret () s" "sock_inv {} {} k v s" "same_lists ?w s"
        "stack s = stack w"
      using CSocket_delete_spec [of p "{}" "{}" k v ?w oc] i p by auto
    obtain t where "delete_loop n oc s = Ret () t" "sock_inv {} {} k v t" "deleteList t = []"
        "vecSockets t = vecSockets s" "stack t = stack s"
      using Suc.IH [OF s(2)] s(3) Suc.prems Cons by (auto simp: same_lists_def)
    then show ?thesis using s p Cons
      by (auto simp: delete_loop.simps [of "Suc n"] run_simps same_lists_def)
  qed
qed

lemma Manager_DoPulse_spec:
  assumes "runner_ok run" and "recv_ok oc" and w: "sock_inv {} {} n v w"
  shows "\<exists>t. Manager_DoPulse oc run w = Ret () t \<and> sock_inv {} {} 0 v t \<and> deleteList t = []"
proof -
  let ?w = "w\<lparr>processQueue := vecSockets w\<rparr>"
  have "sock_inv {} {} (length (vecSockets w)) v ?w"
    using w by (auto simp: sock_inv_def heap_inv_def count_inv_def open_socks_def all_vms_ok)
  then obtain s where s: "pulse_loop (length (vecSockets w)) oc run ?w = Ret () s" "sock_inv {} {} 0 v s"
    using pulse_loop_spec [OF assms(1,2)] by blast
  moreover obtain t where "delete_loop (length (deleteList s)) oc s = Ret () t" "sock_inv {} {} 0 v t"
      "deleteList t = []"
    using delete_loop_spec [OF s(2)] by blast
  ultimately show ?thesis by (simp add: Manager_DoPulse_def run_simps)
qed

lemma SocketRemove_quiet:
  assumes w: "sock_inv {} {} n v w" and p: "p \<in> set (vecSockets w)"
  shows "\<exists>t c. SocketRemove oc run p False w = Ret () t \<and> sock_inv {} {} n v t
    \<and> vecSockets t = remove1 p (vecSockets w) \<and> deleteList t = deleteList w @ [p]
    \<and> socks t = (socks w)(p \<mapsto> c) \<and> m_pLuaVM c = m_pLuaVM (the (socks w p))
    \<and> m_pSocket c = ERR_INVALID_SOCKET"
proof -
  let ?run = "\<lambda>_. throw TNil"
  have same: "SocketRemove oc run p False = SocketRemove oc ?run p False"
    by (simp add: SocketRemove_def CloseSocketWithEvent_def whenever_def cong: if_cong)
  have "runner_ok ?run" by (auto simp: runner_ok_def intro!: keepsI)
  then have "keeps False (sock_inv {} {p} n v) (SocketRemove oc ?run p False)"
    by (intro triple_intros) simp_all
  from keepsD [OF this inv_grow_M [OF w p]] obtain t where
    t: "SocketRemove oc run p False w = Ret () t" "sock_inv {} {p} n v t"
    unfolding same by (auto split: outcome.splits)
  obtain c where c: "socks w p = Some c" using vec_alive [OF w] p by blast
  have pd: "p \<notin> set (deleteList w)" using w p by (auto simp: sock_inv_def heap_inv_def)
  let ?w = "w\<lparr>vecSockets := remove1 p (vecSockets w), processQueue := remove1 p (processQueue w)\<rparr>"
  have "\<exists>d. vecSockets t = remove1 p (vecSockets w) \<and> deleteList t = deleteList w @ [p]
    \<and> socks t = (socks w)(p \<mapsto> d) \<and> m_pLuaVM d = m_pLuaVM c \<and> m_pSocket d = ERR_INVALID_SOCKET"
  proof (cases "m_pSocket c = ERR_INVALID_SOCKET")
    case True
    then show ?thesis using t(1) c pd
      by (intro exI [of _ c])
        (auto simp: SocketRemove_def CloseSocketWithEvent_def get_sock_def run_simps remove1_idem fun_upd_idem)
  next
    case False
    from CloseSocket_spec [of ?w p c oc] c False t(1) pd show ?thesis
      by (intro exI [of _ "c\<lparr>m_pSocket := ERR_INVALID_SOCKET\<rparr>"])
        (auto simp: SocketRemove_def CloseSocketWithEvent_def get_sock_def run_simps remove1_idem)
  qed
  with t inv_shrink_M [OF t(2)] c show ?thesis by auto
qed

lemma find_split:
  "List.find P xs = Some x \<Longrightarrow> \<exists>ys zs. xs = ys @ x # zs \<and> P x \<and> (\<forall>y \<in> set ys. \<not> P y)"
proof (induction xs)
  case (Cons a xs)
  then show ?case
    by (cases "P a") (auto intro: exI [of _ "[]"], metis append_Cons set_ConsD)
qed simp

lemma stop_loop_spec:
  "sock_inv {} {} k v w \<Longrightarrow> length (vecSockets w) \<le> n \<Longrightarrow>
   \<exists>t. stop_loop n oc run L w = Ret () t \<and> sock_inv {} {} k v t
     \<and> vecSockets t = filter (\<lambda>p. m_pLuaVM (the (socks w p)) \<noteq> L) (vecSockets w)
     \<and> deleteList t = deleteList w @ filter (\<lambda>p. m_pLuaVM (the (socks w p)) = L) (vecSockets w)
     \<and> (\<forall>p. p \<notin> set (vecSockets w) \<or> m_pLuaVM (the (socks w p)) \<noteq> L \<longrightarrow> socks t p = socks w p)
     \<and> (\<forall>p \<in> set (vecSockets w). m_pLuaVM (the (socks w p)) = L \<longrightarrow> m_pSocket (the (socks t p)) = ERR_INVALID_SOCKET)"
proof (induction n arbitrary: w)
  case 0
  then show ?case
    by (simp add: stop_loop.simps GetSocketByLuaVM_def find_sock_spec run_simps)
next
  case (Suc n)
  let ?P = "\<lambda>w p. m_pLuaVM (the (socks w p)) = L"
  have g: "GetSocketByLuaVM L w = Ret (List.find (?P w) (vecSockets w)) w"
    using vec_alive [OF Suc.prems(1)] by (simp add: GetSocketByLuaVM_def run_simps find_sock_spec)
  show ?case
  proof (cases "List.find (?P w) (vecSockets w)")
    case None
    then have nn: "\<forall>q \<in> set (vecSockets w). \<not> ?P w q" by (simp add: find_None_iff)
    have "stop_loop (Suc n) oc run L w = Ret () w"
      using None g by (simp add: stop_loop.simps [of "Suc n"] run_simps)
    with nn Suc.prems show ?thesis
      by (intro exI [of _ w]) (simp add: filter_id_conv filter_empty_conv)
  next
    case (Some p)
    then obtain ys zs where v: "vecSockets w = ys @ p # zs" "?P w p" "\<forall>y \<in> set ys. \<not> ?P w y"
      using find_split by fastforce
    have d: "p \<notin> set ys" "p \<notin> set zs" using Suc.prems(1) v(1) by (auto simp: sock_inv_def heap_inv_def)
    obtain s c where s: "SocketRemove oc run p False w = Ret () s" "sock_inv {} {} k v s"
        "vecSockets s = remove1 p (vecSockets w)" "deleteList s = deleteList w @ [p]"
        "socks s = (socks w)(p \<mapsto> c)" "m_pLuaVM c = m_pLuaVM (the (socks w p))"
        "m_pSocket c = ERR_INVALID_SOCKET"
      using SocketRemove_quiet [OF Suc.prems(1), of p oc run] v(1) by auto
    have sv: "vecSockets s = ys @ zs" using s(3) v d by (simp add: remove1_append)
    have P: "?P s q = ?P w q" for q using s(5,6) by simp
    obtain t where t: "stop_loop n oc run L s = Ret () t" "sock_inv {} {} k v t"
        "vecSockets t = filter (\<lambda>q. \<not> ?P w q) (ys @ zs)"
        "deleteList t = deleteList w @ p # filter (?P w) (ys @ zs)"
        "\<forall>q. q \<notin> set (ys @ zs) \<or> \<not> ?P w q \<longrightarrow> socks t q = socks s q"
        "\<forall>q \<in> set (ys @ zs). ?P w q \<longrightarrow> m_pSocket (the (socks t q)) = ERR_INVALID_SOCKET"
      using Suc.IH [OF s(2)] Suc.prems(2) sv v(1) s(4) unfolding P by auto
    have "stop_loop (Suc n) oc run L w = Ret () t"
      using g Some s(1) t(1) by (simp add: stop_loop.simps [of "Suc n"] run_simps)
    moreover have "filter (?P w) ys = []" using v(3) by (simp add: filter_empty_conv)
    moreover have "socks t p = Some c" using t(5) d s(5) by auto
    ultimately show ?thesis using t v d s(5,7) by auto
  qed
qed

text \<open>Deleting a list of distinct live objects frees each of them once.\<close>

lemma delete_list_spec:
  assumes "distinct ps" and "\<forall>p \<in> set ps. socks w p \<noteq> None \<and> p \<noteq> 0"
  shows "\<exists>t. forEach ps (\<lambda>p. whenever (p \<noteq> 0) (CSocket_delete oc p)) w = Ret () t
    \<and> socks t = (\<lambda>q. if q \<in> set ps then None else socks w q) \<and> same_lists w t"
  using assms
proof (induction ps arbitrary: w)
  case Nil
  then show ?case by (simp add: same_lists_def)
next
  case (Cons p ps)
  then obtain c where c: "socks w p = Some c" by auto
  obtain s where s: "CSocket_delete oc p w = Ret () s" "socks s = (socks w)(p := None)" "same_lists w s"
  proof (cases "m_pSocket c = ERR_INVALID_SOCKET")
    case True
    with that c show ?thesis by (auto simp: CSocket_delete_def get_sock_def run_simps same_lists_def)
  next
    case False
    obtain k x where "CloseSocket oc p w = Ret () (w\<lparr>os := x, ms_iTotalOpenSocketCount := k,
        socks := (socks w)(p \<mapsto> c\<lparr>m_pSocket := ERR_INVALID_SOCKET\<rparr>)\<rparr>)"
      using CloseSocket_spec [OF c False] by blast
    with that c False show ?thesis
      by (auto simp: CSocket_delete_def get_sock_def run_simps same_lists_def)
  qed
  have "\<exists>t. forEach ps (\<lambda>p. whenever (p \<noteq> 0) (CSocket_delete oc p)) s = Ret () t
    \<and> socks t = (\<lambda>q. if q \<in> set ps then None else socks s q) \<and> same_lists s t"
    using Cons.prems s(2) by (intro Cons.IH) auto
  then show ?case using s Cons.prems(2)
    by (auto simp: run_simps same_lists_def fun_eq_iff)
qed

lemma HandleStop_spec:
  assumes "sock_inv {} {} n v w"
  shows "\<exists>t. HandleStop oc w = Ret () t \<and> socks t = Map.empty \<and> vecSockets t = [] \<and> processQueue t = []
    \<and> deleteList t = []"
proof -
  note i = assms [unfolded sock_inv_def heap_inv_def]
  obtain s where s: "forEach (vecSockets w) (\<lambda>p. whenever (p \<noteq> 0) (CSocket_delete oc p)) w = Ret () s"
      "socks s = (\<lambda>q. if q \<in> set (vecSockets w) then None else socks w q)" "same_lists w s"
    using delete_list_spec [of "vecSockets w" w oc] i by (auto simp: domIff set_eq_iff)
  have "\<exists>t. forEach (deleteList w) (\<lambda>p. whenever (p \<noteq> 0) (CSocket_delete oc p)) s = Ret () t
    \<and> socks t = (\<lambda>q. if q \<in> set (deleteList w) then None else socks s q) \<and> same_lists s t"
    using i s(2) by (intro delete_list_spec) (auto simp: domIff set_eq_iff)
  then obtain t where t: "forEach (deleteList w) (\<lambda>p. whenever (p \<noteq> 0) (CSocket_delete oc p)) s = Ret () t"
      "socks t = (\<lambda>q. if q \<in> set (deleteList w) then None else socks s q)" by blast
  have "socks t = Map.empty" using i s(2) t(2) by (auto simp: fun_eq_iff domIff set_eq_iff)
  then show ?thesis using s t by (simp add: HandleStop_def run_simps same_lists_def)
qed

end
