(* ===== verification/SocketsSpec.thy ===== *)
theory SocketsSpec
  imports SocketsSafety
begin

text \<open>
  What the sockets module promises: the states it can reach from start-up through calls of its
  functions, pulses and stopped resources are safe; what each entry point leaves behind; what the
  Lua functions return and what an event carries.
\<close>

section \<open>Reachable states\<close>

inductive sock_step :: "'o os_calls \<Rightarrow> server \<Rightarrow> nat \<Rightarrow> 'o sock_world \<Rightarrow> 'o sock_world \<Rightarrow> bool"
  for oc sv d where
  call: "(f = ''sockOpen'' \<longrightarrow> open_args_ok args) \<Longrightarrow>
    call_function oc (run_lua d oc sv) u f args w = Ret rs t \<Longrightarrow> sock_step oc sv d w t"
| call_error: "(f = ''sockOpen'' \<longrightarrow> open_args_ok args) \<Longrightarrow>
    call_function oc (run_lua d oc sv) u f args w = Throw e t \<Longrightarrow> sock_step oc sv d w t"
| pulse: "Module_DoPulse oc (run_lua d oc sv) w = Ret b t \<Longrightarrow> sock_step oc sv d w t"
| stopped: "ResourceStopped oc (run_lua d oc sv) L w = Ret () t \<Longrightarrow> sock_step oc sv d w t"

inductive sock_reach :: "'o os_calls \<Rightarrow> server \<Rightarrow> nat \<Rightarrow> 'o sock_world \<Rightarrow> 'o sock_world \<Rightarrow> bool"
  for oc sv d w0 where
  start: "sock_reach oc sv d w0 w0"
| more: "sock_reach oc sv d w0 w \<Longrightarrow> sock_step oc sv d w t \<Longrightarrow> sock_reach oc sv d w0 t"

text \<open>The module after loading: no sockets, and every machine has the server's globals.\<close>

definition sock_start :: "'o sock_world \<Rightarrow> bool" where
  "sock_start w \<longleftrightarrow> socks w = Map.empty \<and> 0 < next_sock w \<and> vecSockets w = [] \<and> processQueue w = []
     \<and> deleteList w = [] \<and> ms_iTotalOpenSocketCount w = 0 \<and> lua_ok w \<and> (\<forall>u. lua_ok (vms w u))"

lemma start_inv: "sock_start w \<Longrightarrow> sock_inv {} {} 0 (cur_vm w) w"
  by (simp add: sock_start_def sock_inv_def heap_inv_def count_inv_def open_socks_def all_vms_ok)

lemma step_inv:
  assumes "sock_step oc sv d w t" and "server_ok sv" and "recv_ok oc" and "sock_inv {} {} 0 v w"
  shows "sock_inv {} {} 0 v t"
proof -
  note r = runner_ok_run_lua [OF assms(2), of d oc]
  show ?thesis using assms(1)
  proof (cases rule: sock_step.cases)
    case (call f args u rs)
    with keepsD [OF keeps_call_function [OF r call(1)] assms(4), of oc u] show ?thesis by simp
  next
    case (call_error f args u e)
    with keepsD [OF keeps_call_function [OF r call_error(1)] assms(4), of oc u] show ?thesis by simp
  next
    case (pulse b)
    with Manager_DoPulse_spec [OF r assms(3,4)] show ?thesis
      by (auto simp: Module_DoPulse_def run_simps)
  next
    case (stopped L)
    with stop_loop_spec [OF assms(4) order_refl, of oc "run_lua d oc sv" L] show ?thesis
      by (auto simp: ResourceStopped_def Manager_ResourceStopped_def run_simps)
  qed
qed

lemma reach_inv:
  "sock_reach oc sv d w0 w \<Longrightarrow> server_ok sv \<Longrightarrow> recv_ok oc \<Longrightarrow> sock_start w0 \<Longrightarrow>
   sock_inv {} {} 0 (cur_vm w0) w"
  by (induction rule: sock_reach.induct) (auto intro: start_inv step_inv)

section \<open>A concrete server\<close>

definition quiet_os :: "nat os_calls" where
  "quiet_os = \<lparr>os_inet_addr = (\<lambda>h. 16777343), os_gethostbyname = (\<lambda>h s. (None, s)),
     os_socket = (\<lambda>s. (int s + 3, s + 1)), os_nonblocking = (\<lambda>fd s. s), os_connect = (\<lambda>fd a s. (0, s)),
     os_errno = (\<lambda>s. 11), os_select = (\<lambda>fd s. (1, s)), os_recv = (\<lambda>fd k s. ((-1, []), s)),
     os_send = (\<lambda>fd str s. (int (length str), s)), os_shutdown = (\<lambda>fd s. s), os_close = (\<lambda>fd s. (0, s))\<rparr>"

definition mta_vm :: lua_State where
  "mta_vm = (new_state [] [])\<lparr>tables := [1 \<mapsto> new_table, 2 \<mapsto> \<lparr>entries =
     [(TString ''root'', TLightUserData 5), (TString ''triggerEvent'', TFunction 7)], metatable = 0\<rparr>]\<rparr>"

definition start_world :: "nat sock_world" where
  "start_world = lua_State.extend mta_vm (sock_world.fields 0 (\<lambda>_. mta_vm) Map.empty 1 [] [] [] 0 True 0 [] 0)"

definition silent_server :: server where
  "silent_server k p args = Finish []"

lemma mta_vm_ok: "lua_ok mta_vm"
  by (simp add: lua_ok_def table_get_def mta_vm_def new_state_def luaH_get_def slot_def luaO_rawequalObj_def)

lemma start_world_ok: "sock_start start_world"
  using mta_vm_ok
  by (simp add: sock_start_def start_world_def lua_State.extend_def sock_world.defs lua_ok_def table_get_def)

lemma quiet_os_ok: "recv_ok quiet_os"
  by (simp add: recv_ok_def quiet_os_def)

lemma silent_server_ok: "server_ok silent_server"
  by (simp add: server_ok_def silent_server_def)

section \<open>Properties\<close>



text \<open>C2: A pulse frees every removed socket: afterwards the delete list and the process queue are empty
  and the live sockets are exactly those still in the vector, so none leaks.\<close>

theorem pulse_frees_removed:
  assumes "sock_inv {} {} n v w" and "server_ok sv" and "recv_ok oc"
  shows "\<exists>t. Module_DoPulse oc (run_lua d oc sv) w = Ret True t \<and> deleteList t = [] \<and> processQueue t = []
    \<and> dom (socks t) = set (vecSockets t) \<and> sock_inv {} {} 0 v t"
proof -
  obtain t where "Manager_DoPulse oc (run_lua d oc sv) w = Ret () t" "sock_inv {} {} 0 v t" "deleteList t = []"
    using Manager_DoPulse_spec [OF runner_ok_run_lua [OF assms(2)] assms(3,1)] by blast
  then show ?thesis by (auto simp: Module_DoPulse_def run_simps sock_inv_def heap_inv_def)
qed

theorem pulse_frees_removed_witness:
  "\<exists>t. Module_DoPulse quiet_os (run_lua 3 quiet_os silent_server) start_world = Ret True t \<and> deleteList t = []
    \<and> dom (socks t) = set (vecSockets t)"
  using pulse_frees_removed [OF start_inv [OF start_world_ok] silent_server_ok quiet_os_ok, of 3] by blast

text \<open>C3: When a resource stops, its sockets and only its sockets leave the vector, in their order; they are
  closed without an event and wait to be deleted; the loop ends.\<close>

theorem resource_stop_closes:
  assumes "sock_inv {} {} n v w"
  shows "\<exists>t. ResourceStopped oc run L w = Ret () t \<and> sock_inv {} {} n v t
    \<and> vecSockets t = filter (\<lambda>p. m_pLuaVM (the (socks w p)) \<noteq> L) (vecSockets w)
    \<and> deleteList t = deleteList w @ filter (\<lambda>p. m_pLuaVM (the (socks w p)) = L) (vecSockets w)
    \<and> (\<forall>p \<in> set (vecSockets w). m_pLuaVM (the (socks w p)) = L \<longrightarrow> m_pSocket (the (socks t p)) = ERR_INVALID_SOCKET)"
  using stop_loop_spec [OF assms order_refl, of oc run L]
  by (auto simp: ResourceStopped_def Manager_ResourceStopped_def run_simps)

definition one_socket :: "nat sock_world" where
  "one_socket = start_world\<lparr>socks := [1 \<mapsto> \<lparr>m_strHost = ''h'', m_usPort = 80, m_pUserdata = 1000,
     m_bConnected = True, m_pLuaVM = 4, m_sSockAddr = (1, 80), m_pSocket = 3\<rparr>], next_sock := 2,
     vecSockets := [1], ms_iTotalOpenSocketCount := 1\<rparr>"

lemma one_socket_inv: "sock_inv {} {} 0 0 one_socket"
proof -
  have "open_socks one_socket = {1}"
    by (auto simp: open_socks_def one_socket_def split: if_splits)
  then show ?thesis
    using start_world_ok
    by (simp add: sock_inv_def heap_inv_def count_inv_def one_socket_def sock_start_def all_vms_ok)
      (simp add: start_world_def lua_State.extend_def sock_world.defs)
qed

theorem resource_stop_closes_witness:
  "\<exists>t. ResourceStopped quiet_os (\<lambda>_. ret []) 4 one_socket = Ret () t \<and> vecSockets t = [] \<and> deleteList t = [1]"
  using resource_stop_closes [OF one_socket_inv, of quiet_os "\<lambda>_. ret []" 4]
  by (auto simp: one_socket_def start_world_def lua_State.extend_def sock_world.defs)

text \<open>C4: Shutting the module down deletes every socket exactly once and leaves no object behind.\<close>

theorem shutdown_frees_all:
  assumes "sock_inv {} {} n v w"
  shows "\<exists>t. ShutdownModule oc w = Ret True t \<and> socks t = Map.empty \<and> vecSockets t = [] \<and> deleteList t = []"
  using HandleStop_spec [OF assms, of oc] by (auto simp: ShutdownModule_def run_simps)

theorem shutdown_frees_all_witness:
  "\<exists>t. ShutdownModule quiet_os one_socket = Ret True t \<and> socks t = Map.empty"
  using shutdown_frees_all [OF one_socket_inv, of quiet_os] by blast

section \<open>Events\<close>

definition event_vm :: "'o sock_world \<Rightarrow> ptr \<Rightarrow> 'o sock_world" where
  "event_vm w p = load_vm (m_pLuaVM (the (socks w p))) w"

text \<open>C6: An event calls \<open>triggerEvent\<close> in the machine of its socket with the event name, \<open>root\<close>, the handle of
  the socket and, if not empty, the data up to its first zero byte; an error in a handler is
  swallowed.\<close>

theorem event_delivered:
  assumes "socks w p = Some c" and "u = event_vm w p"
    and "table_get u (globals u) (TString ''root'') = TLightUserData r"
    and "table_get u (globals u) (TString ''triggerEvent'') = TFunction q"
  shows "TriggerEvent run p ev a w =
    (case run q (u\<lparr>stack := event_args ev r (m_pUserdata c) a, curr_func := Some q\<rparr>) of
       Ret _ t \<Rightarrow> Ret () (load_vm (cur_vm w) (t\<lparr>stack := stack u @ [TLightUserData r], curr_func := curr_func u\<rparr>))
     | Throw e t \<Rightarrow> Ret () (load_vm (cur_vm w) (t\<lparr>stack := stack u @ [TLightUserData r, e], curr_func := curr_func u\<rparr>))
     | Undef \<Rightarrow> Undef)"
  using TriggerEvent_exact [of w p c u r q run ev a] assms
  by (simp add: event_vm_def call_result_def split: outcome.split)

lemma one_socket_vm:
  "table_get (event_vm one_socket 1) (globals (event_vm one_socket 1)) (TString ''root'') = TLightUserData 5"
  "table_get (event_vm one_socket 1) (globals (event_vm one_socket 1)) (TString ''triggerEvent'') = TFunction 7"
  "stack (event_vm one_socket 1) = []"
  by (simp_all add: event_vm_def one_socket_def start_world_def load_vm_def saved_vms_def mta_vm_def new_state_def
      table_get_def luaH_get_def slot_def luaO_rawequalObj_def lua_State.extend_def sock_world.defs Let_def)

theorem event_delivered_witness:
  "TriggerEvent (\<lambda>q s. if stack s = [TString ''onSockData'', TLightUserData 5, TLightUserData 1000, TString ''hi'']
      then Throw TNil s else Undef) 1 ''onSockData'' ''hi'' one_socket \<noteq> Undef"
proof -
  have c: "socks one_socket 1 = Some (the (socks one_socket 1))" by (simp add: one_socket_def)
  have h: "m_pUserdata (the (socks one_socket 1)) = 1000" by (simp add: one_socket_def)
  have e: "event_args ''onSockData'' 5 1000 ''hi''
      = [TString ''onSockData'', TLightUserData 5, TLightUserData 1000, TString ''hi'']"
    by (simp add: event_args_def c_str_def nul_def)
  show ?thesis unfolding event_delivered [OF c refl one_socket_vm(1,2)] h e by simp
qed

text \<open>Every event leaves one value on the stack of the socket's machine (two when the handler fails), so the
  stack grows with each pulse that delivers an event.\<close>

theorem event_leaks_stack_slot:
  assumes "socks w p = Some c" and "m_pLuaVM c = cur_vm w"
    and "table_get w (globals w) (TString ''root'') = TLightUserData r"
    and "table_get w (globals w) (TString ''triggerEvent'') = TFunction q"
    and "\<And>s. \<exists>rs t. run q s = Ret rs t \<and> cur_vm t = cur_vm s"
  shows "\<exists>t. TriggerEvent run p ev a w = Ret () t \<and> length (stack t) = length (stack w) + 1"
proof -
  let ?u = "load_vm (cur_vm w) w"
  have same: "stack ?u = stack w" "table_get ?u = table_get w" "globals ?u = globals w" "cur_vm ?u = cur_vm w"
    by (auto simp: load_vm_def Let_def saved_vms_def table_get_def fun_eq_iff)
  obtain rs t where t: "run q (?u\<lparr>stack := event_args ev r (m_pUserdata c) a, curr_func := Some q\<rparr>) = Ret rs t"
    "cur_vm t = cur_vm w" using assms(5) [of "?u\<lparr>stack := event_args ev r (m_pUserdata c) a, curr_func := Some q\<rparr>"]
    by auto
  have "TriggerEvent run p ev a w = Ret () (load_vm (cur_vm w)
      (t\<lparr>stack := stack w @ [TLightUserData r], curr_func := curr_func ?u\<rparr>))"
    using TriggerEvent_exact [of w p c ?u r q run ev a] assms(1-4) same t(1)
    by (simp add: call_result_def)
  moreover have "stack (load_vm (cur_vm w) (t\<lparr>stack := stack w @ [TLightUserData r], curr_func := curr_func ?u\<rparr>))
      = stack w @ [TLightUserData r]"
    using t(2) by (simp add: load_vm_def Let_def saved_vms_def)
  ultimately show ?thesis by simp
qed

definition own_socket :: "nat sock_world" where
  "own_socket = one_socket\<lparr>cur_vm := 4\<rparr>"

theorem event_leaks_stack_slot_witness:
  "\<exists>t. TriggerEvent (\<lambda>q s. Ret [] s) 1 ''onSockClosed'' [] own_socket = Ret () t
     \<and> length (stack t) = length (stack own_socket) + 1"
  by (rule event_leaks_stack_slot [where r = 5 and q = 7 and c = "the (socks one_socket 1)"])
    (simp_all add: own_socket_def one_socket_def start_world_def mta_vm_def new_state_def table_get_def
      luaH_get_def slot_def luaO_rawequalObj_def lua_State.extend_def sock_world.defs)

section \<open>Handles\<close>

lemma find_append_notin:
  "\<forall>x \<in> set xs. \<not> P x \<Longrightarrow> List.find P (xs @ ys) = List.find P ys"
  by (induction xs) auto

lemma sockOpen_opened:
  assumes w: "sock_inv K M n v w" and st: "stack w = TString h # TNumber d # rest"
    and port: "to_ushort d = Some port" and lt: "ms_iTotalOpenSocketCount w < 255"
  obtains c s where "CSocket_new oc (c_str h) port w = Ret (next_sock w) s" "created w c s"
    "m_pUserdata c \<noteq> 0 \<Longrightarrow> sockOpen oc w = Ret 1 (s\<lparr>vecSockets := vecSockets w @ [next_sock w],
       stack := stack s @ [TLightUserData (m_pUserdata c)]\<rparr>)"
    "m_pUserdata c \<noteq> 0 \<Longrightarrow> sock_inv K M n v (s\<lparr>vecSockets := vecSockets w @ [next_sock w],
       stack := stack s @ [TLightUserData (m_pUserdata c)]\<rparr>)"
proof -
  obtain c s where s: "CSocket_new oc (c_str h) port w = Ret (next_sock w) s" "created w c s"
    using CSocket_new_spec by blast
  have inv: "sock_inv (insert (next_sock w) K) M n v s" using inv_created [OF w s(2)] lt by simp
  have fresh: "next_sock w \<notin> K" "next_sock w \<notin> set (deleteList s)"
    using w s(2) by (auto simp: sock_inv_def heap_inv_def created_def same_lists_def)
  have v: "vecSockets s = vecSockets w" "socks s (next_sock w) = Some c"
    using s(2) by (simp_all add: created_def same_lists_def)
  have a: "arg w 1 = TString h" "arg w 2 = TNumber d" "argtype w 1 = LUA_TSTRING" "argtype w 2 = LUA_TNUMBER"
    using st by (simp_all add: arg_def argtype_def)
  have "sockOpen oc w = Ret 1 (s\<lparr>vecSockets := vecSockets w @ [next_sock w],
      stack := stack s @ [TLightUserData (m_pUserdata c)]\<rparr>)" if "m_pUserdata c \<noteq> 0"
    using a lt port s(1) v that
    by (simp add: sockOpen_def run_simps api_simps luaV_tonumber_def get_sock_def SocketAdd_def)
  then show thesis using that s inv_add [OF inv fresh] v by simp
qed

text \<open>C7: A socket that was opened is found by the handle \<open>sockOpen\<close> returned, as long as no older socket has the
  same handle.\<close>

theorem open_then_find:
  assumes w: "sock_inv K M n v w" and st: "stack w = TString h # TNumber d # rest"
    and port: "to_ushort d = Some port" and lt: "ms_iTotalOpenSocketCount w < 255"
    and "\<forall>p \<in> set (vecSockets w). m_pUserdata (the (socks w p)) \<noteq> ud"
    and "sockOpen oc w = Ret 1 t" and "last (stack t) = TLightUserData ud"
  shows "GetSocket ud t = Ret (Some (next_sock w)) t"
proof -
  obtain c s where s: "CSocket_new oc (c_str h) port w = Ret (next_sock w) s" "created w c s"
    and o: "m_pUserdata c \<noteq> 0 \<Longrightarrow> sockOpen oc w = Ret 1 (s\<lparr>vecSockets := vecSockets w @ [next_sock w],
       stack := stack s @ [TLightUserData (m_pUserdata c)]\<rparr>)"
    and i: "m_pUserdata c \<noteq> 0 \<Longrightarrow> sock_inv K M n v (s\<lparr>vecSockets := vecSockets w @ [next_sock w],
       stack := stack s @ [TLightUserData (m_pUserdata c)]\<rparr>)"
    using sockOpen_opened [OF w st port lt] by metis
  have nz: "m_pUserdata c \<noteq> 0"
  proof
    assume "m_pUserdata c = 0"
    moreover have "arg w 1 = TString h" "arg w 2 = TNumber d" "argtype w 1 = LUA_TSTRING" "argtype w 2 = LUA_TNUMBER"
      using st by (simp_all add: arg_def argtype_def)
    moreover have "socks s (next_sock w) = Some c" using s(2) by (simp add: created_def)
    ultimately have "sockOpen oc w = andThen (CSocket_delete oc (next_sock w)) (andThen (lua_pushboolean False) (ret 1)) s"
      using lt port s(1) by (simp add: sockOpen_def run_simps api_simps luaV_tonumber_def get_sock_def)
    with assms(6,7) show False by (auto simp: run_simps api_simps split: outcome.splits)
  qed
  let ?t = "s\<lparr>vecSockets := vecSockets w @ [next_sock w], stack := stack s @ [TLightUserData (m_pUserdata c)]\<rparr>"
  have t: "t = ?t" using o [OF nz] assms(6) by simp
  then have ud: "m_pUserdata c = ud" using assms(7) by simp
  have old: "socks s p = socks w p" if "p \<in> set (vecSockets w)" for p
    using that s(2) w by (auto simp: created_def sock_inv_def heap_inv_def)
  have "List.find (\<lambda>p. m_pUserdata (the (socks s p)) = ud) (vecSockets w @ [next_sock w]) = Some (next_sock w)"
    using assms(5) old s(2) ud by (subst find_append_notin) (auto simp: created_def)
  then show ?thesis using GetSocket_spec [OF i [OF nz], of ud] nz ud t by simp
qed

lemma start_world_fields:
  "stack (start_world\<lparr>stack := st\<rparr>) = st" "vecSockets start_world = []" "ms_iTotalOpenSocketCount start_world = 0"
  "next_sock start_world = 1" "socks start_world = Map.empty" "uaddr start_world = (\<lambda>n. n + 1000)"
  "next_udata start_world = 0" "os start_world = 0" "cur_vm start_world = 0"
  by (simp_all add: start_world_def mta_vm_def new_state_def lua_State.extend_def sock_world.defs)

theorem open_then_find_witness:
  "\<exists>t. sockOpen quiet_os (start_world\<lparr>stack := [TString ''h'', TNumber (Fin 80)]\<rparr>) = Ret 1 t
     \<and> GetSocket 1000 t = Ret (Some 1) t"
proof -
  let ?w = "start_world\<lparr>stack := [TString ''h'', TNumber (Fin 80)]\<rparr>"
  have inv: "sock_inv {} {} 0 0 ?w" using start_inv [OF start_world_ok] start_world_fields by simp
  have st: "stack ?w = TString ''h'' # TNumber (Fin 80) # []"
    and port: "to_ushort (Fin 80) = Some 80"
    by (simp_all add: to_ushort_def double_to_int_def trunc_rat_def)
  have lt: "ms_iTotalOpenSocketCount ?w < 255"
    and old: "\<forall>p \<in> set (vecSockets ?w). m_pUserdata (the (socks ?w p)) \<noteq> 1000"
    by (simp_all add: start_world_fields)
  have "\<exists>t. sockOpen quiet_os ?w = Ret 1 t \<and> last (stack t) = TLightUserData 1000"
    by (simp add: sockOpen_def run_simps api_simps arg_def argtype_def luaV_tonumber_def port CSocket_new_def
        alloc_sock_def ProcessTargetLocation_def set_sock_def get_sock_def syscall_def SetNonBlocking_def
        quiet_os_def lua_newuserdata_def SocketAdd_def start_world_fields Let_def)
  then show ?thesis
    using open_then_find [OF inv st port lt old] start_world_fields by force
qed

text \<open>C39: The handle is the address of a userdata block that nothing keeps alive.  If a later \<open>sockOpen\<close> gets the same
  address, the handle it returns names the older socket.\<close>

theorem reused_handle_names_old_socket:
  assumes w: "sock_inv K M n v w" and st: "stack w = TString h # TNumber d # rest"
    and port: "to_ushort d = Some port" and lt: "ms_iTotalOpenSocketCount w < 255"
    and p: "List.find (\<lambda>p. m_pUserdata (the (socks w p)) = ud) (vecSockets w) = Some p"
    and nz: "ud \<noteq> 0" and t: "sockOpen oc w = Ret 1 t" and vec: "vecSockets t = vecSockets w @ [next_sock w]"
  shows "GetSocket ud t = Ret (Some p) t"
proof -
  obtain c s where s: "CSocket_new oc (c_str h) port w = Ret (next_sock w) s" "created w c s"
    and o: "m_pUserdata c \<noteq> 0 \<Longrightarrow> sockOpen oc w = Ret 1 (s\<lparr>vecSockets := vecSockets w @ [next_sock w],
       stack := stack s @ [TLightUserData (m_pUserdata c)]\<rparr>)"
    using sockOpen_opened [OF w st port lt] by metis
  have inv: "sock_inv K M n v t"
    using sockOpen_keeps [OF w, of oc] t st port by (simp add: open_args_ok_def)
  have new: "next_sock w \<in> dom (socks t)"
    using inv vec by (auto simp: sock_inv_def heap_inv_def)
  have a: "arg w 1 = TString h" "arg w 2 = TNumber d" "argtype w 1 = LUA_TSTRING" "argtype w 2 = LUA_TNUMBER"
    using st by (simp_all add: arg_def argtype_def)
  have c: "socks s (next_sock w) = Some c" using s(2) by (simp add: created_def)
  have "m_pUserdata c \<noteq> 0"
  proof
    assume z: "m_pUserdata c = 0"
    have fresh: "next_sock w \<notin> K" "next_sock w \<notin> set (vecSockets s)" "next_sock w \<notin> set (deleteList s)"
      using w s(2) by (auto simp: sock_inv_def heap_inv_def created_def same_lists_def)
    obtain t' where "CSocket_delete oc (next_sock w) s = Ret () t'" "same_lists s t'"
      using CSocket_delete_spec [OF inv_created [OF w s(2)] fresh] lt by blast
    then have "vecSockets t = vecSockets w"
      using z a lt port s c t by (simp add: sockOpen_def run_simps api_simps luaV_tonumber_def get_sock_def
          same_lists_def created_def) auto
    with vec show False by simp
  qed
  with o t have ts: "socks t = socks s" by auto
  have old: "socks s q = socks w q" if "q \<in> set (vecSockets w)" for q
    using that s(2) w by (auto simp: created_def sock_inv_def heap_inv_def)
  have "List.find (\<lambda>q. m_pUserdata (the (socks t q)) = ud) (vecSockets t)
      = List.find (\<lambda>q. m_pUserdata (the (socks w q)) = ud) (vecSockets w)"
    unfolding vec find_append ts using p old
    by (auto cong: List.find_cong split: option.splits)
  then show ?thesis using GetSocket_spec [OF inv, of ud] nz p by simp
qed

definition clash_world :: "nat sock_world" where
  "clash_world = one_socket\<lparr>stack := [TString ''h'', TNumber (Fin 80)], uaddr := (\<lambda>_. 1000)\<rparr>"

lemma clash_fields:
  "vecSockets clash_world = [1]" "ms_iTotalOpenSocketCount clash_world = 1" "next_sock clash_world = 2"
  "stack clash_world = [TString ''h'', TNumber (Fin 80)]" "os clash_world = 0" "cur_vm clash_world = 0"
  "uaddr clash_world = (\<lambda>_. 1000)"
  "socks clash_world = [1 \<mapsto> \<lparr>m_strHost = ''h'', m_usPort = 80, m_pUserdata = 1000,
     m_bConnected = True, m_pLuaVM = 4, m_sSockAddr = (1, 80), m_pSocket = 3\<rparr>]"
  by (simp_all add: clash_world_def one_socket_def start_world_def mta_vm_def new_state_def lua_State.extend_def
      sock_world.defs)

theorem reused_handle_names_old_socket_witness:
  "\<exists>t. sockOpen quiet_os clash_world = Ret 1 t \<and> last (stack t) = TLightUserData 1000
     \<and> vecSockets t = [1, 2] \<and> GetSocket 1000 t = Ret (Some 1) t"
proof -
  have inv: "sock_inv {} {} 0 0 clash_world"
    using one_socket_inv by (simp add: clash_world_def)
  have port: "to_ushort (Fin 80) = Some 80" by (simp add: to_ushort_def double_to_int_def trunc_rat_def)
  obtain t where t: "sockOpen quiet_os clash_world = Ret 1 t" "last (stack t) = TLightUserData 1000"
      "vecSockets t = [1, 2]"
    by (simp add: sockOpen_def run_simps api_simps arg_def argtype_def luaV_tonumber_def port CSocket_new_def
        alloc_sock_def ProcessTargetLocation_def set_sock_def get_sock_def syscall_def SetNonBlocking_def
        quiet_os_def lua_newuserdata_def SocketAdd_def clash_fields Let_def)
  have "GetSocket 1000 t = Ret (Some 1) t"
    by (rule reused_handle_names_old_socket [OF inv _ port _ _ _ t(1)]) (simp_all add: clash_fields t)
  with t show ?thesis by blast
qed

text \<open>C38: \<open>sockWrite\<close> on a known handle sends the data up to its first zero byte and returns whether \<open>send\<close>
  accepted it; the rest of the data is silently dropped.\<close>

theorem write_sends_c_string:
  assumes "sock_inv K M n v w" and "stack w = TLightUserData h # TString str # rest" and "h \<noteq> 0"
    and "List.find (\<lambda>p. m_pUserdata (the (socks w p)) = h) (vecSockets w) = Some p"
    and "socks w p = Some c" and "m_pSocket c \<noteq> ERR_INVALID_SOCKET"
  shows "sockWrite oc w = (case os_send oc (m_pSocket c) (c_str str) (os w) of (r, x) \<Rightarrow>
    Ret 1 (w\<lparr>os := x, stack := stack w @ [TBoolean (r \<noteq> ERR_SEND_FAILURE)]\<rparr>))"
  using assms by (simp add: sockWrite_def run_simps api_simps arg_def argtype_def GetSocket_spec Send_def
      get_sock_def syscall_def split: prod.split)

theorem write_sends_c_string_witness:
  "\<exists>t. sockWrite quiet_os (one_socket\<lparr>stack := [TLightUserData 1000, TString [CHR ''a'', nul, CHR ''b'']]\<rparr>) = Ret 1 t"
proof -
  let ?w = "one_socket\<lparr>stack := [TLightUserData 1000, TString [CHR ''a'', nul, CHR ''b'']]\<rparr>"
  have "sock_inv {} {} 0 0 ?w" using one_socket_inv by simp
  then show ?thesis
    using write_sends_c_string [of "{}" "{}" 0 0 ?w 1000 "[CHR ''a'', nul, CHR ''b'']" "[]" 1 _ quiet_os]
    by (simp add: one_socket_def quiet_os_def)
qed

end
