(* ===== verification/MySQLHandler.thy ===== *)
theory MySQLHandler
  imports LuaAux
begin

text \<open>
  The connection half of the MySQL module (\<open>handler.cpp\<close>, \<open>module.cpp\<close>): the \<open>MySQL\<close> class, the
  metatables, and the Lua functions on a connection.  The MySQL client library is the parameter
  \<open>mysql_client\<close>; each of its functions may be undefined (\<open>None\<close>) on an argument the library does
  not accept, such as a null or closed handle.  The world extends the Lua machine by the C++
  objects of both classes, the library's state and what was printed to the server console.
  \<open>void* ud\<close> and the object pointer stored in its block are kept apart: \<open>read_block\<close> reads the
  pointer, and an object that was deleted is no longer in the heap.
\<close>

section \<open>State\<close>

record MYSQL_FIELD =
  f_name :: string
  f_org_name :: string
  f_table :: string
  f_org_table :: string
  f_length :: int
  f_max_length :: int
  f_flags :: int
  f_type :: int

record MY_CHARSET_INFO =
  cs_name :: string
  cs_csname :: string
  cs_comment :: "string option"
  cs_dir :: "string option"
  cs_mbminlen :: int
  cs_mbmaxlen :: int

record conn_args =
  ca_host :: string
  ca_user :: string
  ca_password :: string
  ca_database :: "string option"
  ca_port :: int
  ca_socket :: "string option"
  ca_flags :: int

type_synonym ('m, 'a) lib = "'m \<Rightarrow> ('a \<times> 'm) option"

record 'm mysql_client =
  c_init :: "('m, ptr) lib"
  c_options_noreconnect :: "ptr \<Rightarrow> ('m, unit) lib"
  c_real_connect :: "ptr \<Rightarrow> conn_args \<Rightarrow> ('m, bool) lib"
  c_errno :: "ptr \<Rightarrow> ('m, int) lib"
  c_error :: "ptr \<Rightarrow> ('m, string) lib"
  c_close :: "ptr \<Rightarrow> ('m, unit) lib"
  c_ping :: "ptr \<Rightarrow> ('m, int) lib"
  c_select_db :: "ptr \<Rightarrow> string \<Rightarrow> ('m, int) lib"
  c_real_escape_string :: "ptr \<Rightarrow> string \<Rightarrow> ('m, string) lib"
  c_affected_rows :: "ptr \<Rightarrow> ('m, int) lib"
  c_change_user :: "ptr \<Rightarrow> string \<Rightarrow> string \<Rightarrow> string option \<Rightarrow> ('m, int) lib"
  c_get_character_set_info :: "ptr \<Rightarrow> ('m, MY_CHARSET_INFO) lib"
  c_get_client_info :: string
  c_get_client_version :: int
  c_get_host_info :: "ptr \<Rightarrow> ('m, string) lib"
  c_get_proto_info :: "ptr \<Rightarrow> ('m, int) lib"
  c_get_server_info :: "ptr \<Rightarrow> ('m, string) lib"
  c_get_server_version :: "ptr \<Rightarrow> ('m, int) lib"
  c_hex_string :: "string \<Rightarrow> string"
  c_info :: "ptr \<Rightarrow> ('m, string option) lib"
  c_insert_id :: "ptr \<Rightarrow> ('m, int) lib"
  c_real_query :: "ptr \<Rightarrow> string \<Rightarrow> ('m, int) lib"
  c_store_result :: "ptr \<Rightarrow> ('m, ptr) lib"
  c_use_result :: "ptr \<Rightarrow> ('m, ptr) lib"
  c_field_count :: "ptr \<Rightarrow> ('m, int) lib"
  c_set_character_set :: "ptr \<Rightarrow> string \<Rightarrow> ('m, int) lib"
  c_stat :: "ptr \<Rightarrow> ('m, string option) lib"
  c_warning_count :: "ptr \<Rightarrow> ('m, int) lib"
  c_free_result :: "ptr \<Rightarrow> ('m, unit) lib"
  c_data_seek :: "ptr \<Rightarrow> int \<Rightarrow> ('m, unit) lib"
  c_fetch_field :: "ptr \<Rightarrow> ('m, MYSQL_FIELD option) lib"
  c_fetch_lengths :: "ptr \<Rightarrow> ('m, int list option) lib"
  c_fetch_row :: "ptr \<Rightarrow> ('m, string option list option) lib"
  c_field_seek :: "ptr \<Rightarrow> int \<Rightarrow> ('m, int) lib"
  c_field_tell :: "ptr \<Rightarrow> ('m, int) lib"
  c_num_fields :: "ptr \<Rightarrow> ('m, int) lib"
  c_num_rows :: "ptr \<Rightarrow> ('m, int) lib"

record MySQL =
  m_handle :: ptr
  m_ok :: bool
  m_numHandler :: int

record MySQL_Result =
  m_result :: ptr
  m_numResult :: int

record 'm mysql_world = lua_State +
  handlers :: "ptr \<Rightarrow> MySQL option"
  results :: "ptr \<Rightarrow> MySQL_Result option"
  next_cpp :: ptr
  s_numHandler :: int
  s_numResult :: int
  ms_bHandlerMapInitialized :: bool
  ms_bResultMapInitialized :: bool
  mysql_init_worked :: bool
  db :: 'm
  console :: "string list"

type_synonym ('m, 'a) mysql = "('m mysql_world, 'a) lua"
type_synonym 'm mysql_run = "ptr \<Rightarrow> ('m, TValue list) mysql"

definition lib :: "('m, 'a) lib \<Rightarrow> ('m, 'a) mysql" where
  "lib f = (\<lambda>w. case f (db w) of None \<Rightarrow> Undef | Some (a, m) \<Rightarrow> Ret a (w\<lparr>db := m\<rparr>))"

definition get_handler :: "ptr \<Rightarrow> ('m, MySQL) mysql" where
  "get_handler p = bnd (gets (\<lambda>w. handlers w p)) defined"

definition get_result :: "ptr \<Rightarrow> ('m, MySQL_Result) mysql" where
  "get_result p = bnd (gets (\<lambda>w. results w p)) defined"

text \<open>
  \<open>ErrorPrintf\<close> is called with the message as its format; a conversion specifier in the message
  would read an argument that is not there.
\<close>

fun plain_format :: "string \<Rightarrow> string option" where
  "plain_format [] = Some []"
| "plain_format [c] = (if c = CHR ''%'' then None else Some [c])"
| "plain_format (c # d # cs) = (if c = CHR ''%''
     then (if d = CHR ''%'' then map_option (Cons c) (plain_format cs) else None)
     else map_option (Cons c) (plain_format (d # cs)))"

definition ErrorPrintf :: "string \<Rightarrow> ('m, unit) mysql" where
  "ErrorPrintf msg = bnd (defined (plain_format msg)) (\<lambda>out.
     modify (\<lambda>w. w\<lparr>console := console w @ [out]\<rparr>))"

text \<open>\<open>snprintf\<close> into a buffer of \<open>n\<close> bytes keeps \<open>n - 1\<close> characters.\<close>

definition snprintf :: "nat \<Rightarrow> string \<Rightarrow> string" where
  "snprintf n s = take (n - 1) s"

section \<open>Client flags\<close>

definition client_flags :: "(string \<times> int) list" where
  "client_flags = [(''compress'', 32), (''found_rows'', 2), (''ignore_sigpipe'', 4096),
     (''ignore_space'', 256), (''interactive'', 1024), (''local_files'', 128), (''no_schema'', 16),
     (''odbc'', 64)]"

text \<open>\<open>strncasecmp\<close> compares at most \<open>n\<close> characters and stops at the end of both strings.\<close>

fun strncaseeq :: "string \<Rightarrow> string \<Rightarrow> nat \<Rightarrow> bool" where
  "strncaseeq s t 0 = True"
| "strncaseeq [] [] (Suc n) = True"
| "strncaseeq (c # s) (d # t) (Suc n) = (lower c = lower d \<and> strncaseeq s t n)"
| "strncaseeq [] (d # t) (Suc n) = False"
| "strncaseeq (c # s) [] (Suc n) = False"

fun find_flag :: "(string \<times> int) list \<Rightarrow> string \<Rightarrow> nat \<Rightarrow> int" where
  "find_flag [] s n = 0"
| "find_flag ((name, flag) # fs) s n = (if strncaseeq name s n then flag else find_flag fs s n)"

definition getClientFlag :: "string \<Rightarrow> nat \<Rightarrow> int" where
  "getClientFlag flagStr len = find_flag client_flags flagStr len"

text \<open>The loop over the separators: \<open>p\<close> is the rest of the argument.\<close>

function parse_flags :: "string \<Rightarrow> int \<Rightarrow> int" where
  "parse_flags p acc = (case dropWhile (\<lambda>c. c \<noteq> CHR ''|'') p of
     s # rest \<Rightarrow> parse_flags rest (or acc (getClientFlag p (length (takeWhile (\<lambda>c. c \<noteq> CHR ''|'') p))))
   | [] \<Rightarrow> (if p \<noteq> [] then or acc (getClientFlag p (length p)) else acc))"
  by pat_completeness auto
termination
proof (relation "measure (\<lambda>(p, acc). length p)"; clarsimp)
  fix p :: string and rest :: string and s
  assume "dropWhile (\<lambda>c. c \<noteq> CHR ''|'') p = s # rest"
  then have "length (s # rest) \<le> length p" using length_dropWhile_le by metis
  then show "length rest < length p" by simp
qed

section \<open>The class MySQL\<close>

definition MySQL_Close_method :: "'m mysql_client \<Rightarrow> ptr \<Rightarrow> ('m, unit) mysql" where
  "MySQL_Close_method mc p = bnd (get_handler p) (\<lambda>h. whenever (m_handle h \<noteq> 0)
     (andThen (lib (c_close mc (m_handle h)))
       (modify (\<lambda>w. w\<lparr>handlers := (handlers w)(p \<mapsto> h\<lparr>m_handle := 0, m_ok := False\<rparr>)\<rparr>))))"

definition MySQL_delete :: "'m mysql_client \<Rightarrow> ptr \<Rightarrow> ('m, unit) mysql" where
  "MySQL_delete mc p = andThen (MySQL_Close_method mc p)
     (modify (\<lambda>w. w\<lparr>handlers := (handlers w)(p := None)\<rparr>))"

definition GetNextHandler :: "('m, int) mysql" where
  "GetNextHandler = (\<lambda>w. Ret (s_numHandler w) (w\<lparr>s_numHandler := to_uint (s_numHandler w + 1)\<rparr>))"

definition new_handler :: "MySQL \<Rightarrow> ('m, ptr) mysql" where
  "new_handler h = (\<lambda>w. let p = next_cpp w in
     Ret p (w\<lparr>handlers := (handlers w)(p \<mapsto> h), next_cpp := p + 1\<rparr>))"

definition MySQL_new :: "'m mysql_client \<Rightarrow> conn_args \<Rightarrow> ('m, ptr) mysql" where
  "MySQL_new mc ca = bnd GetNextHandler (\<lambda>n. bnd (lib (c_init mc)) (\<lambda>h.
     if h = 0 then new_handler \<lparr>m_handle = 0, m_ok = False, m_numHandler = n\<rparr>
     else andThen (lib (c_options_noreconnect mc h)) (bnd (lib (c_real_connect mc h ca)) (\<lambda>ok.
       new_handler \<lparr>m_handle = h, m_ok = ok, m_numHandler = n\<rparr>))))"

definition new_result :: "ptr \<Rightarrow> ('m, ptr) mysql" where
  "new_result res = (\<lambda>w. let p = next_cpp w in
     Ret p (w\<lparr>results := (results w)(p \<mapsto> \<lparr>m_result = res, m_numResult = s_numResult w\<rparr>),
       next_cpp := p + 1, s_numResult := to_uint (s_numResult w + 1)\<rparr>))"

definition MySQL_Query_method :: "'m mysql_client \<Rightarrow> MySQL \<Rightarrow> string \<Rightarrow> ('m, ptr option) mysql" where
  "MySQL_Query_method mc h query = bnd (lib (c_real_query mc (m_handle h) query)) (\<lambda>r.
     if r \<noteq> 0 then ret None else
     bnd (lib (c_store_result mc (m_handle h))) (\<lambda>res.
     bnd (if res = 0 then lib (c_field_count mc (m_handle h)) else ret 0) (\<lambda>n.
     if res = 0 \<and> n > 0 then ret None else bnd (new_result res) (\<lambda>p. ret (Some p)))))"

definition MySQL_UnbufferedQuery_method :: "'m mysql_client \<Rightarrow> MySQL \<Rightarrow> string \<Rightarrow> ('m, ptr option) mysql" where
  "MySQL_UnbufferedQuery_method mc h query = bnd (lib (c_real_query mc (m_handle h) query)) (\<lambda>r.
     if r \<noteq> 0 then ret None else
     bnd (lib (c_use_result mc (m_handle h))) (\<lambda>res.
     bnd (if res = 0 then lib (c_field_count mc (m_handle h)) else ret 0) (\<lambda>n.
     if res = 0 \<and> n > 0 then ret None else bnd (new_result res) (\<lambda>p. ret (Some p)))))"

definition MySQL_Result_delete :: "'m mysql_client \<Rightarrow> ptr \<Rightarrow> ('m, unit) mysql" where
  "MySQL_Result_delete mc p = bnd (get_result p) (\<lambda>r.
     andThen (whenever (m_result r \<noteq> 0) (lib (c_free_result mc (m_result r))))
       (modify (\<lambda>w. w\<lparr>results := (results w)(p := None)\<rparr>)))"

section \<open>Metatable functions\<close>

definition checkMySQLHandler :: "'m mysql_run \<Rightarrow> ('m, MySQL) mysql" where
  "checkMySQLHandler run = bnd (luaL_checkudata run 1 ''mysqlHandler'') (\<lambda>ud. bnd (read_block ud) (\<lambda>p.
     bnd (if p = 0 then ret None else bnd (get_handler p) (\<lambda>h. ret (Some h))) (\<lambda>oh.
     andThen (luaL_argcheck (case oh of None \<Rightarrow> False | Some h \<Rightarrow> m_ok h) 1 ''Expected a valid MySQL link'')
       (defined oh))))"

definition HandlerGC :: "'m mysql_client \<Rightarrow> 'm mysql_run \<Rightarrow> ('m, int) mysql" where
  "HandlerGC mc run = bnd (luaL_checkudata run 1 ''mysqlHandler'') (\<lambda>ud. bnd (read_block ud) (\<lambda>p.
     andThen (whenever (p \<noteq> 0) (MySQL_delete mc p)) (ret 0)))"

definition HandlerTostring :: "'m mysql_run \<Rightarrow> ('m, int) mysql" where
  "HandlerTostring run = bnd (luaL_checkudata run 1 ''mysqlHandler'') (\<lambda>ud. bnd (read_block ud) (\<lambda>p.
     andThen (if p \<noteq> 0 then bnd (get_handler p) (\<lambda>h.
         lua_pushstring (Some (snprintf 64 (''MySQL handler (#'' @ int_str (m_numHandler h) @ '')''))))
       else lua_pushnil) (ret 1)))"

definition ResultGC :: "'m mysql_client \<Rightarrow> 'm mysql_run \<Rightarrow> ('m, int) mysql" where
  "ResultGC mc run = bnd (luaL_checkudata run 1 ''mysqlResult'') (\<lambda>ud. bnd (read_block ud) (\<lambda>p.
     andThen (whenever (p \<noteq> 0) (MySQL_Result_delete mc p)) (ret 0)))"

definition ResultTostring :: "'m mysql_run \<Rightarrow> ('m, int) mysql" where
  "ResultTostring run = bnd (luaL_checkudata run 1 ''mysqlResult'') (\<lambda>ud. bnd (read_block ud) (\<lambda>p.
     andThen (if p \<noteq> 0 then bnd (get_result p) (\<lambda>r.
         lua_pushstring (Some (snprintf 64 (''MySQL result (#'' @ int_str (m_numResult r) @ '')''))))
       else lua_pushnil) (ret 1)))"

text \<open>
  The method maps: an array of 256 maps indexed by the first character of the name.  \<open>char\<close> is
  signed, so a name whose first byte is above 127 gives a negative index.
\<close>

definition handler_methods :: "(string \<times> string) list" where
  "handler_methods = [(''close'', ''Close''), (''errno'', ''Errno''), (''error'', ''Error''), (''ping'', ''Ping''),
     (''select_db'', ''SelectDB''), (''escape_string'', ''EscapeString''), (''affected_rows'', ''AffectedRows''),
     (''change_user'', ''ChangeUser''), (''get_character_set_info'', ''GetCharacterSetInfo''),
     (''get_client_info'', ''GetClientInfo''), (''get_client_version'', ''GetClientVersion''),
     (''get_host_info'', ''GetHostInfo''), (''get_proto_info'', ''GetProtoInfo''),
     (''get_server_info'', ''GetServerInfo''), (''get_server_version'', ''GetServerVersion''),
     (''hex_string'', ''HexString''), (''info'', ''Info''), (''insert_id'', ''InsertID''), (''query'', ''Query''),
     (''unbuffered_query'', ''UnbufferedQuery''), (''set_character_set'', ''SetCharacterSet''),
     (''stat'', ''Stat''), (''warning_count'', ''WarningCount'')]"

definition result_methods :: "(string \<times> string) list" where
  "result_methods = [(''data_seek'', ''DataSeek''), (''fetch_field'', ''FetchField''), (''fields'', ''Fields''),
     (''fetch_lengths'', ''FetchLengths''), (''fetch_row'', ''FetchRow''), (''rows'', ''Rows''),
     (''fetch_assoc'', ''FetchAssoc''), (''rows_assoc'', ''RowsAssoc''), (''field_length'', ''FieldLength''),
     (''field_name'', ''FieldName''), (''field_seek'', ''FieldSeek''), (''field_tell'', ''FieldTell''),
     (''num_fields'', ''NumFields''), (''numfields'', ''NumFields''), (''num_rows'', ''NumRows''),
     (''numrows'', ''NumRows''), (''result'', ''Result''), (''free_result'', ''FreeResult''),
     (''free'', ''FreeResult'')]"

definition first_char :: "string \<Rightarrow> char" where
  "first_char s = (case s of [] \<Rightarrow> nul | c # _ \<Rightarrow> c)"

definition bucket :: "(string \<times> string) list \<Rightarrow> char \<Rightarrow> (string \<times> string) list" where
  "bucket ms c = filter (\<lambda>m. first_char (fst m) = c) ms"

definition method_lookup :: "(string \<times> string) list \<Rightarrow> string \<Rightarrow> ('m, unit) mysql" where
  "method_lookup ms p = (if (of_char (first_char p) :: nat) \<ge> 128 then undef
     else (case map_of (bucket ms (first_char p)) p of
       None \<Rightarrow> lua_pushnil | Some fn \<Rightarrow> lua_pushcfunction fn))"

definition HandlerIndex :: "'m mysql_run \<Rightarrow> ('m, int) mysql" where
  "HandlerIndex run = bnd (luaL_checkudata run 1 ''mysqlHandler'') (\<lambda>ud.
     andThen (modify (\<lambda>w. w\<lparr>ms_bHandlerMapInitialized := True\<rparr>))
    (bnd (read_block ud) (\<lambda>q. andThen (if q \<noteq> 0 then bnd (lua_tolstring 2) (\<lambda>r. case r of
         None \<Rightarrow> lua_pushnil | Some str \<Rightarrow> method_lookup handler_methods (c_str str))
       else lua_pushnil) (ret 1))))"

definition ResultIndex :: "'m mysql_run \<Rightarrow> ('m, int) mysql" where
  "ResultIndex run = bnd (luaL_checkudata run 1 ''mysqlResult'') (\<lambda>ud.
     andThen (modify (\<lambda>w. w\<lparr>ms_bResultMapInitialized := True\<rparr>))
    (bnd (read_block ud) (\<lambda>q. andThen (if q \<noteq> 0 then bnd (lua_tolstring 2) (\<lambda>r. case r of
         None \<Rightarrow> lua_pushnil | Some str \<Rightarrow> method_lookup result_methods (c_str str))
       else lua_pushnil) (ret 1))))"

definition set_method :: "'m mysql_run \<Rightarrow> string \<Rightarrow> string \<Rightarrow> ('m, unit) mysql" where
  "set_method run k fn = andThen (lua_pushstring (Some k)) (andThen (lua_pushcfunction fn) (lua_settable run (- 3)))"

definition Startup :: "'m mysql_run \<Rightarrow> ('m, unit) mysql" where
  "Startup run = andThen (luaL_newmetatable run ''mysqlHandler'')
    (andThen (set_method run ''__gc'' ''HandlerGC'') (andThen (set_method run ''__tostring'' ''HandlerTostring'')
    (andThen (set_method run ''__index'' ''HandlerIndex'')
    (andThen (luaL_newmetatable run ''mysqlResult'')
    (andThen (set_method run ''__gc'' ''ResultGC'') (andThen (set_method run ''__tostring'' ''ResultTostring'')
    (set_method run ''__index'' ''ResultIndex'')))))))"

section \<open>Lua functions on a connection\<close>

definition luaL_checkstring :: "int \<Rightarrow> ('z lua_State_scheme, string) lua" where
  [api_defs]: "luaL_checkstring n = bnd (luaL_checklstring n) (\<lambda>str. ret (c_str str))"

text \<open>\<open>luaL_checkint\<close> keeps the low 32 bits of the integer.\<close>

definition luaL_checkint :: "int \<Rightarrow> ('z lua_State_scheme, int) lua" where
  [api_defs]: "luaL_checkint n = bnd (luaL_checkinteger n) (\<lambda>i. ret (uint_to_int i))"

text \<open>A new userdata block with the given metatable that points to a C++ object.\<close>

definition push_object :: "'m mysql_run \<Rightarrow> string \<Rightarrow> ptr \<Rightarrow> ('m, unit) mysql" where
  "push_object run tname p = bnd (lua_newuserdata 8) (\<lambda>ud.
     andThen (luaL_getmetatable run tname) (andThen (lua_setmetatable (- 2)) (write_block ud p)))"

definition connect_options :: "int \<Rightarrow> ('m, int \<times> string option \<times> int) mysql" where
  "connect_options numparams =
     (if numparams < 5 then ret (3306, None, 0) else
      bnd (luaL_checkint 5) (\<lambda>i. let port = to_uint i in
      if numparams < 6 then ret (port, None, 0) else
      bnd (lua_type 6) (\<lambda>t. bnd (if t \<noteq> LUA_TNIL then bnd (luaL_checkstring 6) (\<lambda>u. ret (Some u)) else ret None)
        (\<lambda>unixSocket.
      if numparams < 7 then ret (port, unixSocket, 0) else
      bnd (luaL_checkstring 7) (\<lambda>p. ret (port, unixSocket, parse_flags p 0))))))"

definition MySQL_Connect :: "'m mysql_client \<Rightarrow> 'm mysql_run \<Rightarrow> ('m, int) mysql" where
  "MySQL_Connect mc run = bnd lua_gettop (\<lambda>numparams.
     if numparams < 4 then luaL_error (''Wrong parameter count for `mysql_connect'' @ [CHR 0x27]) else
     bnd (luaL_checkstring 1) (\<lambda>hostname. bnd (luaL_checkstring 2) (\<lambda>username.
     bnd (luaL_checkstring 3) (\<lambda>password. bnd (luaL_checkstring 4) (\<lambda>database.
     bnd (connect_options numparams) (\<lambda>(port, unixSocket, clientFlags).
     bnd (MySQL_new mc \<lparr>ca_host = hostname, ca_user = username, ca_password = password,
            ca_database = Some database, ca_port = port, ca_socket = unixSocket, ca_flags = clientFlags\<rparr>) (\<lambda>p.
     bnd (get_handler p) (\<lambda>h.
     andThen (if \<not> m_ok h then
         bnd (lib (c_errno mc (m_handle h))) (\<lambda>en. bnd (lib (c_error mc (m_handle h))) (\<lambda>er.
         andThen (ErrorPrintf (snprintf 1024 (''Unable to connect to mysql: ('' @ int_str (uint_to_int en) @ '') '' @ c_str er @ [CHR 0x0A])))
        (andThen (MySQL_delete mc p) lua_pushnil)))
       else push_object run ''mysqlHandler'' p) (ret 1)))))))))"

definition MySQL_Close :: "'m mysql_client \<Rightarrow> 'm mysql_run \<Rightarrow> ('m, int) mysql" where
  "MySQL_Close mc run = bnd (luaL_checkudata run 1 ''mysqlHandler'') (\<lambda>ud. bnd (read_block ud) (\<lambda>p.
     bnd (if p = 0 then ret False else bnd (get_handler p) (\<lambda>h. ret (m_ok h))) (\<lambda>ok.
     andThen (luaL_argcheck ok 1 ''Expected a valid MySQL link'')
    (andThen (MySQL_delete mc p) (andThen (write_block ud 0) (ret 0))))))"

definition with_handler :: "'m mysql_run \<Rightarrow> (MySQL \<Rightarrow> ('m, unit) mysql) \<Rightarrow> ('m, int) mysql" where
  "with_handler run f = bnd (checkMySQLHandler run) (\<lambda>h. andThen (f h) (ret 1))"

definition MySQL_Errno :: "'m mysql_client \<Rightarrow> 'm mysql_run \<Rightarrow> ('m, int) mysql" where
  "MySQL_Errno mc run = with_handler run (\<lambda>h. bnd (lib (c_errno mc (m_handle h))) lua_pushinteger)"

definition MySQL_Error :: "'m mysql_client \<Rightarrow> 'm mysql_run \<Rightarrow> ('m, int) mysql" where
  "MySQL_Error mc run = with_handler run (\<lambda>h. bnd (lib (c_error mc (m_handle h))) (\<lambda>e. lua_pushstring (Some e)))"

definition MySQL_Ping :: "'m mysql_client \<Rightarrow> 'm mysql_run \<Rightarrow> ('m, int) mysql" where
  "MySQL_Ping mc run = with_handler run (\<lambda>h. bnd (lib (c_ping mc (m_handle h))) (\<lambda>r. lua_pushboolean (r = 0)))"

definition MySQL_SelectDB :: "'m mysql_client \<Rightarrow> 'm mysql_run \<Rightarrow> ('m, int) mysql" where
  "MySQL_SelectDB mc run = with_handler run (\<lambda>h. bnd (luaL_checkstring 2) (\<lambda>dbname.
     bnd (lib (c_select_db mc (m_handle h) dbname)) (\<lambda>r. lua_pushboolean (r = 0))))"

text \<open>The buffer holds twice the length of the argument and a terminator.\<close>

definition MySQL_EscapeString :: "'m mysql_client \<Rightarrow> 'm mysql_run \<Rightarrow> ('m, int) mysql" where
  "MySQL_EscapeString mc run = with_handler run (\<lambda>h. bnd (luaL_checklstring 2) (\<lambda>str.
     bnd (lib (c_real_escape_string mc (m_handle h) str)) (\<lambda>res.
     if length res + 1 > 2 * length str + 1 then undef else lua_pushlstring res)))"

definition MySQL_AffectedRows :: "'m mysql_client \<Rightarrow> 'm mysql_run \<Rightarrow> ('m, int) mysql" where
  "MySQL_AffectedRows mc run = with_handler run (\<lambda>h. bnd (lib (c_affected_rows mc (m_handle h)))
     (\<lambda>n. lua_pushinteger (ulonglong_to_ptrdiff n)))"

definition MySQL_ChangeUser :: "'m mysql_client \<Rightarrow> 'm mysql_run \<Rightarrow> ('m, int) mysql" where
  "MySQL_ChangeUser mc run = bnd lua_gettop (\<lambda>numargs. with_handler run (\<lambda>h.
     bnd (luaL_checkstring 2) (\<lambda>username. bnd (luaL_checkstring 3) (\<lambda>password.
     bnd (if numargs \<ge> 4 then bnd (luaL_checkstring 4) (\<lambda>d. ret (Some d)) else ret None) (\<lambda>database.
     bnd (lib (c_change_user mc (m_handle h) username password database)) (\<lambda>r. lua_pushboolean (r = 0)))))))"

definition MySQL_GetCharacterSetInfo :: "'m mysql_client \<Rightarrow> 'm mysql_run \<Rightarrow> ('m, int) mysql" where
  "MySQL_GetCharacterSetInfo mc run = bnd (checkMySQLHandler run) (\<lambda>h.
     bnd (lib (c_get_character_set_info mc (m_handle h))) (\<lambda>cs.
     andThen (lua_pushstring (Some (cs_name cs))) (andThen (lua_pushstring (Some (cs_csname cs)))
    (andThen (lua_pushstring (cs_comment cs)) (andThen (lua_pushstring (cs_dir cs))
    (andThen (lua_pushinteger (cs_mbminlen cs)) (andThen (lua_pushinteger (cs_mbmaxlen cs)) (ret 6))))))))"

definition MySQL_GetClientInfo :: "'m mysql_client \<Rightarrow> ('m, int) mysql" where
  "MySQL_GetClientInfo mc = andThen (lua_pushstring (Some (c_get_client_info mc))) (ret 1)"

definition MySQL_GetClientVersion :: "'m mysql_client \<Rightarrow> ('m, int) mysql" where
  "MySQL_GetClientVersion mc = andThen (lua_pushinteger (ulonglong_to_ptrdiff (c_get_client_version mc))) (ret 1)"

definition MySQL_GetHostInfo :: "'m mysql_client \<Rightarrow> 'm mysql_run \<Rightarrow> ('m, int) mysql" where
  "MySQL_GetHostInfo mc run = with_handler run (\<lambda>h. bnd (lib (c_get_host_info mc (m_handle h)))
     (\<lambda>e. lua_pushstring (Some e)))"

definition MySQL_GetProtoInfo :: "'m mysql_client \<Rightarrow> 'm mysql_run \<Rightarrow> ('m, int) mysql" where
  "MySQL_GetProtoInfo mc run = with_handler run (\<lambda>h. bnd (lib (c_get_proto_info mc (m_handle h)))
     (\<lambda>n. lua_pushinteger (ulonglong_to_ptrdiff n)))"

definition MySQL_GetServerInfo :: "'m mysql_client \<Rightarrow> 'm mysql_run \<Rightarrow> ('m, int) mysql" where
  "MySQL_GetServerInfo mc run = with_handler run (\<lambda>h. bnd (lib (c_get_server_info mc (m_handle h)))
     (\<lambda>e. lua_pushstring (Some e)))"

definition MySQL_GetServerVersion :: "'m mysql_client \<Rightarrow> 'm mysql_run \<Rightarrow> ('m, int) mysql" where
  "MySQL_GetServerVersion mc run = with_handler run (\<lambda>h. bnd (lib (c_get_server_version mc (m_handle h)))
     (\<lambda>n. lua_pushinteger (ulonglong_to_ptrdiff n)))"

definition MySQL_HexString :: "'m mysql_client \<Rightarrow> ('m, int) mysql" where
  "MySQL_HexString mc = bnd (luaL_checklstring 1) (\<lambda>str.
     let res = c_hex_string mc (take (nat (to_uint (int (length str)))) str) in
     if length res + 1 > 2 * length str + 1 then undef else andThen (lua_pushlstring res) (ret 1))"

definition MySQL_Info :: "'m mysql_client \<Rightarrow> 'm mysql_run \<Rightarrow> ('m, int) mysql" where
  "MySQL_Info mc run = with_handler run (\<lambda>h. bnd (lib (c_info mc (m_handle h))) lua_pushstring)"

definition MySQL_InsertID :: "'m mysql_client \<Rightarrow> 'm mysql_run \<Rightarrow> ('m, int) mysql" where
  "MySQL_InsertID mc run = with_handler run (\<lambda>h. bnd (lib (c_insert_id mc (m_handle h)))
     (\<lambda>n. lua_pushinteger (ulonglong_to_ptrdiff n)))"

definition MySQL_Query :: "'m mysql_client \<Rightarrow> 'm mysql_run \<Rightarrow> ('m, int) mysql" where
  "MySQL_Query mc run = with_handler run (\<lambda>h. bnd (luaL_checklstring 2) (\<lambda>query.
     bnd (MySQL_Query_method mc h query) (\<lambda>r. case r of
       None \<Rightarrow> lua_pushnil | Some p \<Rightarrow> push_object run ''mysqlResult'' p)))"

definition MySQL_UnbufferedQuery :: "'m mysql_client \<Rightarrow> 'm mysql_run \<Rightarrow> ('m, int) mysql" where
  "MySQL_UnbufferedQuery mc run = with_handler run (\<lambda>h. bnd (luaL_checklstring 2) (\<lambda>query.
     bnd (MySQL_UnbufferedQuery_method mc h query) (\<lambda>r. case r of
       None \<Rightarrow> lua_pushnil | Some p \<Rightarrow> push_object run ''mysqlResult'' p)))"

definition MySQL_SetCharacterSet :: "'m mysql_client \<Rightarrow> 'm mysql_run \<Rightarrow> ('m, int) mysql" where
  "MySQL_SetCharacterSet mc run = with_handler run (\<lambda>h. bnd (luaL_checkstring 2) (\<lambda>csname.
     bnd (lib (c_set_character_set mc (m_handle h) csname)) (\<lambda>r. lua_pushboolean (r = 0))))"

definition MySQL_Stat :: "'m mysql_client \<Rightarrow> 'm mysql_run \<Rightarrow> ('m, int) mysql" where
  "MySQL_Stat mc run = with_handler run (\<lambda>h. bnd (lib (c_stat mc (m_handle h))) lua_pushstring)"

definition MySQL_WarningCount :: "'m mysql_client \<Rightarrow> 'm mysql_run \<Rightarrow> ('m, int) mysql" where
  "MySQL_WarningCount mc run = with_handler run (\<lambda>h. bnd (lib (c_warning_count mc (m_handle h)))
     (\<lambda>n. lua_pushinteger (ulonglong_to_ptrdiff n)))"

section \<open>Module entry points\<close>

definition MySQL_InitModule :: "('m, bool) mysql \<Rightarrow> ('m, bool) mysql" where
  "MySQL_InitModule ImportLua = bnd ImportLua (\<lambda>ok. if \<not> ok then ret False else
     andThen (modify (\<lambda>w. w\<lparr>mysql_init_worked := True\<rparr>)) (ret True))"

definition registered_functions :: "(string \<times> string) list" where
  "registered_functions = [(''mysql_connect'', ''Connect''), (''mysql_close'', ''Close''),
     (''mysql_errno'', ''Errno''), (''mysql_error'', ''Error''), (''mysql_ping'', ''Ping''),
     (''mysql_select_db'', ''SelectDB''), (''mysql_escape_string'', ''EscapeString''),
     (''mysql_affected_rows'', ''AffectedRows''), (''mysql_change_user'', ''ChangeUser''),
     (''mysql_get_character_set_info'', ''GetCharacterSetInfo''), (''mysql_get_client_info'', ''GetClientInfo''),
     (''mysql_get_client_version'', ''GetClientVersion''), (''mysql_get_host_info'', ''GetHostInfo''),
     (''mysql_get_proto_info'', ''GetProtoInfo''), (''mysql_get_server_info'', ''GetServerInfo''),
     (''mysql_get_server_version'', ''GetServerVersion''), (''mysql_hex_string'', ''HexString''),
     (''mysql_info'', ''Info''), (''mysql_insert_id'', ''InsertID''), (''mysql_query'', ''Query''),
     (''mysql_unbuffered_query'', ''UnbufferedQuery''), (''mysql_set_character_set'', ''SetCharacterSet''),
     (''mysql_stat'', ''Stat''), (''mysql_warning_count'', ''WarningCount''), (''mysql_data_seek'', ''DataSeek''),
     (''mysql_fetch_field'', ''FetchField''), (''mysql_fields'', ''Fields''),
     (''mysql_fetch_lengths'', ''FetchLengths''), (''mysql_fetch_row'', ''FetchRow''), (''mysql_rows'', ''Rows''),
     (''mysql_fetch_assoc'', ''FetchAssoc''), (''mysql_rows_assoc'', ''RowsAssoc''),
     (''mysql_field_length'', ''FieldLength''), (''mysql_field_name'', ''FieldName''),
     (''mysql_field_seek'', ''FieldSeek''), (''mysql_field_tell'', ''FieldTell''),
     (''mysql_num_fields'', ''NumFields''), (''mysql_num_rows'', ''NumRows''), (''mysql_numfields'', ''NumFields''),
     (''mysql_numrows'', ''NumRows''), (''mysql_result'', ''Result''), (''mysql_free_result'', ''FreeResult''),
     (''mysql_null'', ''Null'')]"

definition MySQL_RegisterFunctions ::
  "(string \<Rightarrow> string \<Rightarrow> ('m, unit) mysql) \<Rightarrow> 'm mysql_run \<Rightarrow> ('m, unit) mysql" where
  "MySQL_RegisterFunctions RegisterFunction run = bnd (gets mysql_init_worked) (\<lambda>b. if \<not> b then ret () else
     andThen (Startup run) (forEach registered_functions (\<lambda>(n, f). RegisterFunction n f)))"



end
