(* ===== verification/MySQLResult.thy ===== *)
theory MySQLResult
  imports MySQLHandler
begin

text \<open>
  The result half of the MySQL module (\<open>result.cpp\<close>): the \<open>MySQL_Result\<close> class and the Lua functions
  that read fields and rows of a result.  A row is the list of its cells, \<open>None\<close> for SQL null; the
  script sees null as the light userdata \<open>get_null\<close>.
\<close>

section \<open>Tool functions\<close>

definition checkMySQLResult :: "'m mysql_run \<Rightarrow> ('m, MySQL_Result) mysql" where
  "checkMySQLResult run = bnd (luaL_checkudata run 1 ''mysqlResult'') (\<lambda>ud. bnd (read_block ud) (\<lambda>p.
     andThen (luaL_argcheck (p \<noteq> 0) 1 ''Expected a valid MySQL result'') (get_result p)))"

text \<open>The field types of \<open>mysql_com.h\<close>; \<open>MYSQL_HAS_TINY\<close> and \<open>MYSQL_HAS_YEAR\<close> are not defined in the build.\<close>

definition php_mysql_get_field_name :: "int \<Rightarrow> string" where
  "php_mysql_get_field_name t =
     (if t = 254 \<or> t = 253 then ''string''
      else if t = 2 \<or> t = 3 \<or> t = 8 \<or> t = 9 then ''int''
      else if t = 4 \<or> t = 5 \<or> t = 0 \<or> t = 246 then ''real''
      else if t = 7 then ''timestamp''
      else if t = 10 \<or> t = 14 then ''date''
      else if t = 11 then ''time''
      else if t = 248 then ''set''
      else if t = 247 then ''enum''
      else if t = 255 then ''geometry''
      else if t = 12 then ''datetime''
      else if t = 249 \<or> t = 250 \<or> t = 251 \<or> t = 252 then ''blob''
      else if t = 6 then ''null''
      else ''unknown'')"

definition has_flag :: "int \<Rightarrow> int \<Rightarrow> bool" where
  "has_flag flags f = (and flags f \<noteq> 0)"

text \<open>\<open>IS_NUM\<close> expects a type; the code applies it to the flags.\<close>

definition IS_NUM :: "int \<Rightarrow> bool" where
  "IS_NUM t = (t \<le> 9 \<or> t = 13 \<or> t = 246)"

definition IS_BLOB :: "int \<Rightarrow> bool" where
  "IS_BLOB n = has_flag n 16"

definition set_member :: "'m mysql_run \<Rightarrow> string \<Rightarrow> ('m, unit) mysql \<Rightarrow> ('m, unit) mysql" where
  "set_member run k p = andThen (lua_pushstring (Some k)) (andThen p (lua_settable run (- 3)))"

definition PushFieldData :: "'m mysql_run \<Rightarrow> MYSQL_FIELD \<Rightarrow> ('m, unit) mysql" where
  "PushFieldData run f = andThen lua_createtable
    (andThen (set_member run ''name'' (lua_pushstring (Some (f_name f))))
    (andThen (set_member run ''org_name'' (lua_pushstring (Some (f_org_name f))))
    (andThen (set_member run ''table'' (lua_pushstring (Some (f_table f))))
    (andThen (set_member run ''org_table'' (lua_pushstring (Some (f_org_table f))))
    (andThen (set_member run ''length'' (lua_pushinteger (ulonglong_to_ptrdiff (f_length f))))
    (andThen (set_member run ''max_length'' (lua_pushinteger (ulonglong_to_ptrdiff (f_max_length f))))
    (andThen (set_member run ''not_null'' (lua_pushboolean (has_flag (f_flags f) 1)))
    (andThen (set_member run ''primary_key'' (lua_pushboolean (has_flag (f_flags f) 2)))
    (andThen (set_member run ''unique_key'' (lua_pushboolean (has_flag (f_flags f) 4)))
    (andThen (set_member run ''multiple_key'' (lua_pushboolean (has_flag (f_flags f) 8)))
    (andThen (set_member run ''numeric'' (lua_pushboolean (IS_NUM (f_flags f))))
    (andThen (set_member run ''blob'' (lua_pushboolean (IS_BLOB (f_flags f))))
    (andThen (set_member run ''type'' (lua_pushstring (Some (php_mysql_get_field_name (f_type f)))))
    (andThen (set_member run ''unsigned'' (lua_pushboolean (has_flag (f_flags f) 32)))
    (set_member run ''zerofill'' (lua_pushboolean (has_flag (f_flags f) 64)))))))))))))))))"

text \<open>The address of the static character of \<open>get_null\<close>.\<close>

definition get_null :: ptr where
  "get_null = 1"

definition push_cell :: "string option \<Rightarrow> ('m, unit) mysql" where
  "push_cell c = (case c of Some str \<Rightarrow> lua_pushstring (Some str) | None \<Rightarrow> lua_pushlightuserdata get_null)"

text \<open>Reading a cell beyond the end of the row is undefined.\<close>

definition cell :: "string option list \<Rightarrow> int \<Rightarrow> ('m, string option) mysql" where
  "cell row i = (if 0 \<le> i \<and> nat i < length row then ret (row ! nat i) else undef)"

fun push_cells :: "string option list \<Rightarrow> nat \<Rightarrow> int \<Rightarrow> ('m, unit) mysql" where
  "push_cells row 0 i = ret ()"
| "push_cells row (Suc n) i = bnd (cell row i) (\<lambda>c. andThen (push_cell c)
     (andThen (lua_rawseti (- 2) (i + 1)) (push_cells row n (i + 1))))"

definition PushRowData :: "string option list \<Rightarrow> int \<Rightarrow> ('m, unit) mysql" where
  "PushRowData row numfields = andThen lua_createtable (push_cells row (nat numfields) 0)"

text \<open>
  The loop of \<open>PushRowAssoc\<close> runs until \<open>mysql_fetch_field\<close> returns no field; \<open>n\<close> is the number of fields
  it can still return, one more than the loop needs.
\<close>

fun push_assoc :: "nat \<Rightarrow> 'm mysql_client \<Rightarrow> 'm mysql_run \<Rightarrow> string option list \<Rightarrow> ptr \<Rightarrow> int \<Rightarrow> ('m, unit) mysql" where
  "push_assoc n mc run row res i = bnd (lib (c_fetch_field mc res)) (\<lambda>f. case f of
     None \<Rightarrow> ret ()
   | Some field \<Rightarrow> (case n of 0 \<Rightarrow> undef | Suc m \<Rightarrow>
       andThen (lua_pushstring (Some (f_name field))) (bnd (cell row i) (\<lambda>c. andThen (push_cell c)
         (andThen (lua_settable run (- 3)) (push_assoc m mc run row res (i + 1)))))))"

declare push_assoc.simps [simp del]

definition PushRowAssoc :: "'m mysql_client \<Rightarrow> 'm mysql_run \<Rightarrow> string option list \<Rightarrow> MySQL_Result \<Rightarrow> ('m, unit) mysql" where
  "PushRowAssoc mc run row r = bnd (lib (c_num_fields mc (m_result r))) (\<lambda>numfields.
     andThen lua_createtable (andThen (lib (c_field_seek mc (m_result r) 0))
       (push_assoc (nat numfields) mc run row (m_result r) 0)))"

section \<open>Lua functions on a result\<close>

definition Empty :: "MySQL_Result \<Rightarrow> bool" where
  "Empty r = (m_result r = 0)"

definition FetchRow_method :: "'m mysql_client \<Rightarrow> MySQL_Result \<Rightarrow> ('m, string option list option) mysql" where
  "FetchRow_method mc r = (if m_result r \<noteq> 0 then lib (c_fetch_row mc (m_result r)) else ret None)"

definition DataSeek :: "'m mysql_client \<Rightarrow> 'm mysql_run \<Rightarrow> ('m, int) mysql" where
  "DataSeek mc run = bnd (checkMySQLResult run) (\<lambda>r. bnd (luaL_checkinteger 2) (\<lambda>i.
     let offset = to_ulonglong i in
     andThen (whenever (\<not> Empty r) (lib (c_data_seek mc (m_result r) offset))) (ret 0)))"

definition FetchField :: "'m mysql_client \<Rightarrow> 'm mysql_run \<Rightarrow> ('m, int) mysql" where
  "FetchField mc run = bnd lua_gettop (\<lambda>numargs. bnd (checkMySQLResult run) (\<lambda>r.
     if Empty r then andThen lua_pushnil (ret 1) else
     bnd (lua_type 2) (\<lambda>t.
     andThen (whenever (numargs > 1 \<and> t \<noteq> LUA_TNIL) (bnd (luaL_checkinteger 2) (\<lambda>i.
       let seek = uint_to_int i in bnd (lib (c_num_fields mc (m_result r))) (\<lambda>n.
       if seek < 0 \<or> seek > uint_to_int n then luaL_error ''Bad offset in mysql_fetch_field''
       else bnd (lib (c_field_seek mc (m_result r) seek)) (\<lambda>_. ret ())))))
    (bnd (lib (c_fetch_field mc (m_result r))) (\<lambda>f.
     andThen (case f of Some field \<Rightarrow> PushFieldData run field | None \<Rightarrow> lua_pushnil) (ret 1))))))"

definition Fields_Iterator :: "'m mysql_client \<Rightarrow> 'm mysql_run \<Rightarrow> ('m, int) mysql" where
  "Fields_Iterator mc run = bnd (checkMySQLResult run) (\<lambda>r. bnd (lib (c_fetch_field mc (m_result r))) (\<lambda>f.
     andThen (case f of Some field \<Rightarrow> andThen (lua_pushvalue 1) (PushFieldData run field)
       | None \<Rightarrow> andThen lua_pushnil lua_pushnil) (ret 2)))"

definition Fields :: "'m mysql_client \<Rightarrow> 'm mysql_run \<Rightarrow> ('m, int) mysql" where
  "Fields mc run = bnd (checkMySQLResult run) (\<lambda>r. andThen (lib (c_field_seek mc (m_result r) 0))
     (andThen (lua_pushcfunction ''Fields_Iterator'') (andThen (lua_pushvalue 1) (ret 2))))"

fun push_lengths :: "int list \<Rightarrow> nat \<Rightarrow> int \<Rightarrow> ('m, unit) mysql" where
  "push_lengths ls 0 i = ret ()"
| "push_lengths ls (Suc n) i = bnd (if nat i < length ls then ret (ls ! nat i) else undef) (\<lambda>l.
     andThen (lua_pushinteger (ulonglong_to_ptrdiff l))
       (andThen (lua_rawseti (- 2) (i + 1)) (push_lengths ls n (i + 1))))"

definition FetchLengths :: "'m mysql_client \<Rightarrow> 'm mysql_run \<Rightarrow> ('m, int) mysql" where
  "FetchLengths mc run = bnd (checkMySQLResult run) (\<lambda>r.
     if Empty r then andThen lua_pushnil (ret 1) else
     bnd (lib (c_fetch_lengths mc (m_result r))) (\<lambda>lengths. andThen (case lengths of
         Some ls \<Rightarrow> bnd (lib (c_num_fields mc (m_result r))) (\<lambda>n.
           andThen lua_createtable (push_lengths ls (nat n) 0))
       | None \<Rightarrow> lua_pushnil) (ret 1)))"

definition FreeResult :: "'m mysql_client \<Rightarrow> 'm mysql_run \<Rightarrow> ('m, int) mysql" where
  "FreeResult mc run = bnd (luaL_checkudata run 1 ''mysqlResult'') (\<lambda>ud. bnd (read_block ud) (\<lambda>p.
     andThen (whenever (p \<noteq> 0) (andThen (MySQL_Result_delete mc p) (write_block ud 0))) (ret 0)))"

definition FetchRow :: "'m mysql_client \<Rightarrow> 'm mysql_run \<Rightarrow> ('m, int) mysql" where
  "FetchRow mc run = bnd (checkMySQLResult run) (\<lambda>r.
     if Empty r then andThen lua_pushnil (ret 1) else
     bnd (FetchRow_method mc r) (\<lambda>row. andThen (case row of
         None \<Rightarrow> lua_pushnil
       | Some cs \<Rightarrow> bnd (lib (c_num_fields mc (m_result r))) (PushRowData cs)) (ret 1)))"

definition Rows_Iterator :: "'m mysql_client \<Rightarrow> 'm mysql_run \<Rightarrow> ('m, int) mysql" where
  "Rows_Iterator mc run = bnd (checkMySQLResult run) (\<lambda>r. bnd (FetchRow_method mc r) (\<lambda>row.
     andThen (case row of
         Some cs \<Rightarrow> andThen (lua_pushvalue 1) (bnd (lib (c_num_fields mc (m_result r))) (PushRowData cs))
       | None \<Rightarrow> andThen lua_pushnil lua_pushnil) (ret 2)))"

definition Rows :: "'m mysql_client \<Rightarrow> 'm mysql_run \<Rightarrow> ('m, int) mysql" where
  "Rows mc run = bnd (checkMySQLResult run) (\<lambda>r.
     andThen (whenever (\<not> Empty r) (lib (c_data_seek mc (m_result r) 0)))
    (andThen (lua_pushcfunction ''Rows_Iterator'') (andThen (lua_pushvalue 1) (ret 2))))"

definition FetchAssoc :: "'m mysql_client \<Rightarrow> 'm mysql_run \<Rightarrow> ('m, int) mysql" where
  "FetchAssoc mc run = bnd (checkMySQLResult run) (\<lambda>r.
     if Empty r then andThen lua_pushnil (ret 1) else
     bnd (FetchRow_method mc r) (\<lambda>row. andThen (case row of
         None \<Rightarrow> lua_pushnil | Some cs \<Rightarrow> PushRowAssoc mc run cs r) (ret 1)))"

definition Rows_Assoc_Iterator :: "'m mysql_client \<Rightarrow> 'm mysql_run \<Rightarrow> ('m, int) mysql" where
  "Rows_Assoc_Iterator mc run = bnd (checkMySQLResult run) (\<lambda>r. bnd (FetchRow_method mc r) (\<lambda>row.
     andThen (case row of
         Some cs \<Rightarrow> andThen (lua_pushvalue 1) (PushRowAssoc mc run cs r)
       | None \<Rightarrow> andThen lua_pushnil lua_pushnil) (ret 2)))"

definition RowsAssoc :: "'m mysql_client \<Rightarrow> 'm mysql_run \<Rightarrow> ('m, int) mysql" where
  "RowsAssoc mc run = bnd (checkMySQLResult run) (\<lambda>r.
     andThen (whenever (\<not> Empty r) (lib (c_data_seek mc (m_result r) 0)))
    (andThen (lua_pushcfunction ''Rows_Assoc_Iterator'') (andThen (lua_pushvalue 1) (ret 2))))"

text \<open>The offset check the functions with a field offset share; offsets count from 1.\<close>

definition field_offset ::
  "'m mysql_client \<Rightarrow> 'm mysql_run \<Rightarrow> string \<Rightarrow> (MySQL_Result \<Rightarrow> int \<Rightarrow> ('m, unit) mysql) \<Rightarrow> ('m, int) mysql" where
  "field_offset mc run msg f = bnd (checkMySQLResult run) (\<lambda>r. bnd (luaL_checkinteger 2) (\<lambda>i.
     let offset = to_uint i in
     if Empty r then andThen lua_pushnil (ret 1) else
     bnd (lib (c_num_fields mc (m_result r))) (\<lambda>n.
     if offset < 1 \<or> offset > n then andThen (ErrorPrintf msg) (andThen lua_pushnil (ret 1))
     else andThen (f r offset) (ret 1))))"

definition FieldLength :: "'m mysql_client \<Rightarrow> 'm mysql_run \<Rightarrow> ('m, int) mysql" where
  "FieldLength mc run = field_offset mc run (''Invalid offset in mysql_field_length'' @ [CHR 0x0A]) (\<lambda>r offset.
     bnd (lib (c_fetch_lengths mc (m_result r))) (\<lambda>ls. bnd (defined ls) (\<lambda>lengths.
     if nat (offset - 1) < length lengths then lua_pushinteger (ulonglong_to_ptrdiff (lengths ! nat (offset - 1)))
     else undef)))"

definition FieldName :: "'m mysql_client \<Rightarrow> 'm mysql_run \<Rightarrow> ('m, int) mysql" where
  "FieldName mc run = field_offset mc run (''Invalid offset in mysql_field_name'' @ [CHR 0x0A]) (\<lambda>r offset.
     andThen (lib (c_field_seek mc (m_result r) (offset - 1)))
    (bnd (lib (c_fetch_field mc (m_result r))) (\<lambda>f. case f of
       None \<Rightarrow> lua_pushnil | Some field \<Rightarrow> lua_pushstring (Some (f_name field)))))"

definition FieldSeek :: "'m mysql_client \<Rightarrow> 'm mysql_run \<Rightarrow> ('m, int) mysql" where
  "FieldSeek mc run = field_offset mc run (''Invalid offset in mysql_field_seek'' @ [CHR 0x0A]) (\<lambda>r offset.
     bnd (lib (c_field_seek mc (m_result r) (offset - 1))) (\<lambda>oldoffset. lua_pushinteger (to_uint (oldoffset + 1))))"

definition FieldTell :: "'m mysql_client \<Rightarrow> 'm mysql_run \<Rightarrow> ('m, int) mysql" where
  "FieldTell mc run = bnd (checkMySQLResult run) (\<lambda>r.
     if Empty r then andThen lua_pushnil (ret 1) else
     bnd (lib (c_field_tell mc (m_result r))) (\<lambda>offset. andThen (lua_pushinteger (to_uint (offset + 1))) (ret 1)))"

definition NumFields :: "'m mysql_client \<Rightarrow> 'm mysql_run \<Rightarrow> ('m, int) mysql" where
  "NumFields mc run = bnd (checkMySQLResult run) (\<lambda>r.
     andThen (if Empty r then lua_pushinteger 0 else bnd (lib (c_num_fields mc (m_result r))) lua_pushinteger) (ret 1))"

definition NumRows :: "'m mysql_client \<Rightarrow> 'm mysql_run \<Rightarrow> ('m, int) mysql" where
  "NumRows mc run = bnd (checkMySQLResult run) (\<lambda>r.
     andThen (if Empty r then lua_pushinteger 0
       else bnd (lib (c_num_rows mc (m_result r))) (\<lambda>n. lua_pushinteger (ulonglong_to_ptrdiff n))) (ret 1))"

definition Result :: "'m mysql_client \<Rightarrow> 'm mysql_run \<Rightarrow> ('m, int) mysql" where
  "Result mc run = bnd (checkMySQLResult run) (\<lambda>r. bnd (luaL_checkinteger 2) (\<lambda>i. bnd (luaL_checkinteger 3) (\<lambda>j.
     let rowoffset = to_ulonglong i; fieldoffset = to_uint j in
     if Empty r then andThen lua_pushnil (ret 1) else
     bnd (lib (c_num_rows mc (m_result r))) (\<lambda>nr.
     if rowoffset < 1 \<or> rowoffset > nr then
       andThen (ErrorPrintf (''Invalid row offset in mysql_result'' @ [CHR 0x0A])) (andThen lua_pushnil (ret 1))
     else bnd (lib (c_num_fields mc (m_result r))) (\<lambda>nf.
     if fieldoffset < 1 \<or> fieldoffset > nf then
       andThen (ErrorPrintf (''Invalid field offset in mysql_result'' @ [CHR 0x0A])) (andThen lua_pushnil (ret 1))
     else andThen (lib (c_data_seek mc (m_result r) (rowoffset - 1)))
    (bnd (FetchRow_method mc r) (\<lambda>row. andThen (case row of
         None \<Rightarrow> lua_pushnil | Some cs \<Rightarrow> bnd (cell cs (fieldoffset - 1)) push_cell) (ret 1))))))))"

definition Null :: "('m, int) mysql" where
  "Null = andThen (lua_pushlightuserdata get_null) (ret 1)"

end
