(* ===== verification/MySQLSpec.thy ===== *)
theory MySQLSpec
  imports MySQLResult
begin

text \<open>
  Properties of the MySQL module: the life of a connection object behind its userdata, the client
  flags, method lookup, and what the result functions return for the rows and fields the client
  library delivers.
\<close>

section \<open>Connections\<close>

definition handler_functions :: "'m mysql_client \<Rightarrow> 'm mysql_run \<Rightarrow> ('m, int) mysql list" where
  "handler_functions mc run = [MySQL_Close mc run, MySQL_Errno mc run, MySQL_Error mc run, MySQL_Ping mc run,
     MySQL_SelectDB mc run, MySQL_EscapeString mc run, MySQL_AffectedRows mc run, MySQL_ChangeUser mc run,
     MySQL_GetCharacterSetInfo mc run, MySQL_GetHostInfo mc run, MySQL_GetProtoInfo mc run,
     MySQL_GetServerInfo mc run, MySQL_GetServerVersion mc run, MySQL_Info mc run, MySQL_InsertID mc run,
     MySQL_Query mc run, MySQL_UnbufferedQuery mc run, MySQL_SetCharacterSet mc run, MySQL_Stat mc run,
     MySQL_WarningCount mc run]"

lemmas handler_function_defs = MySQL_Errno_def MySQL_Error_def MySQL_Ping_def MySQL_SelectDB_def
  MySQL_EscapeString_def MySQL_AffectedRows_def MySQL_ChangeUser_def MySQL_GetCharacterSetInfo_def
  MySQL_GetHostInfo_def MySQL_GetProtoInfo_def MySQL_GetServerInfo_def MySQL_GetServerVersion_def
  MySQL_Info_def MySQL_InsertID_def MySQL_Query_def MySQL_UnbufferedQuery_def MySQL_SetCharacterSet_def
  MySQL_Stat_def MySQL_WarningCount_def

lemma checkMySQLHandler_closed:
  assumes "is_object w ''mysqlHandler'' ud u" and "ublock u = Some 0"
  shows "\<exists>msg st. checkMySQLHandler run w = Throw (TString msg) (w\<lparr>stack := st\<rparr>)"
proof -
  obtain msg where "(luaL_argerror 1 ''Expected a valid MySQL link'' w :: (TValue, unit, _) outcome)
      = Throw (TString msg) (w\<lparr>stack := stack w @ [TString msg]\<rparr>)"
    using luaL_argerror_throws by blast
  moreover have "udatas w ud = Some u" using assms by (simp add: is_object_def)
  ultimately show ?thesis using assms
    by (auto simp: checkMySQLHandler_def run_simps api_simps)
qed

lemma closed_handler_throws:
  assumes "is_object w ''mysqlHandler'' ud u" and "ublock u = Some 0"
    and "f \<in> set (handler_functions mc run)"
  shows "\<exists>msg st. f w = Throw (TString msg) (w\<lparr>stack := st\<rparr>)"
proof -
  obtain msg st where c: "checkMySQLHandler run w = Throw (TString msg) (w\<lparr>stack := st\<rparr>)"
    using checkMySQLHandler_closed [OF assms(1,2)] by blast
  obtain msg' where e: "(luaL_argerror 1 ''Expected a valid MySQL link'' w :: (TValue, unit, _) outcome)
      = Throw (TString msg') (w\<lparr>stack := stack w @ [TString msg']\<rparr>)"
    using luaL_argerror_throws by blast
  have "udatas w ud = Some u" using assms by (simp add: is_object_def)
  then have close: "MySQL_Close mc run w = Throw (TString msg') (w\<lparr>stack := stack w @ [TString msg']\<rparr>)"
    using assms(1,2) e by (simp add: MySQL_Close_def run_simps api_simps)
  show ?thesis using assms(3) c close
    by (auto simp: handler_functions_def handler_function_defs with_handler_def run_simps lua_gettop_def)
qed

lemma MySQL_Close_spec:
  assumes "is_object w ''mysqlHandler'' ud u" and "ublock u = Some p" and "p \<noteq> 0"
    and "handlers w p = Some h" and "m_ok h" and "m_handle h \<noteq> 0" and "c_close mc (m_handle h) (db w) = Some ((), m)"
  shows "MySQL_Close mc run w = Ret 0 (w\<lparr>db := m, handlers := (handlers w)(p := None),
    udatas := (udatas w)(ud \<mapsto> u\<lparr>ublock := Some 0\<rparr>)\<rparr>)"
proof -
  have "udatas w ud = Some u" using assms by (simp add: is_object_def)
  then show ?thesis using assms
    by (simp add: MySQL_Close_def run_simps api_simps get_handler_def MySQL_delete_def MySQL_Close_method_def lib_def)
qed

lemma is_object_update:
  "is_object w t ud u \<Longrightarrow> is_object (w\<lparr>db := m, handlers := hs, udatas := (udatas w)(ud \<mapsto> u\<lparr>ublock := b\<rparr>)\<rparr>) t ud (u\<lparr>ublock := b\<rparr>)"
  by (erule is_object_cong) simp_all

section \<open>A concrete client library\<close>

text \<open>One connection, handle 50; one result, handle 60, with two rows of two columns.  The state is
  the list of valid connection handles, the current row and the current field.\<close>

type_synonym demo = "ptr list \<times> nat \<times> nat"

definition demo_rows :: "string option list list" where
  "demo_rows = [[Some ''1'', Some ''a''], [Some ''2'', None]]"

definition demo_fields :: "MYSQL_FIELD list" where
  "demo_fields = map (\<lambda>n. \<lparr>f_name = n, f_org_name = n, f_table = ''t'', f_org_table = ''t'', f_length = 11,
     f_max_length = 1, f_flags = 0, f_type = 253\<rparr>) [''id'', ''name'']"

definition on_conn :: "ptr \<Rightarrow> 'a \<Rightarrow> (demo, 'a) lib" where
  "on_conn h a = (\<lambda>m. if h \<in> set (fst m) then Some (a, m) else None)"

definition on_result :: "ptr \<Rightarrow> (nat \<Rightarrow> nat \<Rightarrow> 'a \<times> nat \<times> nat) \<Rightarrow> (demo, 'a) lib" where
  "on_result r f = (\<lambda>(cs, row, fld). if r \<noteq> 60 then None
     else (case f row fld of (a, row', fld') \<Rightarrow> Some (a, (cs, row', fld'))))"

definition demo_client :: "demo mysql_client" where
  "demo_client = \<lparr>c_init = (\<lambda>(cs, x). Some (50, (50 # cs, x))), c_options_noreconnect = (\<lambda>h. on_conn h ()),
     c_real_connect = (\<lambda>h ca. on_conn h True), c_errno = (\<lambda>h. on_conn h 0), c_error = (\<lambda>h. on_conn h []),
     c_close = (\<lambda>h (cs, x). if h \<in> set cs then Some ((), (filter (\<lambda>c. c \<noteq> h) cs, x)) else None),
     c_ping = (\<lambda>h. on_conn h 0), c_select_db = (\<lambda>h d. on_conn h 0), c_real_escape_string = (\<lambda>h s. on_conn h s),
     c_affected_rows = (\<lambda>h. on_conn h 0), c_change_user = (\<lambda>h a b c. on_conn h 0),
     c_get_character_set_info = (\<lambda>h. on_conn h \<lparr>cs_name = ''utf8'', cs_csname = ''utf8'', cs_comment = None,
       cs_dir = None, cs_mbminlen = 1, cs_mbmaxlen = 3\<rparr>),
     c_get_client_info = ''5.0'', c_get_client_version = 50000, c_get_host_info = (\<lambda>h. on_conn h ''localhost''),
     c_get_proto_info = (\<lambda>h. on_conn h 10), c_get_server_info = (\<lambda>h. on_conn h ''5.0''),
     c_get_server_version = (\<lambda>h. on_conn h 50000), c_hex_string = (\<lambda>s. concat (map (\<lambda>_. ''00'') s)),
     c_info = (\<lambda>h. on_conn h None), c_insert_id = (\<lambda>h. on_conn h 0), c_real_query = (\<lambda>h q. on_conn h 0),
     c_store_result = (\<lambda>h. on_conn h 60), c_use_result = (\<lambda>h. on_conn h 60), c_field_count = (\<lambda>h. on_conn h 2),
     c_set_character_set = (\<lambda>h s. on_conn h 0), c_stat = (\<lambda>h. on_conn h None), c_warning_count = (\<lambda>h. on_conn h 0),
     c_free_result = (\<lambda>r. on_result r (\<lambda>i j. ((), i, j))),
     c_data_seek = (\<lambda>r k. on_result r (\<lambda>i j. ((), nat k, j))),
     c_fetch_field = (\<lambda>r. on_result r (\<lambda>i j. if j < 2 then (Some (demo_fields ! j), i, j + 1) else (None, i, j))),
     c_fetch_lengths = (\<lambda>r. on_result r (\<lambda>i j. (None, i, j))),
     c_fetch_row = (\<lambda>r. on_result r (\<lambda>i j. if i < 2 then (Some (demo_rows ! i), i + 1, j) else (None, i, j))),
     c_field_seek = (\<lambda>r k. on_result r (\<lambda>i j. (int j, i, nat k))),
     c_field_tell = (\<lambda>r. on_result r (\<lambda>i j. (int j, i, j))),
     c_num_fields = (\<lambda>r. on_result r (\<lambda>i j. (2, i, j))), c_num_rows = (\<lambda>r. on_result r (\<lambda>i j. (2, i, j)))\<rparr>"

text \<open>A machine with both metatables, a connection object 1 and a result object 2, and the userdata of one of them as
  argument 1.\<close>

definition demo_world :: "ptr \<Rightarrow> TValue list \<Rightarrow> demo mysql_world" where
  "demo_world ud args = lua_State.extend ((new_state [] (TUserData ud # args))\<lparr>
     tables := [1 \<mapsto> \<lparr>entries = [(TString ''mysqlHandler'', TTable 3), (TString ''mysqlResult'', TTable 4)], metatable = 0\<rparr>,
                2 \<mapsto> new_table, 3 \<mapsto> new_table, 4 \<mapsto> new_table], next_obj := 5,
     udatas := [1000 \<mapsto> \<lparr>ulen = 8, umetatable = 3, uenv = 2, ublock = Some 1\<rparr>,
                1001 \<mapsto> \<lparr>ulen = 8, umetatable = 4, uenv = 2, ublock = Some 2\<rparr>]\<rparr>)
     (mysql_world.fields [1 \<mapsto> \<lparr>m_handle = 50, m_ok = True, m_numHandler = 0\<rparr>]
        [2 \<mapsto> \<lparr>m_result = 60, m_numResult = 0\<rparr>] 3 1 1 False False True ([50], 0, 0) [])"

lemma demo_handler: "is_object (demo_world 1000 args) ''mysqlHandler'' 1000 \<lparr>ulen = 8, umetatable = 3, uenv = 2, ublock = Some 1\<rparr>"
  by (simp add: is_object_def demo_world_def new_state_def arg_def table_get_def luaH_get_def slot_def
      luaO_rawequalObj_def lua_State.extend_def mysql_world.defs c_str_def nul_def)

lemma demo_result: "is_object (demo_world 1001 args) ''mysqlResult'' 1001 \<lparr>ulen = 8, umetatable = 4, uenv = 2, ublock = Some 2\<rparr>"
  by (simp add: is_object_def demo_world_def new_state_def arg_def table_get_def luaH_get_def slot_def
      luaO_rawequalObj_def lua_State.extend_def mysql_world.defs c_str_def nul_def)

lemma demo_fields_of_world:
  "handlers (demo_world ud args) = [1 \<mapsto> \<lparr>m_handle = 50, m_ok = True, m_numHandler = 0\<rparr>]"
  "results (demo_world ud args) = [2 \<mapsto> \<lparr>m_result = 60, m_numResult = 0\<rparr>]"
  "db (demo_world ud args) = ([50], 0, 0)" "stack (demo_world ud args) = TUserData ud # args"
  "udatas (demo_world ud args) 1000 = Some \<lparr>ulen = 8, umetatable = 3, uenv = 2, ublock = Some 1\<rparr>"
  "udatas (demo_world ud args) 1001 = Some \<lparr>ulen = 8, umetatable = 4, uenv = 2, ublock = Some 2\<rparr>"
  by (simp_all add: demo_world_def new_state_def lua_State.extend_def mysql_world.defs)



text \<open>The collector's \<open>HandlerGC\<close> frees the object but leaves the pointer in the userdata: a script that calls the
  metamethod itself and then uses the connection reads freed memory.\<close>

theorem gc_then_use_is_undefined:
  assumes "is_object w ''mysqlHandler'' ud u" and "ublock u = Some p" and "p \<noteq> 0"
    and "handlers w p = Some h" and "m_handle h \<noteq> 0" and "c_close mc (m_handle h) (db w) = Some ((), m)"
  shows "\<exists>t. HandlerGC mc run w = Ret 0 t \<and> MySQL_Ping mc run t = Undef"
proof -
  let ?t = "w\<lparr>db := m, handlers := (handlers w)(p := None)\<rparr>"
  have ud: "udatas w ud = Some u" using assms by (simp add: is_object_def)
  have gc: "HandlerGC mc run w = Ret 0 ?t"
    using assms ud by (simp add: HandlerGC_def run_simps api_simps MySQL_delete_def MySQL_Close_method_def
        get_handler_def lib_def)
  have "is_object ?t ''mysqlHandler'' ud u"
    by (rule is_object_cong [OF assms(1)]) (simp_all add: ud)
  then have "MySQL_Ping mc run ?t = Undef"
    using assms(2,3) ud by (simp add: MySQL_Ping_def with_handler_def checkMySQLHandler_def run_simps api_simps get_handler_def)
  with gc show ?thesis by blast
qed

theorem gc_then_use_is_undefined_witness:
  "\<exists>t. HandlerGC demo_client (\<lambda>_. ret []) (demo_world 1000 []) = Ret 0 t
     \<and> MySQL_Ping demo_client (\<lambda>_. ret []) t = Undef"
  using gc_then_use_is_undefined [OF demo_handler, of 1 "[]" "\<lparr>m_handle = 50, m_ok = True, m_numHandler = 0\<rparr>"
      demo_client "([], 0, 0)" "\<lambda>_. ret []"]
  by (auto simp: demo_fields_of_world demo_client_def)

section \<open>Client flags\<close>

definition flag_of :: "string \<Rightarrow> int" where
  "flag_of t = (case List.find (\<lambda>nf. take (length t) (map lower (fst nf)) = map lower t) client_flags of
     Some nf \<Rightarrow> snd nf | None \<Rightarrow> 0)"

fun join_flags :: "string list \<Rightarrow> string" where
  "join_flags [] = []"
| "join_flags [t] = t"
| "join_flags (t # ts) = t @ CHR ''|'' # join_flags ts"

lemma strncaseeq_prefix:
  "strncaseeq name (t @ rest) (length t) \<longleftrightarrow> take (length t) (map lower name) = map lower t"
proof (induction t arbitrary: name)
  case (Cons c t)
  then show ?case by (cases name) auto
qed simp

lemma getClientFlag_flag_of: "getClientFlag (t @ rest) (length t) = flag_of t"
proof -
  have "find_flag fs (t @ rest) (length t) = (case List.find (\<lambda>nf. take (length t) (map lower (fst nf)) = map lower t) fs of
      Some nf \<Rightarrow> snd nf | None \<Rightarrow> 0)" for fs
    by (induction fs) (auto simp: strncaseeq_prefix)
  then show ?thesis by (simp add: getClientFlag_def flag_of_def)
qed

declare parse_flags.simps [simp del]

lemma takeWhile_bar: "CHR ''|'' \<notin> set t \<Longrightarrow> takeWhile (\<lambda>c. c \<noteq> CHR ''|'') (t @ CHR ''|'' # rest) = t"
  by (induction t) auto

lemma dropWhile_bar: "CHR ''|'' \<notin> set t \<Longrightarrow> dropWhile (\<lambda>c. c \<noteq> CHR ''|'') (t @ CHR ''|'' # rest) = CHR ''|'' # rest"
  by (induction t) auto

lemma parse_flags_step:
  "CHR ''|'' \<notin> set t \<Longrightarrow> parse_flags (t @ CHR ''|'' # rest) acc = parse_flags rest (or acc (flag_of t))"
  by (subst parse_flags.simps) (simp add: takeWhile_bar dropWhile_bar getClientFlag_flag_of)

lemma parse_flags_last:
  assumes "CHR ''|'' \<notin> set t" and "t \<noteq> []"
  shows "parse_flags t acc = or acc (flag_of t)"
proof -
  have d: "dropWhile (\<lambda>c. c \<noteq> CHR ''|'') t = []" using assms by (auto simp: dropWhile_eq_Nil_conv)
  show ?thesis
    unfolding parse_flags.simps [of t acc] d using getClientFlag_flag_of [of t "[]"] assms(2) by simp
qed

text \<open>C24: The client flags of a list of non-empty names separated by bars are the union of the flags of the
  names, where a name means the first known flag that starts with it, letters compared without case.\<close>

theorem client_flags_of_names:
  assumes "\<forall>t \<in> set ts. t \<noteq> [] \<and> CHR ''|'' \<notin> set t"
  shows "parse_flags (join_flags ts) acc = foldl (\<lambda>a t. or a (flag_of t)) acc ts"
  using assms
proof (induction ts arbitrary: acc rule: join_flags.induct)
  case 1
  then show ?case by (simp add: parse_flags.simps)
next
  case (2 t)
  then show ?case by (simp add: parse_flags_last)
next
  case (3 t u us)
  then show ?case by (simp add: parse_flags_step)
qed

theorem client_flags_of_names_witness: "parse_flags ''ODBC|found'' 0 = 66"
proof -
  have "parse_flags (join_flags [''ODBC'', ''found'']) 0 = foldl (\<lambda>a t. or a (flag_of t)) 0 [''ODBC'', ''found'']"
    by (rule client_flags_of_names) simp
  moreover have "flag_of ''ODBC'' = 64" "flag_of ''found'' = 2" by code_simp+
  ultimately show ?thesis by simp
qed

text \<open>An empty name between two bars, or before the first, is taken for the first flag of the table: it switches
  compression on.\<close>

theorem empty_flag_name_compresses: "parse_flags (CHR ''|'' # rest) acc = parse_flags rest (or acc 32)"
  using parse_flags_step [of "[]" rest acc] by (simp add: flag_of_def client_flags_def)

section \<open>Method lookup\<close>


section \<open>Results\<close>

lemma checkMySQLResult_ok [api_simps]:
  assumes "is_object w ''mysqlResult'' ud u" and "ublock u = Some p" and "p \<noteq> 0" and "results w p = Some r"
  shows "checkMySQLResult run w = Ret r w"
proof -
  have "udatas w ud = Some u" using assms by (simp add: is_object_def)
  then show ?thesis using assms by (simp add: checkMySQLResult_def run_simps api_simps get_result_def)
qed

lemma luaL_checkinteger_int [api_simps]:
  assumes "0 < i" and "arg s i = TNumber (Fin (of_int n))" and "- (2 ^ 63) \<le> n" and "n < 2 ^ 63"
  shows "luaL_checkinteger i s = Ret n s"
  using assms by (simp add: luaL_checkinteger_def lua_tointeger_def lua_isnumber_def run_simps api_simps
      luaV_tonumber_def to_ptrdiff_def)



text \<open>C25: After \<open>mysql_field_seek(res, i)\<close> with an offset in range, \<open>mysql_field_tell(res)\<close> returns \<open>i\<close>, provided the
  library's own tell returns the offset last sought.\<close>

theorem field_seek_tell:
  assumes o: "is_object w ''mysqlResult'' ud u" and "ublock u = Some p" and "p \<noteq> 0" and "results w p = Some r"
    and "m_result r \<noteq> 0" and "arg w 2 = TNumber (Fin (of_int i))" and "1 \<le> i" and "i \<le> nf" and "i < 2 ^ 32"
    and "c_num_fields mc (m_result r) (db w) = Some (nf, m)"
    and "c_field_seek mc (m_result r) (i - 1) m = Some (old, m1)"
    and "c_field_tell mc (m_result r) m1 = Some (i - 1, m2)"
  shows "\<exists>t t'. FieldSeek mc run w = Ret 1 t \<and> FieldTell mc run t = Ret 1 t'
    \<and> last (stack t') = TNumber (double_of_int i)"
proof -
  let ?t = "w\<lparr>db := m1, stack := stack w @ [TNumber (double_of_int (to_uint (old + 1)))]\<rparr>"
  have u: "udatas w ud = Some u" and a: "arg w 1 = TUserData ud" using o by (simp_all add: is_object_def)
  have i: "to_uint i = i" using assms by (simp add: to_uint_def)
  have "luaL_checkinteger 2 w = Ret i w" using assms by (simp add: luaL_checkinteger_int)
  then have seek: "FieldSeek mc run w = Ret 1 ?t"
    using checkMySQLResult_ok [OF assms(1-4), of run] assms i
    by (simp add: FieldSeek_def field_offset_def run_simps Empty_def lib_def api_simps Let_def)
  have "arg ?t 1 = TUserData ud" using a by (auto simp: arg_def nth_append split: if_splits)
  then have "is_object ?t ''mysqlResult'' ud u" using o by (simp add: is_object_def table_get_def)
  then have "checkMySQLResult run ?t = Ret r ?t" using assms(2-4) by (intro checkMySQLResult_ok) simp_all
  then have "FieldTell mc run ?t = Ret 1 (w\<lparr>db := m2, stack := stack ?t @ [TNumber (double_of_int i)]\<rparr>)"
    using assms i by (simp add: FieldTell_def run_simps Empty_def lib_def api_simps)
  with seek show ?thesis
    by (intro exI [of _ ?t] exI [of _ "w\<lparr>db := m2, stack := stack ?t @ [TNumber (double_of_int i)]\<rparr>"]) simp
qed

theorem field_seek_tell_witness:
  "\<exists>t t'. FieldSeek demo_client (\<lambda>_. ret []) (demo_world 1001 [TNumber (Fin (of_int 2))]) = Ret 1 t
    \<and> FieldTell demo_client (\<lambda>_. ret []) t = Ret 1 t' \<and> last (stack t') = TNumber (double_of_int 2)"
  by (rule field_seek_tell [OF demo_result, where p = 2 and r = "\<lparr>m_result = 60, m_numResult = 0\<rparr>" and nf = 2 and m = "([50], 0, 0)" and old = 0
      and ?m1.0 = "([50], 0, 1)" and ?m2.0 = "([50], 0, 1)"])
    (simp_all add: demo_fields_of_world demo_client_def on_result_def arg_def)

section \<open>Rows and fields as tables\<close>

definition cell_value :: "string option \<Rightarrow> TValue" where
  "cell_value c = (case c of Some str \<Rightarrow> TString (c_str str) | None \<Rightarrow> TLightUserData get_null)"

definition row_entries :: "string option list \<Rightarrow> nat \<Rightarrow> (TValue \<times> TValue) list" where
  "row_entries row n = map (\<lambda>i. (TNumber (Fin (of_nat (i + 1))), cell_value (row ! i))) [0..<n]"

lemma push_cell_apply [api_simps]: "push_cell c s = Ret () (s\<lparr>stack := stack s @ [cell_value c]\<rparr>)"
  by (simp add: push_cell_def cell_value_def api_simps split: option.split)

lemma row_entries_Suc: "row_entries row (Suc n) = row_entries row n @ [(TNumber (Fin (of_nat (n + 1))), cell_value (row ! n))]"
  by (simp add: row_entries_def)

lemma row_slot_fresh: "slot \<lparr>entries = row_entries row k, metatable = 0\<rparr> (TNumber (Fin (rat_of_int (int k + 1)))) = None"
proof -
  have "of_nat (i + 1) \<noteq> (rat_of_int (int k + 1))" if "i < k" for i
  proof -
    have "rat_of_nat (i + 1) \<noteq> rat_of_nat (k + 1)" using that by (simp only: of_nat_eq_iff)
    moreover have "rat_of_int (int k + 1) = rat_of_nat (k + 1)" by simp
    ultimately show ?thesis by metis
  qed
  then show ?thesis by (force simp: slot_def find_None_iff row_entries_def rawequal_iff)
qed

lemma push_cells_spec:
  assumes "stack s = st @ [TTable p]" and "tables s p = Some \<lparr>entries = row_entries row k, metatable = 0\<rparr>"
    and "k + n \<le> length row"
  shows "push_cells row n (int k) s = Ret () (s\<lparr>tables := (tables s)(p \<mapsto>
    \<lparr>entries = row_entries row (k + n), metatable = 0\<rparr>)\<rparr>)"
  using assms
proof (induction n arbitrary: k s)
  case 0
  then show ?case by (simp add: fun_upd_idem)
next
  case (Suc n)
  let ?t = "\<lparr>entries = row_entries row k, metatable = 0\<rparr>"
  let ?s = "s\<lparr>stack := st @ [TTable p, cell_value (row ! k)]\<rparr>"
  let ?u = "s\<lparr>tables := (tables s)(p \<mapsto> \<lparr>entries = row_entries row (Suc k), metatable = 0\<rparr>)\<rparr>"
  have "lua_rawseti (- 2) (int k + 1) ?s = Ret () (?s\<lparr>stack := st @ [TTable p],
      tables := (tables ?s)(p \<mapsto> ?t\<lparr>entries := entries ?t @ [(TNumber (Fin (of_int (int k + 1))), cell_value (row ! k))]\<rparr>)\<rparr>)"
    using Suc.prems by (intro lua_rawseti_new row_slot_fresh) simp_all
  also have "\<dots> = Ret () ?u" by (simp add: row_entries_Suc add.commute Suc.prems(1) [symmetric])
  finally have "push_cells row (Suc n) (int k) s = push_cells row n (int (Suc k)) ?u"
    using Suc.prems by (simp add: run_simps cell_def api_simps add.commute)
  also have "\<dots> = Ret () (?u\<lparr>tables := (tables ?u)(p \<mapsto> \<lparr>entries = row_entries row (Suc k + n), metatable = 0\<rparr>)\<rparr>)"
    using Suc.prems by (intro Suc.IH) simp_all
  also have "\<dots> = Ret () (s\<lparr>tables := (tables s)(p \<mapsto> \<lparr>entries = row_entries row (k + Suc n), metatable = 0\<rparr>)\<rparr>)"
    by simp
  finally show ?case .
qed



lemma set_member_new:
  assumes "stack s = st @ [TTable p]" and "tables s p = Some h" and "metatable h = 0"
    and "slot h (TString (c_str k)) = None"
    and "\<And>t. push_value t = Ret () (t\<lparr>stack := stack t @ [v]\<rparr>)"
  shows "set_member run k push_value s = Ret () (s\<lparr>tables := (tables s)(p \<mapsto> h\<lparr>entries := entries h @ [(TString (c_str k), v)]\<rparr>)\<rparr>)"
proof -
  let ?s = "s\<lparr>stack := st @ [TTable p, TString (c_str k), v]\<rparr>"
  have "lua_settable run (- 3) ?s = Ret () (?s\<lparr>stack := st @ [TTable p],
      tables := (tables ?s)(p \<mapsto> h\<lparr>entries := entries h @ [(TString (c_str k), v)]\<rparr>)\<rparr>)"
    using assms by (intro lua_settable_new) simp_all
  then show ?thesis using assms(1,5) by (simp add: set_member_def run_simps api_simps)
qed

end
