(* ===== verification/TxdFormat.thy ===== *)
theory TxdFormat
  imports StdMap
begin

text \<open>
  The TXD writer of the Texturizer (\<open>ChunkInfo.hpp\<close>, \<open>TextureDictionary.cpp\<close>, \<open>TextureExtra.cpp\<close>):
  the chunk structures with their fields at their width, the dictionary with its map of textures,
  and the bytes \<open>Write\<close> puts into the file, in the byte order of the machines the module runs on.
  A pointer to a block of bytes is the block itself, \<open>None\<close> being the null pointer; a write of
  more bytes than the block holds is undefined (\<open>None\<close> as the result of the writer).  The second
  half is a reader of the format, written from the comments of \<open>ChunkInfo.hpp\<close> (a chunk is its
  id, the size of its payload, the marker and the payload), and the round trip through it.
\<close>

unbundle bit_operations_syntax

type_synonym byte = "8 word"
type_synonym bytes = "8 word list"

section \<open>Data\<close>

abbreviation (input) VERSION_GTASA :: "32 word" where "VERSION_GTASA \<equiv> 0x1803ffff"
abbreviation (input) CHUNK_INFO :: "32 word" where "CHUNK_INFO \<equiv> 0x01"
abbreviation (input) CHUNK_FILE :: "32 word" where "CHUNK_FILE \<equiv> 0x16"
abbreviation (input) CHUNK_EXTRA :: "32 word" where "CHUNK_EXTRA \<equiv> 0x03"
abbreviation (input) CHUNK_TEXTURE :: "32 word" where "CHUNK_TEXTURE \<equiv> 0x15"

record txd_file_t =
  fi_id :: "32 word"
  fi_chunk_size :: "32 word"
  fi_marker :: "32 word"

record txd_info_t =
  in_id :: "32 word"
  in_chunk_size :: "32 word"
  in_marker :: "32 word"
  in_count :: "16 word"
  in_unknown :: "16 word"

record txd_texture_data_t =
  td_id :: "32 word"
  td_chunk_size :: "32 word"
  td_marker :: "32 word"
  td_version :: "32 word"
  td_filter_flags :: "32 word"
  td_texture_name :: bytes
  td_alpha_name :: bytes
  td_alpha_flags :: "32 word"
  td_direct3d_texture_format :: "32 word"
  td_width :: "16 word"
  td_height :: "16 word"
  td_depth :: byte
  td_mipmap_count :: byte
  td_texcode_type :: byte
  td_flags :: byte
  td_palette :: "bytes option"
  td_data_size :: "32 word"
  td_data :: "bytes option"

record txd_extra_info_t =
  ex_id :: "32 word"
  ex_chunk_size :: "32 word"
  ex_marker :: "32 word"
  ex_data :: "64 word"

record Texture_Info =
  TextureData :: txd_texture_data_t
  ExtraInfo :: txd_extra_info_t

record TextureDictionary =
  mFile_Data :: txd_file_t
  mInfo_Data :: txd_info_t
  mExtraInfo_Data :: txd_extra_info_t
  mTextureInfo :: "(int, Texture_Info) stdmap"

section \<open>The dictionary\<close>

text \<open>The constructor leaves the size of the file chunk unset; \<open>Write\<close> sets it before it is read.\<close>

definition TextureDictionary_new :: TextureDictionary where
  "TextureDictionary_new = \<lparr>
     mFile_Data = \<lparr>fi_id = CHUNK_FILE, fi_chunk_size = 0, fi_marker = VERSION_GTASA\<rparr>,
     mInfo_Data = \<lparr>in_id = CHUNK_INFO, in_chunk_size = 4, in_marker = VERSION_GTASA, in_count = 0, in_unknown = 2\<rparr>,
     mExtraInfo_Data = \<lparr>ex_id = CHUNK_EXTRA, ex_chunk_size = 0, ex_marker = VERSION_GTASA, ex_data = 0\<rparr>,
     mTextureInfo = []\<rparr>"

definition TextureExtra_new :: txd_extra_info_t where
  "TextureExtra_new = \<lparr>ex_id = CHUNK_EXTRA, ex_chunk_size = 0, ex_marker = VERSION_GTASA, ex_data = 0\<rparr>"

definition addTexture ::
  "TextureDictionary \<Rightarrow> txd_texture_data_t \<Rightarrow> txd_extra_info_t \<Rightarrow> int \<times> TextureDictionary" where
  "addTexture d tex extInf = (let n = free_id (mTextureInfo d) 0 in
     (n, d\<lparr>mTextureInfo := map_put n \<lparr>TextureData = tex, ExtraInfo = extInf\<rparr> (mTextureInfo d)\<rparr>))"

definition removeTexture :: "TextureDictionary \<Rightarrow> int \<Rightarrow> TextureDictionary" where
  "removeTexture d n = d\<lparr>mTextureInfo := map_erase n (mTextureInfo d)\<rparr>"

section \<open>Writing\<close>

definition le_bytes :: "nat \<Rightarrow> 'a::len word \<Rightarrow> bytes" where
  "le_bytes n w = map (\<lambda>i. ucast (drop_bit (8 * i) w)) [0..<n]"

definition le32 :: "32 word \<Rightarrow> bytes" where
  "le32 w = le_bytes 4 w"

definition le16 :: "16 word \<Rightarrow> bytes" where
  "le16 w = le_bytes 2 w"

definition block_bytes :: "bytes option \<Rightarrow> nat \<Rightarrow> bytes option" where
  "block_bytes p n = (case p of None \<Rightarrow> if n = 0 then Some [] else None
     | Some b \<Rightarrow> if n \<le> length b then Some (take n b) else None)"

definition writeInfo :: "txd_info_t \<Rightarrow> bytes" where
  "writeInfo info = le32 (in_id info) @ le32 (in_chunk_size info) @ le32 (in_marker info)
     @ le16 (in_count info) @ le16 (in_unknown info)"

text \<open>The extra data is written as the eight bytes of the pointer itself.\<close>

definition writeExtraInfo :: "txd_extra_info_t \<Rightarrow> bytes" where
  "writeExtraInfo info = le32 (ex_id info) @ le32 (ex_chunk_size info) @ le32 (ex_marker info)
     @ (if ex_data info \<noteq> 0 then le_bytes 8 (ex_data info) else [])"

definition writeTextureInfo :: "Texture_Info \<Rightarrow> 32 word \<Rightarrow> bytes option" where
  "writeTextureInfo tex sz = (let t = TextureData tex in
     Option.bind (block_bytes (Some (td_texture_name t)) 32) (\<lambda>tname.
     Option.bind (block_bytes (Some (td_alpha_name t)) 32) (\<lambda>aname.
     Option.bind (if td_palette t \<noteq> None then block_bytes (td_palette t) (256 * 4) else Some []) (\<lambda>pal.
     Option.bind (block_bytes (td_data t) (unat (td_data_size t))) (\<lambda>dat.
       Some (le32 0x15 @ le32 sz @ le32 VERSION_GTASA
         @ le32 (td_id t) @ le32 (td_chunk_size t) @ le32 (td_marker t)
         @ le32 (td_version t) @ le32 (td_filter_flags t) @ tname @ aname
         @ le32 (td_alpha_flags t) @ le32 (td_direct3d_texture_format t)
         @ le16 (td_width t) @ le16 (td_height t)
         @ [td_depth t] @ [td_mipmap_count t] @ [td_texcode_type t] @ [td_flags t]
         @ pal @ le32 (td_data_size t) @ dat @ writeExtraInfo (ExtraInfo tex)))))))"

definition getTextureChunkSize :: "Texture_Info \<Rightarrow> 32 word" where
  "getTextureChunkSize tex = 6 * 4 + td_chunk_size (TextureData tex) + ex_chunk_size (ExtraInfo tex)"

definition getFileChunkSize :: "TextureDictionary \<Rightarrow> 32 word" where
  "getFileChunkSize d = fold (\<lambda>(_, t) s. s + getTextureChunkSize t + 3 * 4) (mTextureInfo d)
     (6 * 4 + 2 * 2 + ex_chunk_size (mExtraInfo_Data d))"

fun write_textures :: "(int, Texture_Info) stdmap \<Rightarrow> bytes option" where
  "write_textures [] = Some []"
| "write_textures ((_, t) # m) = Option.bind (writeTextureInfo t (getTextureChunkSize t)) (\<lambda>b.
     map_option (\<lambda>bs. b @ bs) (write_textures m))"

text \<open>
  \<open>opened\<close> is \<open>is_open\<close> of the stream.  The result is the changed dictionary and the content of
  the file, or no file when it could not be opened (the source returns \<open>false\<close> there); what the
  stream does on a full disk is not looked at by the source.
\<close>

definition Write :: "bool \<Rightarrow> TextureDictionary \<Rightarrow> (TextureDictionary \<times> bytes option) option" where
  "Write opened d = (let d = d\<lparr>mFile_Data := (mFile_Data d)\<lparr>fi_chunk_size := getFileChunkSize d\<rparr>\<rparr> in
     if opened then
       let h = le32 (fi_id (mFile_Data d)) @ le32 (fi_chunk_size (mFile_Data d)) @ le32 (fi_marker (mFile_Data d));
           d = d\<lparr>mInfo_Data := (mInfo_Data d)\<lparr>in_count := word_of_nat (length (mTextureInfo d))\<rparr>\<rparr> in
       map_option (\<lambda>ts. (d, Some (h @ writeInfo (mInfo_Data d) @ ts @ writeExtraInfo (mExtraInfo_Data d))))
         (write_textures (mTextureInfo d))
     else Some (d, None))"

section \<open>A reader of the format\<close>

definition un_le :: "bytes \<Rightarrow> 'a::len word" where
  "un_le bs = foldr (\<lambda>b w. ucast b OR push_bit 8 w) bs 0"

definition get_bytes :: "nat \<Rightarrow> bytes \<Rightarrow> (bytes \<times> bytes) option" where
  "get_bytes n bs = (if n \<le> length bs then Some (take n bs, drop n bs) else None)"

definition get_word :: "nat \<Rightarrow> bytes \<Rightarrow> ('a::len word \<times> bytes) option" where
  "get_word n bs = map_option (\<lambda>(b, r). (un_le b, r)) (get_bytes n bs)"

record chunk =
  c_id :: "32 word"
  c_marker :: "32 word"
  c_payload :: bytes

definition read_chunk :: "bytes \<Rightarrow> (chunk \<times> bytes) option" where
  "read_chunk bs = Option.bind (get_word 4 bs) (\<lambda>(cid, bs). Option.bind (get_word 4 bs) (\<lambda>(sz :: 32 word, bs).
     Option.bind (get_word 4 bs) (\<lambda>(marker, bs). Option.bind (get_bytes (unat sz) bs) (\<lambda>(payload, bs).
       Some (\<lparr>c_id = cid, c_marker = marker, c_payload = payload\<rparr>, bs)))))"

text \<open>A payload that is made of chunks, read until nothing is left.\<close>

lemma read_chunk_shorter: "read_chunk bs = Some (c, r) \<Longrightarrow> length r < length bs"
  by (auto simp: read_chunk_def get_word_def get_bytes_def bind_eq_Some_conv split: if_splits)

function read_chunks :: "bytes \<Rightarrow> chunk list option" where
  "read_chunks bs = (if bs = [] then Some [] else
     case read_chunk bs of None \<Rightarrow> None | Some (c, r) \<Rightarrow> map_option (\<lambda>cs. c # cs) (read_chunks r))"
  by pat_completeness auto
termination by (relation "measure length") (auto dest: read_chunk_shorter)

declare read_chunks.simps [simp del]

text \<open>What a texture chunk says: the fields of the structure after its chunk header.\<close>

record texture =
  x_version :: "32 word"
  x_filter_flags :: "32 word"
  x_texture_name :: bytes
  x_alpha_name :: bytes
  x_alpha_flags :: "32 word"
  x_format :: "32 word"
  x_width :: "16 word"
  x_height :: "16 word"
  x_depth :: byte
  x_mipmap_count :: byte
  x_texcode_type :: byte
  x_flags :: byte
  x_palette :: bytes
  x_data :: bytes

definition read_body :: "bytes \<Rightarrow> texture option" where
  "read_body bs = Option.bind (get_word 4 bs) (\<lambda>(version, bs). Option.bind (get_word 4 bs) (\<lambda>(filter, bs).
     Option.bind (get_bytes 32 bs) (\<lambda>(tname, bs). Option.bind (get_bytes 32 bs) (\<lambda>(aname, bs).
     Option.bind (get_word 4 bs) (\<lambda>(aflags, bs). Option.bind (get_word 4 bs) (\<lambda>(format, bs).
     Option.bind (get_word 2 bs) (\<lambda>(width, bs). Option.bind (get_word 2 bs) (\<lambda>(height, bs).
     Option.bind (get_word 1 bs) (\<lambda>(depth, bs). Option.bind (get_word 1 bs) (\<lambda>(mip, bs).
     Option.bind (get_word 1 bs) (\<lambda>(tcode, bs). Option.bind (get_word 1 bs) (\<lambda>(flags, bs).
     Option.bind (get_bytes (if depth = 8 then 1024 else 0) bs) (\<lambda>(pal, bs).
     Option.bind (get_word 4 bs) (\<lambda>(sz :: 32 word, bs). Option.bind (get_bytes (unat sz) bs) (\<lambda>(dat, bs).
       if bs = [] then Some \<lparr>x_version = version, x_filter_flags = filter, x_texture_name = tname,
         x_alpha_name = aname, x_alpha_flags = aflags, x_format = format, x_width = width, x_height = height,
         x_depth = depth, x_mipmap_count = mip, x_texcode_type = tcode, x_flags = flags,
         x_palette = pal, x_data = dat\<rparr> else None)))))))))))))))"

definition read_texture :: "chunk \<Rightarrow> texture option" where
  "read_texture c = (if c_id c = CHUNK_TEXTURE then
     case read_chunks (c_payload c) of
       Some [body, extra] \<Rightarrow> if c_id body = 1 \<and> c_id extra = CHUNK_EXTRA \<and> c_payload extra = []
         then read_body (c_payload body) else None
     | _ \<Rightarrow> None
   else None)"

fun read_all :: "chunk list \<Rightarrow> texture list option" where
  "read_all [] = Some []"
| "read_all (c # cs) = Option.bind (read_texture c) (\<lambda>t. map_option (Cons t) (read_all cs))"

text \<open>A whole file: one file chunk that holds the info chunk, as many textures as it announces, and
  an empty extra chunk.\<close>

definition read_txd :: "bytes \<Rightarrow> texture list option" where
  "read_txd bs = (case read_chunks bs of
     Some [file] \<Rightarrow> if c_id file = CHUNK_FILE then
       (case read_chunks (c_payload file) of
          Some (info # cs) \<Rightarrow> if cs \<noteq> [] \<and> c_id info = CHUNK_INFO \<and> length (c_payload info) = 4
              \<and> unat (un_le (take 2 (c_payload info)) :: 16 word) = length cs - 1
              \<and> c_id (last cs) = CHUNK_EXTRA \<and> c_payload (last cs) = []
            then read_all (butlast cs) else None
        | _ \<Rightarrow> None)
     else None
   | _ \<Rightarrow> None)"

section \<open>Round trip\<close>

lemma length_le [simp]: "length (le_bytes n w) = n" "length (le32 u) = 4" "length (le16 v) = 2"
  by (simp_all add: le_bytes_def le32_def le16_def)

lemma bit_un_le:
  "bit (un_le bs :: 'a::len word) i \<longleftrightarrow> i < LENGTH('a) \<and> i div 8 < length bs \<and> bit (bs ! (i div 8)) (i mod 8)"
proof (induction bs arbitrary: i)
  case Nil
  then show ?case by (simp add: un_le_def)
next
  case (Cons b bs)
  have eq: "(un_le (b # bs) :: 'a word) = ucast b OR push_bit 8 (un_le bs)" by (simp add: un_le_def)
  show ?case
  proof (cases "i < 8")
    case True
    then show ?thesis by (auto simp: eq bit_or_iff bit_push_bit_iff bit_ucast_iff)
  next
    case False
    have nb: "\<not> bit b i" using False by (auto dest: bit_imp_le_length)
    have "i div 8 = Suc ((i - 8) div 8)" "(i - 8) mod 8 = i mod 8"
      using False by (simp_all add: le_div_geq le_mod_geq)
    then show ?thesis using False Cons.IH [of "i - 8"] nb
      by (auto simp: eq bit_or_iff bit_push_bit_iff bit_ucast_iff)
  qed
qed

lemma un_le_bytes: "LENGTH('a) = 8 * n \<Longrightarrow> un_le (le_bytes n (w :: 'a::len word)) = w"
proof (rule bit_word_eqI)
  fix i assume n: "LENGTH('a) = 8 * n" and i: "i < LENGTH('a)"
  then have "i div 8 < n" by (simp add: less_mult_imp_div_less mult.commute)
  then show "bit (un_le (le_bytes n w) :: 'a word) i = bit w i"
    using i by (simp add: bit_un_le) (simp add: le_bytes_def bit_ucast_iff bit_drop_bit_eq)
qed

lemma get_bytes_append: "length a = n \<Longrightarrow> get_bytes n (a @ b) = Some (a, b)"
  by (auto simp: get_bytes_def)

lemma get_bytes_all: "length a = n \<Longrightarrow> get_bytes n a = Some (a, [])"
  by (auto simp: get_bytes_def)

lemma get_word_le [simp]:
  "get_word 4 (le32 u @ r) = Some (u, r)" "get_word 2 (le16 v @ r) = Some (v, r)"
  "get_word (Suc 0) (b # r) = Some (b :: byte, r)"
proof -
  have "un_le [b] = b" by (simp add: un_le_def)
  then show "get_word (Suc 0) (b # r) = Some (b :: byte, r)"
    using get_bytes_append [of "[b]" 1 r] by (simp add: get_word_def)
qed (simp_all add: get_word_def get_bytes_append, simp_all add: le32_def le16_def un_le_bytes)

lemma read_chunk_append:
  "unat sz = length p \<Longrightarrow> read_chunk (le32 cid @ le32 sz @ le32 marker @ p @ r) =
   Some (\<lparr>c_id = cid, c_marker = marker, c_payload = p\<rparr>, r)"
  by (simp add: read_chunk_def get_bytes_append)

lemma read_chunks_append:
  assumes "unat sz = length p"
  shows "read_chunks (le32 cid @ le32 sz @ le32 marker @ p @ r) =
    map_option (Cons \<lparr>c_id = cid, c_marker = marker, c_payload = p\<rparr>) (read_chunks r)"
proof -
  have "le32 cid \<noteq> []" by (metis length_le(2) list.size(3) zero_neq_numeral)
  then show ?thesis
    by (subst read_chunks.simps) (simp add: read_chunk_append [OF assms])
qed

lemma read_chunks_Nil [simp]: "read_chunks [] = Some []"
  by (simp add: read_chunks.simps)

text \<open>
  A texture fits the format when its names fill their arrays, the palette is there exactly for
  eight bits per pixel, the data block has the announced size, and the announced chunk size is the
  size of the fields: \<open>txdContainerAddImage\<close> builds such textures.
\<close>

definition body_size :: "txd_texture_data_t \<Rightarrow> nat" where
  "body_size t = 92 + (if td_depth t = 8 then 1024 else 0) + unat (td_data_size t)"

definition texture_wf :: "Texture_Info \<Rightarrow> bool" where
  "texture_wf tex \<longleftrightarrow> (let t = TextureData tex in
     td_id t = 1 \<and> length (td_texture_name t) = 32 \<and> length (td_alpha_name t) = 32 \<and>
     (case td_palette t of None \<Rightarrow> td_depth t \<noteq> 8 | Some p \<Rightarrow> td_depth t = 8 \<and> length p = 1024) \<and>
     (case td_data t of None \<Rightarrow> False | Some b \<Rightarrow> length b = unat (td_data_size t)) \<and>
     unat (td_chunk_size t) = body_size t \<and> ExtraInfo tex = TextureExtra_new)"

definition body_bytes :: "txd_texture_data_t \<Rightarrow> bytes" where
  "body_bytes t = le32 (td_version t) @ le32 (td_filter_flags t) @ td_texture_name t @ td_alpha_name t
     @ le32 (td_alpha_flags t) @ le32 (td_direct3d_texture_format t) @ le16 (td_width t) @ le16 (td_height t)
     @ td_depth t # td_mipmap_count t # td_texcode_type t # td_flags t
     # (case td_palette t of None \<Rightarrow> [] | Some p \<Rightarrow> p)
     @ le32 (td_data_size t) @ (case td_data t of None \<Rightarrow> [] | Some b \<Rightarrow> b)"

definition texture_of :: "Texture_Info \<Rightarrow> texture" where
  "texture_of tex = (let t = TextureData tex in
     \<lparr>x_version = td_version t, x_filter_flags = td_filter_flags t, x_texture_name = td_texture_name t,
      x_alpha_name = td_alpha_name t, x_alpha_flags = td_alpha_flags t, x_format = td_direct3d_texture_format t,
      x_width = td_width t, x_height = td_height t, x_depth = td_depth t, x_mipmap_count = td_mipmap_count t,
      x_texcode_type = td_texcode_type t, x_flags = td_flags t,
      x_palette = (case td_palette t of None \<Rightarrow> [] | Some p \<Rightarrow> p),
      x_data = (case td_data t of None \<Rightarrow> [] | Some b \<Rightarrow> b)\<rparr>)"

definition texture_payload :: "Texture_Info \<Rightarrow> bytes" where
  "texture_payload tex = le32 (td_id (TextureData tex)) @ le32 (td_chunk_size (TextureData tex))
     @ le32 (td_marker (TextureData tex)) @ body_bytes (TextureData tex) @ writeExtraInfo TextureExtra_new"

lemma length_body_bytes: "texture_wf tex \<Longrightarrow> length (body_bytes (TextureData tex)) = body_size (TextureData tex)"
  by (auto simp: texture_wf_def body_bytes_def body_size_def Let_def split: option.splits)

lemma length_writeExtraInfo [simp]: "length (writeExtraInfo TextureExtra_new) = 12"
  by (simp add: writeExtraInfo_def TextureExtra_new_def)

lemma length_texture_payload: "texture_wf tex \<Longrightarrow> length (texture_payload tex) = body_size (TextureData tex) + 24"
  by (simp add: texture_payload_def length_body_bytes)

lemma read_body_bytes: "texture_wf tex \<Longrightarrow> read_body (body_bytes (TextureData tex)) = Some (texture_of tex)"
  using get_bytes_append [of "[]" 0]
  by (auto simp: texture_wf_def body_bytes_def read_body_def texture_of_def get_bytes_append get_bytes_all Let_def
      split: option.splits)

lemma read_extra [simp]:
  "read_chunks (writeExtraInfo TextureExtra_new @ r) =
   map_option (Cons \<lparr>c_id = CHUNK_EXTRA, c_marker = VERSION_GTASA, c_payload = []\<rparr>) (read_chunks r)"
  using read_chunks_append [of 0 "[]" CHUNK_EXTRA VERSION_GTASA r]
  by (simp add: writeExtraInfo_def TextureExtra_new_def)

lemma read_payload:
  assumes "texture_wf tex"
  shows "read_chunks (texture_payload tex) =
    Some [\<lparr>c_id = 1, c_marker = td_marker (TextureData tex), c_payload = body_bytes (TextureData tex)\<rparr>,
          \<lparr>c_id = CHUNK_EXTRA, c_marker = VERSION_GTASA, c_payload = []\<rparr>]"
proof -
  have "td_id (TextureData tex) = 1" "unat (td_chunk_size (TextureData tex)) = length (body_bytes (TextureData tex))"
    using assms length_body_bytes [OF assms] by (auto simp: texture_wf_def Let_def)
  then show ?thesis using read_extra [of "[]"] unfolding texture_payload_def
    by (subst read_chunks_append) simp_all
qed

lemma write_texture_payload:
  assumes "texture_wf tex"
  shows "writeTextureInfo tex sz = Some (le32 0x15 @ le32 sz @ le32 VERSION_GTASA @ texture_payload tex)"
  using assms
  by (auto simp: writeTextureInfo_def texture_wf_def texture_payload_def body_bytes_def block_bytes_def Let_def
      split: option.splits)

definition texture_size :: "Texture_Info \<Rightarrow> nat" where
  "texture_size t = body_size (TextureData t) + 24"

definition textures_size :: "(int, Texture_Info) stdmap \<Rightarrow> nat" where
  "textures_size m = (\<Sum>e \<leftarrow> m. texture_size (snd e) + 12)"

lemma textures_size_simps [simp]:
  "textures_size [] = 0" "textures_size (e # m) = texture_size (snd e) + 12 + textures_size m"
  by (simp_all add: textures_size_def)

lemma unat_add_small: "unat (a :: 32 word) + unat b < 2 ^ 32 \<Longrightarrow> unat (a + b) = unat a + unat b"
  by (simp add: unat_word_ariths)

lemma getTextureChunkSize_unat:
  assumes "texture_wf t" and "texture_size t < 2 ^ 32"
  shows "unat (getTextureChunkSize t) = texture_size t"
proof -
  have "unat (td_chunk_size (TextureData t)) = body_size (TextureData t)" "ex_chunk_size (ExtraInfo t) = 0"
    using assms(1) by (auto simp: texture_wf_def Let_def TextureExtra_new_def)
  then show ?thesis using assms(2) unat_add_small [of 24 "td_chunk_size (TextureData t)"]
    by (simp add: getTextureChunkSize_def texture_size_def)
qed

lemma fold_chunk_sizes:
  assumes "\<forall>e \<in> set m. texture_wf (snd e)" and "unat s + textures_size m < 2 ^ 32"
  shows "unat (fold (\<lambda>(_, t) s. s + getTextureChunkSize t + 3 * 4) m s) = unat s + textures_size m"
  using assms
proof (induction m arbitrary: s)
  case (Cons e m)
  obtain k t where e: "e = (k, t)" by fastforce
  have wf: "texture_wf t" and sz: "unat s + texture_size t + 12 + textures_size m < 2 ^ 32"
    using Cons.prems e by auto
  have g: "unat (getTextureChunkSize t) = texture_size t"
    using getTextureChunkSize_unat [OF wf] sz by linarith
  have "unat (s + getTextureChunkSize t) = unat s + texture_size t"
    using sz g unat_add_small [of s "getTextureChunkSize t"] by simp
  then have "unat (s + getTextureChunkSize t + 3 * 4) = unat s + texture_size t + 12"
    using sz unat_add_small [of "s + getTextureChunkSize t" "3 * 4"] by simp
  then show ?case using Cons.IH [of "s + getTextureChunkSize t + 3 * 4"] Cons.prems sz e by simp
qed simp

definition texture_bytes :: "Texture_Info \<Rightarrow> bytes" where
  "texture_bytes t = le32 CHUNK_TEXTURE @ le32 (getTextureChunkSize t) @ le32 VERSION_GTASA @ texture_payload t"

definition texture_chunk :: "Texture_Info \<Rightarrow> chunk" where
  "texture_chunk t = \<lparr>c_id = CHUNK_TEXTURE, c_marker = VERSION_GTASA, c_payload = texture_payload t\<rparr>"

lemma write_textures_bytes:
  "\<forall>e \<in> set m. texture_wf (snd e) \<Longrightarrow> write_textures m = Some (concat (map (texture_bytes \<circ> snd) m))"
  by (induction m) (auto simp: write_texture_payload texture_bytes_def)

lemma length_texture_bytes:
  "\<forall>e \<in> set m. texture_wf (snd e) \<Longrightarrow> length (concat (map (texture_bytes \<circ> snd) m)) = textures_size m"
  by (induction m) (auto simp: texture_bytes_def texture_size_def length_texture_payload)

lemma read_texture_bytes:
  assumes "\<forall>e \<in> set m. texture_wf (snd e)" and "textures_size m < 2 ^ 32"
  shows "read_chunks (concat (map (texture_bytes \<circ> snd) m) @ r) =
    map_option (\<lambda>cs. map (texture_chunk \<circ> snd) m @ cs) (read_chunks r)"
  using assms
proof (induction m)
  case Nil
  then show ?case by (simp add: option.map_ident)
next
  case (Cons e m)
  have wf: "texture_wf (snd e)" and sz: "texture_size (snd e) < 2 ^ 32" and rest: "textures_size m < 2 ^ 32"
    using Cons.prems by auto
  have "unat (getTextureChunkSize (snd e)) = length (texture_payload (snd e))"
    using getTextureChunkSize_unat [OF wf sz] by (simp add: texture_size_def length_texture_payload wf)
  from read_chunks_append [OF this] show ?case
    using Cons.IH [OF _ rest] Cons.prems(1)
    by (simp add: texture_bytes_def texture_chunk_def option.map_comp o_def)
qed

lemma read_all_textures:
  "\<forall>e \<in> set m. texture_wf (snd e) \<Longrightarrow>
   read_all (map (texture_chunk \<circ> snd) m) = Some (map (texture_of \<circ> snd) m)"
  by (induction m) (auto simp: read_texture_def texture_chunk_def read_payload read_body_bytes)

section \<open>The dictionary invariant and the file\<close>

definition dict_wf :: "TextureDictionary \<Rightarrow> bool" where
  "dict_wf d \<longleftrightarrow> map_ok (mTextureInfo d) \<and> (\<forall>e \<in> set (mTextureInfo d). texture_wf (snd e)) \<and>
     fi_id (mFile_Data d) = CHUNK_FILE \<and> fi_marker (mFile_Data d) = VERSION_GTASA \<and>
     in_id (mInfo_Data d) = CHUNK_INFO \<and> in_chunk_size (mInfo_Data d) = 4 \<and>
     in_marker (mInfo_Data d) = VERSION_GTASA \<and> in_unknown (mInfo_Data d) = 2 \<and>
     mExtraInfo_Data d = TextureExtra_new"

lemma dict_wf_new: "dict_wf TextureDictionary_new"
  by (simp add: dict_wf_def TextureDictionary_new_def TextureExtra_new_def)

lemma dict_wf_addTexture:
  assumes "dict_wf d" and "texture_wf \<lparr>TextureData = t, ExtraInfo = e\<rparr>" and "addTexture d t e = (n, d')"
  shows "dict_wf d'"
proof -
  have ok: "map_ok (mTextureInfo d)" and wf: "\<forall>e \<in> set (mTextureInfo d). texture_wf (snd e)"
    using assms(1) by (auto simp: dict_wf_def)
  have "texture_wf v" if "(k, v) \<in> set (mTextureInfo d')" for k v
    using that assms(2,3) wf ok
    by (auto simp: addTexture_def Let_def stdmap.items_lookup stdmap.ok_put stdmap.lookup_put split: if_splits)
      (metis snd_conv stdmap.items_lookup)
  then show ?thesis using assms(1,3) ok by (auto simp: dict_wf_def addTexture_def Let_def stdmap.ok_put)
qed

lemma dict_wf_removeTexture: "dict_wf d \<Longrightarrow> dict_wf (removeTexture d n)"
  by (auto simp: dict_wf_def removeTexture_def stdmap.ok_del) (auto simp: map_erase_def)

text \<open>C28: A texture that is added gets the smallest id that is not in use; it is found under that id
  afterwards, and every other texture stays under the id it had.\<close>

theorem addTexture_least_id:
  assumes "dict_wf d" and "addTexture d t e = (n, d')"
  shows "0 \<le> n \<and> map_find n (mTextureInfo d) = None \<and> (\<forall>k. 0 \<le> k \<and> k < n \<longrightarrow> map_find k (mTextureInfo d) \<noteq> None)
    \<and> (\<forall>k. map_find k (mTextureInfo d') =
         (if k = n then Some \<lparr>TextureData = t, ExtraInfo = e\<rparr> else map_find k (mTextureInfo d)))"
  using assms free_id_least [of "mTextureInfo d" 0]
  by (auto simp: addTexture_def Let_def dict_wf_def stdmap.lookup_put)


text \<open>A dictionary with one texture of eight bytes, for the witnesses.\<close>

definition demo_texture :: txd_texture_data_t where
  "demo_texture = \<lparr>td_id = 1, td_chunk_size = 100, td_marker = VERSION_GTASA, td_version = 9,
     td_filter_flags = 0x1101, td_texture_name = 116 # replicate 31 0, td_alpha_name = replicate 32 0,
     td_alpha_flags = 0x200, td_direct3d_texture_format = 0x31545844, td_width = 4, td_height = 4,
     td_depth = 0x10, td_mipmap_count = 1, td_texcode_type = 4, td_flags = 8, td_palette = None,
     td_data_size = 8, td_data = Some [1, 2, 3, 4, 5, 6, 7, 8]\<rparr>"

definition demo_dict :: TextureDictionary where
  "demo_dict = snd (addTexture TextureDictionary_new demo_texture TextureExtra_new)"

lemma demo_texture_wf: "texture_wf \<lparr>TextureData = demo_texture, ExtraInfo = TextureExtra_new\<rparr>"
  by (simp add: texture_wf_def demo_texture_def body_size_def Let_def)

lemma demo_dict_wf: "dict_wf demo_dict"
  unfolding demo_dict_def
  by (rule dict_wf_addTexture [OF dict_wf_new demo_texture_wf]) (rule prod.collapse [symmetric])

lemma demo_dict_textures:
  "mTextureInfo demo_dict = [(0, \<lparr>TextureData = demo_texture, ExtraInfo = TextureExtra_new\<rparr>)]"
  by (simp add: demo_dict_def addTexture_def TextureDictionary_new_def Let_def free_id.simps map_find_def)

theorem addTexture_least_id_witness:
  "map_find 0 (mTextureInfo demo_dict) \<noteq> None \<and>
   fst (addTexture demo_dict demo_texture TextureExtra_new) = 1"
proof -
  obtain n d' where e: "addTexture demo_dict demo_texture TextureExtra_new = (n, d')" by fastforce
  from addTexture_least_id [OF demo_dict_wf e]
  have n: "0 \<le> n" "map_find n (mTextureInfo demo_dict) = None"
    "\<forall>k. 0 \<le> k \<and> k < n \<longrightarrow> map_find k (mTextureInfo demo_dict) \<noteq> None" by auto
  have "\<not> 1 < n" using n(3) [rule_format, of 1] by (auto simp: demo_dict_textures map_find_def)
  moreover have "n \<noteq> 0" using n(2) by (auto simp: demo_dict_textures map_find_def)
  ultimately show ?thesis using n(1) e by (simp add: demo_dict_textures map_find_def)
qed


end
