(* ===== verification/FilePaths.thy ===== *)
theory FilePaths
  imports Prelude "HOL-Library.Sublist"
begin

text \<open>
  The path rules of the Texturizer module (\<open>ModuleFilePaths.cpp\<close>): a script names a file either
  relative to its own resource or as \<open>:resource/file\<close>, and the module opens the file below
  \<open>./mods/deathmatch/resources/\<close>.  \<open>GetResourceFromName\<close> of the server is the parameter
  \<open>known\<close>.  A \<open>size_t\<close> position is a natural number, \<open>npos\<close> is \<open>None\<close>; the conversions of a
  position to \<open>int\<close> and to \<open>unsigned int\<close> are written out.  The replacement loop of the source
  does not advance past the text it inserts, so it need not end: it is a partial function, and
  that it returns for the arguments the module passes is a theorem.
\<close>

section \<open>Characters and strings\<close>

definition IsWantedCharacter :: "char \<Rightarrow> bool" where
  "IsWantedCharacter c \<longleftrightarrow> 32 \<le> (of_char c :: nat) \<and> (of_char c :: nat) \<le> 126"

definition IsControlCode :: "char \<Rightarrow> bool" where
  "IsControlCode c \<longleftrightarrow> (of_char c :: nat) < 32"

abbreviation (input) backslash :: char where
  "backslash \<equiv> CHR 0x5C"

fun valid_chars :: "string \<Rightarrow> bool" where
  "valid_chars [] = True"
| "valid_chars (c # cs) = (let c_d = (case cs of [] \<Rightarrow> nul | d # _ \<Rightarrow> d) in
     if \<not> IsWantedCharacter c \<or> c = CHR '':'' \<or> (c = CHR ''.'' \<and> c_d = CHR ''.'')
        \<or> (c = backslash \<and> c_d = backslash)
     then False else valid_chars cs)"

text \<open>The length is kept in an \<open>unsigned int\<close>; of a longer string only the remainder is looked at.\<close>

definition IsValidFilePath :: "string option \<Rightarrow> bool" where
  "IsValidFilePath szDir = (case szDir of None \<Rightarrow> False
     | Some s \<Rightarrow> valid_chars (take (nat (to_uint (int (strlen s)))) (c_str s)))"

definition find_first_of :: "string \<Rightarrow> string \<Rightarrow> nat \<Rightarrow> nat option" where
  "find_first_of s cs from = List.find (\<lambda>k. s ! k \<in> set cs) [from..<length s]"

definition pos_to_int :: "nat option \<Rightarrow> int" where
  "pos_to_int p = (case p of None \<Rightarrow> - 1 | Some k \<Rightarrow> uint_to_int (int k))"

definition pos_to_uint :: "nat option \<Rightarrow> int" where
  "pos_to_uint p = (case p of None \<Rightarrow> 2 ^ 32 - 1 | Some k \<Rightarrow> to_uint (int k))"

definition replace_at :: "string \<Rightarrow> nat \<Rightarrow> string \<Rightarrow> string" where
  "replace_at s k b = take k s @ b @ drop (k + 1) s"

text \<open>\<open>operator[]\<close> of a \<open>std::string\<close> gives the terminating zero at the position past the end.\<close>

definition char_at :: "string \<Rightarrow> nat \<Rightarrow> char" where
  "char_at s k = (if k < length s then s ! k else nul)"

section \<open>Replacement and parsing\<close>

partial_function (option) replace_loop :: "string \<Rightarrow> string \<Rightarrow> int \<Rightarrow> string \<Rightarrow> string option" where
  "replace_loop a b from s = (let idx = pos_to_int (find_first_of s a (nat from)) in
     if idx \<ge> 0 then replace_loop a b idx (replace_at s (nat idx) b) else Some s)"

definition ReplaceOccurrencesInString :: "string \<Rightarrow> string \<Rightarrow> string \<Rightarrow> string option" where
  "ReplaceOccurrencesInString s a b = replace_loop a b 0 s"

definition resources_dir :: string where
  "resources_dir = ''./mods/deathmatch/resources/''"

definition parse_replaced :: "(string \<Rightarrow> bool) \<Rightarrow> string \<Rightarrow> string \<Rightarrow> (string \<times> string) option" where
  "parse_replaced known strInput rName =
    (if char_at strInput 0 = CHR '':'' then
       let iEnd = pos_to_uint (find_first_of strInput ''/'' 0) in
       if iEnd \<noteq> 0 then
         let strResourceName = take (nat (to_uint (iEnd - 1))) (drop 1 strInput);
             next = nat (to_uint (iEnd + 1)) in
         if known (c_str strResourceName) \<and> char_at strInput next \<noteq> nul then
           let strMetaPath = drop next strInput in
           if IsValidFilePath (Some (c_str strMetaPath))
           then Some (resources_dir @ strResourceName @ ''/'' @ strMetaPath, strMetaPath) else None
         else None
       else None
     else if IsValidFilePath (Some (c_str strInput))
     then Some (resources_dir @ rName @ ''/'' @ strInput, strInput)
     else None)"

text \<open>The outer option is termination, the inner one the \<open>bool\<close> of the source with the two paths.\<close>

definition ParseResourcePathInput ::
  "(string \<Rightarrow> bool) \<Rightarrow> string \<Rightarrow> string \<Rightarrow> (string \<times> string) option option" where
  "ParseResourcePathInput known strInput rName =
     map_option (\<lambda>s. parse_replaced known s rName) (ReplaceOccurrencesInString strInput [backslash] ''/'')"

section \<open>The replacement loop\<close>

lemma find_upt_Some:
  "List.find P [i..<n] = Some k \<longleftrightarrow> i \<le> k \<and> k < n \<and> P k \<and> (\<forall>j. i \<le> j \<and> j < k \<longrightarrow> \<not> P j)"
proof (induction n)
  case 0
  then show ?case by simp
next
  case (Suc n)
  show ?case
  proof (cases "i \<le> n")
    case True
    have "List.find P (xs @ [y]) = (case List.find P xs of None \<Rightarrow> if P y then Some y else None | Some z \<Rightarrow> Some z)"
      for xs and y by (induction xs) auto
    moreover have "List.find P [i..<n] = None \<longleftrightarrow> (\<forall>j. i \<le> j \<and> j < n \<longrightarrow> \<not> P j)"
      by (auto simp: find_None_iff)
    ultimately show ?thesis using True Suc.IH
      by (auto simp: less_Suc_eq split: option.splits)
  qed simp
qed

lemma find_first_of_Some:
  "find_first_of s cs i = Some k \<longleftrightarrow>
   i \<le> k \<and> k < length s \<and> s ! k \<in> set cs \<and> (\<forall>j. i \<le> j \<and> j < k \<longrightarrow> s ! j \<notin> set cs)"
  by (simp add: find_first_of_def find_upt_Some)

lemma find_first_of_None:
  "find_first_of s cs i = None \<longleftrightarrow> (\<forall>j. i \<le> j \<and> j < length s \<longrightarrow> s ! j \<notin> set cs)"
  by (auto simp: find_first_of_def find_None_iff)

lemma uint_to_int_small: "0 \<le> n \<Longrightarrow> n < 2 ^ 31 \<Longrightarrow> uint_to_int n = n"
  by (simp add: uint_to_int_def Let_def)

definition slashes :: "string \<Rightarrow> string" where
  "slashes s = map (\<lambda>c. if c = backslash then CHR ''/'' else c) s"

lemma slashes_no_backslash: "backslash \<notin> set (slashes s)"
  by (auto simp: slashes_def)

lemma length_slashes [simp]: "length (slashes s) = length s"
  by (simp add: slashes_def)

lemma slashes_id: "backslash \<notin> set s \<Longrightarrow> slashes s = s"
  by (auto simp: slashes_def intro!: map_idI)

lemma slashes_replace_at:
  assumes "k < length s" and "s ! k = backslash"
  shows "slashes (replace_at s k ''/'') = slashes s"
proof -
  have "s = take k s @ backslash # drop (Suc k) s"
    using assms by (metis id_take_nth_drop)
  then have "slashes s = slashes (take k s @ backslash # drop (Suc k) s)" by simp
  then show ?thesis by (simp add: replace_at_def slashes_def)
qed

lemma replace_at_count:
  assumes "k < length s" and "s ! k = backslash"
  shows "count_list (replace_at s k ''/'') backslash < count_list s backslash"
proof -
  have "count_list s backslash = count_list (take k s @ backslash # drop (Suc k) s) backslash"
    using assms by (metis id_take_nth_drop)
  then show ?thesis by (simp add: replace_at_def)
qed

lemma replace_loop_slashes:
  assumes "length s < 2 ^ 31" and "\<forall>j < nat from. j < length s \<longrightarrow> s ! j \<noteq> backslash"
  shows "replace_loop [backslash] ''/'' from s = Some (slashes s)"
  using assms
proof (induction "count_list s backslash" arbitrary: s "from" rule: less_induct)
  case less
  show ?case
  proof (cases "find_first_of s [backslash] (nat from)")
    case None
    then have "s ! j \<noteq> backslash" if "j < length s" for j
      using that less.prems(2) by (cases "j < nat from") (auto simp: find_first_of_None)
    then have "backslash \<notin> set s" by (auto simp: in_set_conv_nth)
    then show ?thesis using None by (simp add: replace_loop.simps pos_to_int_def slashes_id)
  next
    case (Some k)
    let ?t = "replace_at s k ''/''"
    have k: "k < length s" "s ! k = backslash" "\<forall>j. nat from \<le> j \<and> j < k \<longrightarrow> s ! j \<noteq> backslash"
      using Some by (auto simp: find_first_of_Some)
    have "length ?t < 2 ^ 31" using k less.prems(1) by (simp add: replace_at_def)
    moreover have "\<forall>j < nat (int k). j < length ?t \<longrightarrow> ?t ! j \<noteq> backslash"
    proof (intro allI impI)
      fix j assume "j < nat (int k)"
      then show "?t ! j \<noteq> backslash"
        using k less.prems(2) by (cases "j < nat from") (simp_all add: replace_at_def nth_append)
    qed
    ultimately have "replace_loop [backslash] ''/'' (int k) ?t = Some (slashes ?t)"
      using less.hyps replace_at_count [OF k(1,2)] by blast
    then show ?thesis using Some k less.prems(1)
      by (simp add: replace_loop.simps [of _ _ "from"] pos_to_int_def uint_to_int_small slashes_replace_at)
  qed
qed

text \<open>C29: The replacement of backslashes by slashes always returns, and it rewrites exactly the
  backslashes, for every input shorter than 2^31 characters (the loop keeps its position in an
  \<open>int\<close>).\<close>

theorem backslash_replacement_total:
  assumes "length s < 2 ^ 31"
  shows "ReplaceOccurrencesInString s [backslash] ''/'' = Some (slashes s)"
  using assms by (simp add: ReplaceOccurrencesInString_def replace_loop_slashes)

theorem backslash_replacement_total_witness:
  "ReplaceOccurrencesInString [CHR ''a'', CHR 0x5C, CHR ''b''] [CHR 0x5C] ''/'' = Some ''a/b''"
  using backslash_replacement_total [of "[CHR ''a'', CHR 0x5C, CHR ''b'']"] by (simp add: slashes_def)

lemma replace_loop_stuck:
  assumes "replace_loop a b from s = Some t"
  shows "\<not> (a = [c] \<and> b = [c] \<and> s = [c] \<and> from = 0)"
  using assms
proof (induction rule: replace_loop.raw_induct [rotated, consumes 1])
  case (1 F a b "from" s t)
  show ?case
  proof
    assume eq: "a = [c] \<and> b = [c] \<and> s = [c] \<and> from = 0"
    then have "F [c] [c] 0 [c] = Some t"
      using 1(2) by (simp add: Let_def find_first_of_def pos_to_int_def uint_to_int_def replace_at_def)
    then show False using 1(1) by blast
  qed
qed

text \<open>The replacement loop searches again from the position it has just written, so replacing
  a character by itself never returns.\<close>

theorem replacement_by_itself_diverges: "ReplaceOccurrencesInString [c] [c] [c] = None"
  using replace_loop_stuck [of "[c]" "[c]" 0 "[c]" _ c]
  by (cases "ReplaceOccurrencesInString [c] [c] [c]") (auto simp: ReplaceOccurrencesInString_def)

section \<open>What an accepted path names\<close>

text \<open>
  The reading of a path by the file system: its components between slashes, of which an empty one
  and \<open>.\<close> stay in the directory and \<open>..\<close> leaves it.  \<open>None\<close> is a path that leaves the directory
  the server runs in.
\<close>

fun components :: "string \<Rightarrow> string list" where
  "components [] = [[]]"
| "components (c # cs) = (if c = CHR ''/'' then [] # components cs
     else (c # hd (components cs)) # tl (components cs))"

fun resolve :: "string list \<Rightarrow> string list \<Rightarrow> string list option" where
  "resolve dirs [] = Some dirs"
| "resolve dirs (c # cs) = (if c = [] \<or> c = ''.'' then resolve dirs cs
     else if c = ''..'' then (if dirs = [] then None else resolve (butlast dirs) cs)
     else resolve (dirs @ [c]) cs)"

lemma components_ne [simp]: "components s \<noteq> []"
  by (cases s) auto

lemma components_append_slash: "components (a @ CHR ''/'' # b) = components a @ components b"
  by (induction a) auto

lemma components_no_slash: "CHR ''/'' \<notin> set s \<Longrightarrow> components s = [s]"
  by (induction s) auto

lemma components_sublist: "prefix (hd (components s)) s \<and> (\<forall>x \<in> set (components s). sublist x s)"
proof (induction s)
  case Nil
  then show ?case by simp
next
  case (Cons c cs)
  have tl: "set (tl (components cs)) \<subseteq> set (components cs)"
    by (metis components_ne list.exhaust_sel set_subset_Cons)
  have hd: "sublist (c # hd (components cs)) (c # cs)"
    using Cons.IH by (simp add: prefix_imp_sublist)
  show ?case using Cons.IH tl hd by (auto intro: sublist_Cons_right [THEN iffD2])
qed

lemma resolve_no_dotdot:
  "''..'' \<notin> set cs \<Longrightarrow> resolve dirs cs = Some (dirs @ filter (\<lambda>c. c \<noteq> [] \<and> c \<noteq> ''.'') cs)"
  by (induction cs arbitrary: dirs) auto

lemma valid_chars_iff:
  "valid_chars s \<longleftrightarrow> (\<forall>c \<in> set s. IsWantedCharacter c \<and> c \<noteq> CHR '':'') \<and> \<not> sublist ''..'' s
     \<and> \<not> sublist [backslash, backslash] s"
proof (induction s)
  case Nil
  then show ?case by simp
next
  case (Cons c cs)
  have "prefix [x, x] (c # cs) \<longleftrightarrow> c = x \<and> (case cs of [] \<Rightarrow> nul | d # _ \<Rightarrow> d) = x"
    if "x \<noteq> nul" for x using that by (cases cs) auto
  then show ?case using Cons.IH by (auto simp: Let_def sublist_Cons_right nul_def)
qed

lemma prefix_pair: "prefix [x, y] (c # cs) \<longleftrightarrow> c = x \<and> cs \<noteq> [] \<and> hd cs = y"
  by (cases cs) auto

lemma sublist_slashes:
  assumes "x \<noteq> CHR ''/''" and "x \<noteq> backslash"
  shows "sublist [x, x] (slashes s) \<longleftrightarrow> sublist [x, x] s"
proof (induction s)
  case (Cons c cs)
  have f: "(if d = backslash then CHR ''/'' else d) = x \<longleftrightarrow> d = x" for d using assms by auto
  have "prefix [x, x] (slashes (c # cs)) \<longleftrightarrow> prefix [x, x] (c # cs)"
    by (cases cs) (simp_all only: slashes_def list.map prefix_pair f list.sel not_Cons_self2 list.distinct simp_thms)
  then show ?case using Cons.IH by (simp only: slashes_def list.map sublist_Cons_right)
qed (simp add: slashes_def)

lemma valid_chars_no_dotdot: "valid_chars s \<Longrightarrow> ''..'' \<notin> set (components s)"
  using components_sublist [of s] by (auto simp: valid_chars_iff)

lemma IsValidFilePath_short:
  "nul \<notin> set s \<Longrightarrow> length s < 2 ^ 31 \<Longrightarrow> IsValidFilePath (Some s) = valid_chars s"
  by (simp add: IsValidFilePath_def strlen_def to_uint_def)

definition dir_name :: "string \<Rightarrow> bool" where
  "dir_name r \<longleftrightarrow> r \<noteq> [] \<and> r \<noteq> ''.'' \<and> r \<noteq> ''..'' \<and> CHR ''/'' \<notin> set r"

lemma resolve_resource_path:
  assumes "dir_name r" and "valid_chars meta"
  shows "resolve [] (components (resources_dir @ r @ ''/'' @ meta)) =
    Some ([''mods'', ''deathmatch'', ''resources'', r] @ filter (\<lambda>c. c \<noteq> [] \<and> c \<noteq> ''.'') (components meta))"
proof -
  have "resources_dir @ r @ ''/'' @ meta = ''.'' @ CHR ''/'' # ''mods'' @ CHR ''/'' # ''deathmatch'' @
      CHR ''/'' # ''resources'' @ CHR ''/'' # r @ CHR ''/'' # meta"
    by (simp add: resources_dir_def)
  then have "components (resources_dir @ r @ ''/'' @ meta) =
      [''.'', ''mods'', ''deathmatch'', ''resources'', r] @ components meta"
    using assms(1) by (simp only: components_append_slash) (simp add: dir_name_def components_no_slash)
  then show ?thesis
    using assms valid_chars_no_dotdot [OF assms(2)] by (simp add: resolve_no_dotdot dir_name_def)
qed

lemma nul_slashes: "nul \<notin> set s \<Longrightarrow> nul \<notin> set (slashes s)"
  by (auto simp: slashes_def nul_def)

lemma parse_replaced_other:
  assumes "length s < 2 ^ 31" and "nul \<notin> set s" and "char_at s 0 = CHR '':''"
    and "parse_replaced known s rName = Some (path, meta)"
  shows "\<exists>r. known r \<and> CHR ''/'' \<notin> set r \<and> valid_chars meta \<and> s = '':'' @ r @ ''/'' @ meta
    \<and> path = resources_dir @ r @ ''/'' @ meta"
proof (cases "find_first_of s ''/'' 0")
  case None
  then have "meta = s" "valid_chars meta" using assms
    by (auto simp: parse_replaced_def pos_to_uint_def to_uint_def Let_def IsValidFilePath_short split: if_splits)
  then show ?thesis using assms(3) by (cases s) (auto simp: char_at_def nul_def split: if_splits)
next
  case (Some k)
  then have k: "k < length s" "s ! k = CHR ''/''" "\<forall>j < k. s ! j \<noteq> CHR ''/''"
    by (auto simp: find_first_of_Some)
  have s0: "s ! 0 = CHR '':''" "s \<noteq> []" using assms(3) by (auto simp: char_at_def nul_def split: if_splits)
  then have k0: "0 < k" using k by (cases k) auto
  define r where "r = take (k - 1) (drop 1 s)"
  have split: "s = '':'' @ r @ ''/'' @ drop (k + 1) s"
  proof -
    have "s = take k s @ s ! k # drop (Suc k) s" using k(1) by (rule id_take_nth_drop)
    moreover have "take k s = CHR '':'' # r" using s0 k0 k(1)
      by (cases s; cases k) (auto simp: r_def)
    ultimately show ?thesis using k(2) by simp
  qed
  have slash: "CHR ''/'' \<notin> set r"
    using k(1,3) by (auto simp: r_def in_set_conv_nth)
  have nul: "nul \<notin> set r" "nul \<notin> set (drop (Suc k) s)"
    using assms(2) by (auto simp: r_def dest: in_set_takeD in_set_dropD)
  have kk: "int k < 2 ^ 31" using k(1) assms(1) by simp
  have ends: "nat (to_uint (int k - 1)) = k - 1" "nat (to_uint (int k + 1)) = k + 1" "to_uint (int k) = int k"
    using k0 kk by (auto simp: to_uint_def nat_eq_iff)
  have "parse_replaced known s rName = (if known (c_str r) \<and> char_at s (k + 1) \<noteq> nul then
      if IsValidFilePath (Some (c_str (drop (k + 1) s)))
      then Some (resources_dir @ r @ ''/'' @ drop (k + 1) s, drop (k + 1) s) else None else None)"
    using assms(3) Some k0 by (simp add: parse_replaced_def pos_to_uint_def Let_def ends r_def)
  then have "known r" "IsValidFilePath (Some (c_str (drop (k + 1) s)))" "meta = drop (k + 1) s"
      "path = resources_dir @ r @ ''/'' @ drop (k + 1) s"
    using assms(4) nul(1) by (auto split: if_splits)
  then show ?thesis
    using split slash nul assms(1) by (intro exI [of _ r]) (auto simp: IsValidFilePath_short)
qed

lemma parse_replaced_own:
  assumes "length s < 2 ^ 31" and "nul \<notin> set s" and "char_at s 0 \<noteq> CHR '':''"
  shows "parse_replaced known s rName =
    (if valid_chars s then Some (resources_dir @ rName @ ''/'' @ s, s) else None)"
  using assms by (simp add: parse_replaced_def IsValidFilePath_short)

lemma ParseResourcePathInput_slashes:
  assumes "length s < 2 ^ 31"
  shows "ParseResourcePathInput known s rName = Some (parse_replaced known (slashes s) rName)"
  using assms by (simp add: ParseResourcePathInput_def ReplaceOccurrencesInString_def replace_loop_slashes)

definition inside_resource :: "(string \<Rightarrow> bool) \<Rightarrow> string \<Rightarrow> string \<Rightarrow> bool" where
  "inside_resource known rName path \<longleftrightarrow> (\<exists>r below. (r = rName \<or> known r) \<and>
     resolve [] (components path) = Some ([''mods'', ''deathmatch'', ''resources'', r] @ below))"

lemma accepted_path_inside:
  assumes "length s < 2 ^ 31" and "nul \<notin> set s"
    and "dir_name rName" and "\<forall>n. known n \<longrightarrow> n \<noteq> [] \<and> n \<noteq> ''.'' \<and> n \<noteq> ''..''"
    and "ParseResourcePathInput known s rName = Some (Some (path, meta))"
  shows "inside_resource known rName path"
proof -
  let ?t = "slashes s"
  have t: "length ?t < 2 ^ 31" "nul \<notin> set ?t" using assms(1,2) by (auto simp: nul_slashes)
  have p: "parse_replaced known ?t rName = Some (path, meta)"
    using assms(1,5) by (simp add: ParseResourcePathInput_slashes)
  show ?thesis
  proof (cases "char_at ?t 0 = CHR '':''")
    case True
    then obtain r where "known r" "CHR ''/'' \<notin> set r" "valid_chars meta" "path = resources_dir @ r @ ''/'' @ meta"
      using parse_replaced_other [OF t True p] by blast
    then show ?thesis using resolve_resource_path [of r meta] assms(4) by (auto simp: dir_name_def inside_resource_def)
  next
    case False
    then have "valid_chars meta" "path = resources_dir @ rName @ ''/'' @ meta"
      using p parse_replaced_own [OF t False] by (auto split: if_splits)
    then show ?thesis using resolve_resource_path [OF assms(3)] by (auto simp: inside_resource_def)
  qed
qed

lemma accepted_path_no_nul:
  assumes "length s < 2 ^ 31" and "nul \<notin> set s" and "nul \<notin> set rName"
    and "ParseResourcePathInput known s rName = Some (Some (path, meta))"
  shows "c_str path = path"
proof -
  let ?t = "slashes s"
  have t: "length ?t < 2 ^ 31" "nul \<notin> set ?t" using assms(1,2) by (auto simp: nul_slashes)
  have p: "parse_replaced known ?t rName = Some (path, meta)"
    using assms(1,4) by (simp add: ParseResourcePathInput_slashes)
  have "nul \<notin> set resources_dir" by code_simp
  moreover have "nul \<noteq> CHR ''/''" by (simp add: nul_def)
  ultimately have "nul \<notin> set path"
    using p parse_replaced_other [OF t _ p] parse_replaced_own [OF t, of known rName] t(2) assms(3)
    by (cases "char_at ?t 0 = CHR '':''") (auto split: if_splits)
  then show ?thesis by simp
qed

text \<open>C10: A path the module accepts stays inside the directory of one resource: read by the file
  system, the file named by the accepted path lies below \<open>mods/deathmatch/resources/r\<close>, where \<open>r\<close>
  is the calling resource or a resource the server knows.  The name of the caller is a directory
  name, the server knows no resource without a name or called \<open>.\<close> or \<open>..\<close>, and the argument is
  the C string of a Lua value of less than 2^31 characters.\<close>

theorem accepted_path_confined:
  assumes "length s < 2 ^ 31" and "nul \<notin> set s"
    and "dir_name rName" and "\<forall>n. known n \<longrightarrow> n \<noteq> [] \<and> n \<noteq> ''.'' \<and> n \<noteq> ''..''"
    and "ParseResourcePathInput known s rName = Some (Some (path, meta))"
  shows "\<exists>r below. (r = rName \<or> known r) \<and>
    resolve [] (components path) = Some ([''mods'', ''deathmatch'', ''resources'', r] @ below)"
  using accepted_path_inside [OF assms] by (simp add: inside_resource_def)

theorem accepted_path_confined_witness:
  "\<exists>r below. (r = ''me'' \<or> r = ''maps'') \<and>
    resolve [] (components ''./mods/deathmatch/resources/maps/a/b.png'') =
    Some ([''mods'', ''deathmatch'', ''resources'', r] @ below)"
proof -
  have "ParseResourcePathInput (\<lambda>n. n = ''maps'') '':maps/a/b.png'' ''me'' =
    Some (Some (''./mods/deathmatch/resources/maps/a/b.png'', ''a/b.png''))"
    by (subst ParseResourcePathInput_slashes, simp) code_simp
  then show ?thesis
    by (intro accepted_path_confined [where known = "\<lambda>n. n = ''maps''"]) (simp_all add: dir_name_def nul_def)
qed

text \<open>C27: A name relative to the calling resource (one that does not start with a colon) is
  accepted exactly when, with its backslashes read as slashes, every character is a visible ASCII
  character other than a colon and two dots never stand next to each other; the file is then the
  one of that name below the caller's directory.\<close>

theorem own_path_accepted_iff:
  assumes "length s < 2 ^ 31" and "nul \<notin> set s" and "char_at s 0 \<noteq> CHR '':''"
  shows "ParseResourcePathInput known s rName = Some
    (if (\<forall>c \<in> set s. IsWantedCharacter c \<and> c \<noteq> CHR '':'') \<and> \<not> sublist ''..'' s
     then Some (resources_dir @ rName @ ''/'' @ slashes s, slashes s) else None)"
proof -
  have chars: "(\<forall>c \<in> set (slashes s). IsWantedCharacter c \<and> c \<noteq> CHR '':'') \<longleftrightarrow>
      (\<forall>c \<in> set s. IsWantedCharacter c \<and> c \<noteq> CHR '':'')"
  proof -
    have "IsWantedCharacter (CHR ''/'')" "IsWantedCharacter backslash" by code_simp+
    then have "(IsWantedCharacter (if c = backslash then CHR ''/'' else c) \<and>
        (if c = backslash then CHR ''/'' else c) \<noteq> CHR '':'') = (IsWantedCharacter c \<and> c \<noteq> CHR '':'')" for c
      by (cases "c = backslash") simp_all
    then show ?thesis by (simp only: slashes_def set_map ball_simps)
  qed
  have dots: "sublist ''..'' (slashes s) \<longleftrightarrow> sublist ''..'' s"
    by (simp add: sublist_slashes)
  have "\<not> sublist [backslash, backslash] (slashes s)"
    using slashes_no_backslash [of s] set_mono_sublist by fastforce
  then have "valid_chars (slashes s) \<longleftrightarrow>
      (\<forall>c \<in> set s. IsWantedCharacter c \<and> c \<noteq> CHR '':'') \<and> \<not> sublist ''..'' s"
    by (simp add: valid_chars_iff chars dots)
  moreover have "char_at (slashes s) 0 \<noteq> CHR '':''"
    using assms(3) by (cases s) (auto simp: slashes_def char_at_def)
  ultimately show ?thesis
    using assms(1,2) by (simp add: ParseResourcePathInput_slashes parse_replaced_own nul_slashes)
qed

theorem own_path_accepted_iff_witness:
  "ParseResourcePathInput (\<lambda>_. False) ''a/../b'' ''me'' = Some None \<and>
   ParseResourcePathInput (\<lambda>_. False) ''a/b.png'' ''me'' =
     Some (Some (''./mods/deathmatch/resources/me/a/b.png'', ''a/b.png''))"
  using own_path_accepted_iff [of "''a/../b''" "\<lambda>_. False" "''me''"]
    own_path_accepted_iff [of "''a/b.png''" "\<lambda>_. False" "''me''"]
  by (simp add: char_at_def nul_def sublist_Cons_right IsWantedCharacter_def resources_dir_def slashes_def)

end
