(* ===== verification/GdImages.thy ===== *)
theory GdImages
  imports LuaAux TxdFormat FilePaths
begin

text \<open>
  The objects of the Texturizer module: the image registry (\<open>GdImgManager.cpp\<close>), the texture
  containers (\<open>TextureContainer.cpp\<close>), the conversion of an image to texture data
  (\<open>TextureImage.cpp\<close>, \<open>TextureData.cpp\<close>) and the module entry points (\<open>ml_base.cpp\<close>).  The gd and
  squish libraries are the parameter \<open>gd_lib\<close>: the functions that take an image and integers are
  told apart by the constructors of \<open>gd_fun\<close>, fields of the image structure included; a library
  call may be undefined (\<open>None\<close>), as it is on an image that was destroyed.  The world extends the
  Lua machine by the objects of the module, the state of gd, the files and the server's answers.
\<close>

section \<open>State\<close>

datatype gd_fun = gdImageSX | gdImageSY | gdImageTrueColor | gdImageAlphaBlendingFlag
  | gdImageSaveAlphaFlag | gdImageThick | gdImageGetInterlaced | gdImageColorsTotal
  | gdImageAlphaBlending | gdImageInterlace | gdImageSaveAlpha | gdImageColorAllocate
  | gdImageColorAllocateAlpha | gdImageColorClosest | gdImageColorClosestAlpha | gdImageColorExact
  | gdImageColorExactAlpha | gdImageColorResolve | gdImageColorResolveAlpha | gdImageBoundsSafe
  | gdImageGetPixel | gdImageSetPixel | gdImageColorDeallocate | gdImageSetThickness | gdImageLine
  | gdImageArc | gdImageRectangle | gdImageFill | gdImageFillToBorder | gdImageFilledArc
  | gdImageFilledRectangle | gdImageRed | gdImageGreen | gdImageBlue | gdImageAlpha

datatype gd_text = gdImageChar | gdImageCharUp | gdImageString | gdImageStringUp

datatype img_type = IMAGE_PNG | IMAGE_GIF | IMAGE_JPEG

datatype gd_font = gdFontTiny | gdFontSmall | gdFontMediumBold | gdFontLarge | gdFontGiant

type_synonym ('g, 'a) gdcall = "'g \<Rightarrow> ('a \<times> 'g) option"

record 'g gd_lib =
  gd_int :: "gd_fun \<Rightarrow> ptr \<Rightarrow> int list \<Rightarrow> ('g, int) gdcall"
  gd_create :: "bool \<Rightarrow> int \<Rightarrow> int \<Rightarrow> ('g, ptr) gdcall"
  gd_create_from :: "img_type \<Rightarrow> bytes \<Rightarrow> ('g, ptr) gdcall"
  gd_destroy :: "ptr \<Rightarrow> ('g, unit) gdcall"
  gd_encode :: "img_type \<Rightarrow> ptr \<Rightarrow> int \<Rightarrow> ('g, bytes) gdcall"
  gd_text_fun :: "gd_text \<Rightarrow> ptr \<Rightarrow> gd_font \<Rightarrow> int \<Rightarrow> int \<Rightarrow> string \<Rightarrow> int \<Rightarrow> ('g, unit) gdcall"
  gd_stringFT :: "ptr \<Rightarrow> int \<Rightarrow> string \<Rightarrow> double \<Rightarrow> double \<Rightarrow> int \<Rightarrow> int \<Rightarrow> string \<Rightarrow>
     ('g, string option \<times> int list) gdcall"
  gd_style :: "ptr \<Rightarrow> ('g, int list option) gdcall"
  gd_set_style :: "ptr \<Rightarrow> int list \<Rightarrow> ('g, unit) gdcall"
  gd_brush :: "ptr \<Rightarrow> ('g, ptr) gdcall"
  gd_set_brush :: "ptr \<Rightarrow> ptr \<Rightarrow> ('g, unit) gdcall"
  gd_tile :: "ptr \<Rightarrow> ('g, ptr) gdcall"
  gd_set_tile :: "ptr \<Rightarrow> ptr \<Rightarrow> ('g, unit) gdcall"
  gd_font_h :: "gd_font \<Rightarrow> int"
  gd_font_w :: "gd_font \<Rightarrow> int"
  gdStyled :: int
  gdBrushed :: int
  gdStyledBrushed :: int
  gdTiled :: int
  gdTransparent :: int
  gdAntiAliased :: int
  gdArc :: int
  gdChord :: int
  gdNoFill :: int
  gdEdged :: int
  GD_VERSION_STRING :: string
  squish_CompressImage :: "bytes \<Rightarrow> int \<Rightarrow> int \<Rightarrow> bytes"

record mtaGdImage =
  img :: ptr
  antialiase :: bool
  resource :: ptr

record TextureContainer =
  mContainers :: "(int, TextureDictionary) stdmap"
  mIndex :: int

text \<open>
  \<open>mTextureContainer\<close> is \<open>None\<close> while the global pointer is null or dangling.  \<open>uninit_block\<close> and
  \<open>uninit_word\<close> are what fresh memory happens to hold.
\<close>

record 'g gd_world = lua_State +
  mTextureContainer :: "TextureContainer option"
  theImages :: "(ptr, mtaGdImage) stdmap"
  gd :: 'g
  files :: "string \<Rightarrow> bytes option"
  writable :: "string \<Rightarrow> bool"
  resource_name :: "string option"
  resource_vm :: "string \<Rightarrow> ptr"
  debug_log :: "string list"
  uninit_block :: "nat \<Rightarrow> bytes"
  uninit_word :: "32 word"

type_synonym ('g, 'a) gdm = "('g gd_world, 'a) lua"
type_synonym 'g gd_run = "ptr \<Rightarrow> ('g, TValue list) gdm"

definition gdc :: "('g, 'a) gdcall \<Rightarrow> ('g, 'a) gdm" where
  "gdc f = (\<lambda>w. case f (gd w) of None \<Rightarrow> Undef | Some (a, g) \<Rightarrow> Ret a (w\<lparr>gd := g\<rparr>))"

definition DebugPrintf :: "string \<Rightarrow> ('g, unit) gdm" where
  "DebugPrintf msg = modify (\<lambda>w. w\<lparr>debug_log := debug_log w @ [msg]\<rparr>)"

definition c_int :: "int \<Rightarrow> ('g, int) gdm" where
  "c_int n = (if - (2 ^ 31) \<le> n \<and> n < 2 ^ 31 then ret n else undef)"

definition c_div :: "int \<Rightarrow> int \<Rightarrow> int" where
  "c_div a b = (if a < 0 then - ((- a) div b) else a div b)"

definition find_gd_font :: "int \<Rightarrow> gd_font" where
  "find_gd_font n = (if n = 1 then gdFontTiny else if n = 2 then gdFontSmall else if n = 3 then gdFontMediumBold
     else if n = 4 then gdFontLarge else if n = 5 then gdFontGiant else gdFontTiny)"

section \<open>The image registry\<close>

definition GetResource :: "('g, ptr) gdm" where
  "GetResource = bnd (gets resource_name) (\<lambda>n. case n of
     Some r \<Rightarrow> gets (\<lambda>w. resource_vm w (c_str r)) | None \<Rightarrow> ret 0)"

definition register_image :: "ptr \<Rightarrow> ptr \<Rightarrow> ('g, ptr) gdm" where
  "register_image p im = (if im \<noteq> 0 then bnd GetResource (\<lambda>r.
     andThen (modify (\<lambda>w. w\<lparr>theImages := map_put p \<lparr>img = im, antialiase = False, resource = r\<rparr> (theImages w)\<rparr>))
    (ret p)) else ret 0)"

definition AddImage :: "'g gd_lib \<Rightarrow> int \<Rightarrow> int \<Rightarrow> bool \<Rightarrow> ('g, ptr) gdm" where
  "AddImage G width height trueColor = bnd (lua_newuserdata 128) (\<lambda>p.
     if p \<noteq> 0 then bnd (gdc (gd_create G trueColor width height)) (register_image p) else ret 0)"

definition AddImage_file :: "'g gd_lib \<Rightarrow> img_type \<Rightarrow> string \<Rightarrow> ('g, ptr) gdm" where
  "AddImage_file G type rFilePath = bnd (lua_newuserdata 128) (\<lambda>p.
     if p \<noteq> 0 then bnd (gets (\<lambda>w. files w (c_str rFilePath))) (\<lambda>f. case f of
       Some content \<Rightarrow> bnd (gdc (gd_create_from G type content)) (register_image p)
     | None \<Rightarrow> ret 0) else ret 0)"

definition GetImage :: "ptr \<Rightarrow> ('g, ptr) gdm" where
  "GetImage userData = gets (\<lambda>w. case map_find userData (theImages w) of Some i \<Rightarrow> img i | None \<Rightarrow> 0)"

definition RemoveImage :: "'g gd_lib \<Rightarrow> ptr \<Rightarrow> ('g, unit) gdm" where
  "RemoveImage G userData = bnd (GetImage userData) (\<lambda>im. whenever (im \<noteq> 0)
     (andThen (gdc (gd_destroy G im)) (modify (\<lambda>w. w\<lparr>theImages := map_erase userData (theImages w)\<rparr>))))"

definition ResourceCleanup :: "'g gd_lib \<Rightarrow> ptr \<Rightarrow> ('g, unit) gdm" where
  "ResourceCleanup G userData = bnd (gets (\<lambda>w. map fst (filter (\<lambda>(p, i). resource i = userData) (theImages w))))
     (\<lambda>remImages. forEach remImages (RemoveImage G))"

definition SetImageAA :: "ptr \<Rightarrow> bool \<Rightarrow> ('g, unit) gdm" where
  "SetImageAA userData useAA = modify (\<lambda>w. case map_find userData (theImages w) of
     Some i \<Rightarrow> w\<lparr>theImages := map_put userData (i\<lparr>antialiase := useAA\<rparr>) (theImages w)\<rparr> | None \<Rightarrow> w)"

definition GetImageAA :: "ptr \<Rightarrow> ('g, bool) gdm" where
  "GetImageAA userData = gets (\<lambda>w. case map_find userData (theImages w) of Some i \<Rightarrow> antialiase i | None \<Rightarrow> False)"

definition GdImgManager_delete :: "'g gd_lib \<Rightarrow> ('g, unit) gdm" where
  "GdImgManager_delete G = bnd (gets theImages) (\<lambda>is.
     andThen (forEach is (\<lambda>(p, i). gdc (gd_destroy G (img i)))) (modify (\<lambda>w. w\<lparr>theImages := []\<rparr>)))"

section \<open>Containers\<close>

definition container :: "('g, TextureContainer) gdm" where
  "container = bnd (gets mTextureContainer) defined"

definition TextureContainer_new :: TextureContainer where
  "TextureContainer_new = \<lparr>mContainers = [], mIndex = 1\<rparr>"

definition AddContainer :: "('g, int) gdm" where
  "AddContainer = bnd container (\<lambda>c. andThen (modify (\<lambda>w. w\<lparr>mTextureContainer :=
     Some \<lparr>mContainers = map_put (mIndex c) TextureDictionary_new (mContainers c), mIndex = mIndex c + 1\<rparr>\<rparr>))
     (ret (mIndex c)))"

definition HasMember :: "int \<Rightarrow> ('g, bool) gdm" where
  "HasMember index = bnd container (\<lambda>c. ret (map_find index (mContainers c) \<noteq> None))"

text \<open>The methods of a dictionary are called through the pointer in the map.\<close>

definition dictionary :: "int \<Rightarrow> ('g, TextureDictionary) gdm" where
  "dictionary index = bnd container (\<lambda>c. defined (map_find index (mContainers c)))"

definition set_dictionary :: "int \<Rightarrow> TextureDictionary \<Rightarrow> ('g, unit) gdm" where
  "set_dictionary index d = bnd container (\<lambda>c. if map_find index (mContainers c) = None then undef
     else modify (\<lambda>w. w\<lparr>mTextureContainer := Some (c\<lparr>mContainers := map_put index d (mContainers c)\<rparr>)\<rparr>))"

section \<open>Texture data of an image\<close>

abbreviation (input) FORMAT_DEFAULT :: "32 word" where "FORMAT_DEFAULT \<equiv> 0x0000"
abbreviation (input) FORMAT_1555 :: "32 word" where "FORMAT_1555 \<equiv> 0x0100"
abbreviation (input) FORMAT_565 :: "32 word" where "FORMAT_565 \<equiv> 0x0200"
abbreviation (input) FORMAT_4444 :: "32 word" where "FORMAT_4444 \<equiv> 0x0300"
abbreviation (input) FORMAT_LUM8 :: "32 word" where "FORMAT_LUM8 \<equiv> 0x0400"
abbreviation (input) FORMAT_8888 :: "32 word" where "FORMAT_8888 \<equiv> 0x0500"
abbreviation (input) FORMAT_888 :: "32 word" where "FORMAT_888 \<equiv> 0x0600"
abbreviation (input) FORMAT_555 :: "32 word" where "FORMAT_555 \<equiv> 0x0A00"
abbreviation (input) ORDER_RGBA :: int where "ORDER_RGBA \<equiv> 0"
abbreviation (input) ORDER_BGRA :: int where "ORDER_BGRA \<equiv> 1"

text \<open>The two dimensions are unset until an image was loaded.\<close>

record TextureImage =
  fileName :: string
  myImage :: ptr
  errorCode :: int
  fromFile :: bool
  fOrder :: "(32 word, int) stdmap"
  cFilter :: "32 word"
  ti_width :: "int option"
  ti_height :: "int option"
  fileData :: bytes

definition TextureImage_Init :: "TextureImage \<Rightarrow> TextureImage" where
  "TextureImage_Init t = t\<lparr>cFilter := FORMAT_DEFAULT, fOrder := fold (\<lambda>(f, r). map_put f r)
     [(FORMAT_DEFAULT, ORDER_RGBA), (FORMAT_1555, ORDER_RGBA), (FORMAT_565, ORDER_RGBA), (FORMAT_4444, ORDER_RGBA),
      (FORMAT_LUM8, ORDER_RGBA), (FORMAT_8888, ORDER_BGRA), (FORMAT_888, ORDER_BGRA), (FORMAT_555, ORDER_RGBA)]
     (fOrder t)\<rparr>"

definition TextureImage_new :: TextureImage where
  "TextureImage_new = TextureImage_Init \<lparr>fileName = [], myImage = 0, errorCode = - 1, fromFile = False,
     fOrder = [], cFilter = 0, ti_width = None, ti_height = None, fileData = []\<rparr>"

definition TextureImage_of_file :: "string \<Rightarrow> TextureImage" where
  "TextureImage_of_file fName = TextureImage_Init \<lparr>fileName = fName, myImage = 0, errorCode = - 1, fromFile = True,
     fOrder = [], cFilter = 0, ti_width = None, ti_height = None, fileData = []\<rparr>"

definition TextureImage_of_image :: "ptr \<Rightarrow> TextureImage" where
  "TextureImage_of_image im = TextureImage_Init \<lparr>fileName = [], myImage = im, errorCode = - 1, fromFile = False,
     fOrder = [], cFilter = 0, ti_width = None, ti_height = None, fileData = []\<rparr>"

definition LoadFromFile :: "'g gd_lib \<Rightarrow> TextureImage \<Rightarrow> ('g, TextureImage) gdm" where
  "LoadFromFile G t = bnd (gets (\<lambda>w. files w (c_str (fileName t)))) (\<lambda>f. case f of
     Some buffer \<Rightarrow> bnd (gdc (gd_create_from G IMAGE_PNG buffer)) (\<lambda>im. ret (t\<lparr>myImage := im\<rparr>))
   | None \<Rightarrow> ret (t\<lparr>errorCode := - 2\<rparr>))"

text \<open>The four bytes of a pixel, converted to \<open>unsigned char\<close>.\<close>

definition pixel_bytes :: "'g gd_lib \<Rightarrow> ptr \<Rightarrow> int \<Rightarrow> bool \<Rightarrow> int \<Rightarrow> int \<Rightarrow> ('g, bytes) gdm" where
  "pixel_bytes G im order mAlpha x y =
     bnd (gdc (gd_int G gdImageGetPixel im [x, y])) (\<lambda>c.
     bnd (gdc (gd_int G gdImageRed im [c])) (\<lambda>r. bnd (gdc (gd_int G gdImageGreen im [c])) (\<lambda>g.
     bnd (gdc (gd_int G gdImageBlue im [c])) (\<lambda>b.
     bnd (if mAlpha then bnd (gdc (gd_int G gdImageAlpha im [c])) (\<lambda>a. ret (0xFF * c_div a 127)) else ret 0xFF) (\<lambda>a.
     ret (map word_of_int (if order = ORDER_RGBA then [r, g, b, a] else [b, g, r, a])))))))"

definition LoadImageToData :: "'g gd_lib \<Rightarrow> 32 word \<Rightarrow> bool \<Rightarrow> TextureImage \<Rightarrow> ('g, TextureImage) gdm" where
  "LoadImageToData G fmt mAlpha t0 =
     bnd (if fromFile t0 then LoadFromFile G (t0\<lparr>cFilter := fmt\<rparr>) else ret (t0\<lparr>cFilter := fmt\<rparr>)) (\<lambda>t.
     if myImage t = 0 then ret (t\<lparr>errorCode := - 3\<rparr>)
     else bnd (gdc (gd_int G gdImageSX (myImage t) [])) (\<lambda>width. bnd (gdc (gd_int G gdImageSY (myImage t) [])) (\<lambda>height.
       andThen (bnd (c_int (width * height)) (\<lambda>n. c_int (n * 4)))
      (bnd (foldProg [0..height - 1] (\<lambda>y. foldProg [0..width - 1] (\<lambda>x acc.
          bnd (pixel_bytes G (myImage t) (case map_find (cFilter t) (fOrder t) of Some r \<Rightarrow> r | None \<Rightarrow> 0) mAlpha x y)
           (\<lambda>bs. ret (acc @ bs)))) (fileData t)) (\<lambda>dat.
       andThen (whenever (fromFile t) (gdc (gd_destroy G (myImage t))))
      (ret (t\<lparr>ti_width := Some width, ti_height := Some height, fileData := dat, errorCode := 0\<rparr>)))))))"

text \<open>
  \<open>CompressImage\<close> writes into a block of \<open>width*height/2\<close> bytes: a longer result overruns the
  block, a shorter one leaves bytes that were never written.
\<close>

definition Compress :: "'g gd_lib \<Rightarrow> TextureImage \<Rightarrow> ('g, TextureImage) gdm" where
  "Compress G t = bnd (defined (ti_width t)) (\<lambda>width. bnd (defined (ti_height t)) (\<lambda>height.
     bnd (bnd (c_int (width * height)) (\<lambda>n. c_int (n * 4))) (\<lambda>n.
     if int (length (fileData t)) > n then undef
     else let block = squish_CompressImage G (fileData t) width height in
       if int (length block) \<noteq> c_div (width * height) 2 then undef else ret (t\<lparr>fileData := block\<rparr>))))"

definition texture_format :: "bool \<Rightarrow> bool \<Rightarrow> 32 word" where
  "texture_format compress hasAlpha = (if compress then (if hasAlpha then FORMAT_1555 else FORMAT_565)
     else (if hasAlpha then FORMAT_8888 else FORMAT_888))"

definition byte_of :: "char \<Rightarrow> byte" where
  "byte_of c = word_of_nat (of_char c)"

text \<open>\<open>memset\<close> of a 32-byte array and \<open>strcpy\<close> into it, which runs over the array when the string
  and its zero do not fit.\<close>

definition name_field :: "string \<Rightarrow> ('g, bytes) gdm" where
  "name_field s = (if length s < 32 then ret (map byte_of s @ replicate (32 - length s) 0) else undef)"

definition texture_struct ::
  "string \<Rightarrow> string \<Rightarrow> bool \<Rightarrow> bool \<Rightarrow> TextureImage \<Rightarrow> bytes \<Rightarrow> 32 word \<Rightarrow> ('g, txd_texture_data_t) gdm" where
  "texture_struct tName aName hasAlpha compress t dat chunk0 =
     bnd (name_field tName) (\<lambda>tn. bnd (if hasAlpha then name_field aName else ret (replicate 32 0)) (\<lambda>an.
     bnd (defined (ti_width t)) (\<lambda>width. bnd (defined (ti_height t)) (\<lambda>height.
     let n = word_of_nat (length (fileData t)) in
     ret \<lparr>td_id = 0x01, td_chunk_size = chunk0 + 5 * 4 + 64 + 2 * 2 + 4 * 1 + 0 + n, td_marker = VERSION_GTASA,
       td_version = 0x09, td_filter_flags = 0x1101, td_texture_name = tn, td_alpha_name = an,
       td_alpha_flags = texture_format compress hasAlpha,
       td_direct3d_texture_format = (if compress then 0x31545844 else 0),
       td_width = word_of_int width, td_height = word_of_int height, td_depth = 0x10, td_mipmap_count = 1,
       td_texcode_type = 0x04, td_flags = (if compress then (if hasAlpha then 9 else 8) else (if hasAlpha then 1 else 0)),
       td_palette = None, td_data_size = n, td_data = Some dat\<rparr>))))"

text \<open>
  The constructor of \<open>TextureData\<close> allocates the data block and never fills it, and adds the sizes
  to a \<open>chunk_size\<close> that was never set.
\<close>

definition TextureData_new ::
  "'g gd_lib \<Rightarrow> string \<Rightarrow> string \<Rightarrow> bool \<Rightarrow> bool \<Rightarrow> TextureImage \<Rightarrow> ('g, txd_texture_data_t) gdm" where
  "TextureData_new G tName aName hasAlpha compress t0 =
     bnd (LoadImageToData G (texture_format compress hasAlpha) hasAlpha t0) (\<lambda>t1.
     bnd (if compress then Compress G t1 else ret t1) (\<lambda>t.
     bnd (gets (\<lambda>w. uninit_block w (length (fileData t)))) (\<lambda>dat. bnd (gets uninit_word) (\<lambda>chunk0.
     texture_struct tName aName hasAlpha compress t dat chunk0))))"

section \<open>Module entry points\<close>

definition Texturizer_InitModule :: "('g, bool) gdm" where
  "Texturizer_InitModule = andThen (modify (\<lambda>w. w\<lparr>mTextureContainer := Some TextureContainer_new, theImages := []\<rparr>))
     (ret True)"

text \<open>\<open>ShutdownModule\<close> deletes the containers and leaves the image manager, and every image, allocated.\<close>

definition Texturizer_ShutdownModule :: "('g, bool) gdm" where
  "Texturizer_ShutdownModule = andThen (modify (\<lambda>w. w\<lparr>mTextureContainer := None\<rparr>)) (ret True)"

definition Texturizer_DoPulse :: "('g, bool) gdm" where
  "Texturizer_DoPulse = ret True"

end
