(* ===== verification/GdFunctions.thy ===== *)
theory GdFunctions
  imports GdImages
begin

text \<open>
  The Lua functions of the Texturizer module (\<open>CFunctions.cpp\<close>), one definition for each.  They
  share their frame: the types of the arguments are tested, a wrong type is reported to the debug
  log and gives \<open>false\<close>, the image is looked up by the light userdata in front.  The result of a
  function is the number of values it says it left on the stack; several functions say one and
  leave none, or leave \<open>false\<close> and say none, and the definitions keep that.
\<close>

section \<open>The frame of a function\<close>

fun args_are :: "int \<Rightarrow> int list \<Rightarrow> ('g, bool) gdm" where
  "args_are i [] = ret True"
| "args_are i (t # ts) = bnd (lua_type i) (\<lambda>u. if u = t then args_are (i + 1) ts else ret False)"

definition bad_args :: "string \<Rightarrow> int \<Rightarrow> ('g, int) gdm" where
  "bad_args name r = andThen (DebugPrintf (''Incorrect parameters in: '' @ name))
     (andThen (lua_pushboolean False) (ret r))"

definition handler :: "string \<Rightarrow> int list \<Rightarrow> int \<Rightarrow> ('g, unit) gdm \<Rightarrow> ('g, int) gdm" where
  "handler name ts r body = bnd (args_are 1 ts) (\<lambda>ok. if ok then andThen body (ret 1) else bad_args name r)"

definition num_arg :: "int \<Rightarrow> ('g, int) gdm" where
  "num_arg i = bnd (lua_tonumber i) (\<lambda>d. defined (to_c_int d))"

fun num_args :: "int list \<Rightarrow> ('g, int list) gdm" where
  "num_args [] = ret []"
| "num_args (i # is) = bnd (num_arg i) (\<lambda>n. bnd (num_args is) (\<lambda>ns. ret (n # ns)))"

definition str_arg :: "int \<Rightarrow> ('g, string) gdm" where
  "str_arg i = bnd (lua_tolstring i) (\<lambda>r. bnd (defined r) (\<lambda>s. ret (c_str s)))"

definition push_int :: "int \<Rightarrow> ('g, unit) gdm" where
  "push_int n = lua_pushnumber (Fin (of_int n))"

definition with_image :: "(ptr \<Rightarrow> ('g, unit) gdm) \<Rightarrow> ('g, unit) gdm" where
  "with_image body = bnd (lua_touserdata 1) (\<lambda>p. bnd (GetImage p) (\<lambda>im.
     if im \<noteq> 0 then body im else lua_pushboolean False))"

text \<open>\<open>GetResourceName\<close>, then \<open>ParseResourcePathInput\<close> on an argument.\<close>

definition with_resource :: "(string \<Rightarrow> ('g, unit) gdm) \<Rightarrow> ('g, unit) gdm" where
  "with_resource body = bnd (gets resource_name) (\<lambda>n. case n of
     None \<Rightarrow> lua_pushboolean False | Some r \<Rightarrow> body r)"

definition with_path :: "string \<Rightarrow> string \<Rightarrow> ('g, unit) gdm \<Rightarrow> (string \<Rightarrow> ('g, unit) gdm) \<Rightarrow> ('g, unit) gdm" where
  "with_path fName r bad body = bnd (gets (\<lambda>w n. resource_vm w n \<noteq> 0)) (\<lambda>known.
     bnd (defined (ParseResourcePathInput known fName r)) (\<lambda>p. case p of
       None \<Rightarrow> bad | Some (fNewPath, fMetaPath) \<Rightarrow> body fNewPath))"

definition bad_path :: "string \<Rightarrow> ('g, unit) gdm" where
  "bad_path name = andThen (DebugPrintf (''Bad filepath in: '' @ name)) (lua_pushboolean False)"

text \<open>A stream that is opened for writing truncates the file.\<close>

definition open_out :: "string \<Rightarrow> ('g, bool) gdm" where
  "open_out path = bnd (gets (\<lambda>w. writable w (c_str path))) (\<lambda>b. if b
     then andThen (modify (\<lambda>w. w\<lparr>files := (files w)(c_str path \<mapsto> [])\<rparr>)) (ret True) else ret False)"

definition write_file :: "string \<Rightarrow> bytes \<Rightarrow> ('g, unit) gdm" where
  "write_file path bs = modify (\<lambda>w. w\<lparr>files := (files w)(c_str path \<mapsto> bs)\<rparr>)"

fun push_table :: "'g gd_run \<Rightarrow> int \<Rightarrow> int list \<Rightarrow> ('g, unit) gdm" where
  "push_table run i [] = ret ()"
| "push_table run i (x # xs) = andThen (push_int i) (andThen (push_int x) (andThen (lua_settable run (- 3))
     (push_table run (i + 1) xs)))"

section \<open>Containers\<close>

definition CreateTxdContainer :: "('g, int) gdm" where
  "CreateTxdContainer = bnd AddContainer (\<lambda>i. andThen (if i \<noteq> 0 then push_int i else lua_pushboolean False) (ret 1))"

definition opt_alpha :: "('g, string option) gdm" where
  "opt_alpha = bnd (lua_type 5) (\<lambda>t. if t = LUA_TSTRING then bnd (str_arg 5) (\<lambda>s. ret (Some s)) else ret None)"

definition alpha_name :: "string option \<Rightarrow> string" where
  "alpha_name a = (case a of Some s \<Rightarrow> s | None \<Rightarrow> [])"

definition add_to :: "int \<Rightarrow> txd_texture_data_t \<Rightarrow> txd_extra_info_t \<Rightarrow> ('g, unit) gdm" where
  "add_to contId tex extInf = bnd (dictionary contId) (\<lambda>d. set_dictionary contId (snd (addTexture d tex extInf)))"

definition TxdContainerAddImagePtr :: "'g gd_lib \<Rightarrow> ('g, int) gdm" where
  "TxdContainerAddImagePtr G = handler ''txdContainerAddImagePtr'' [LUA_TNUMBER, LUA_TSTRING, LUA_TUSERDATA] 1
     (bnd (num_arg 1) (\<lambda>contId. bnd (str_arg 2) (\<lambda>tName. bnd opt_alpha (\<lambda>alpha. bnd (HasMember contId) (\<lambda>m.
     if m then bnd (lua_touserdata 1) (\<lambda>p. bnd (GetImage p) (\<lambda>im.
       if im \<noteq> 0 then
         bnd (TextureData_new G tName (alpha_name alpha) (alpha \<noteq> None) True (TextureImage_of_image im)) (\<lambda>tData.
         andThen (add_to contId tData TextureExtra_new) (lua_pushboolean True))
       else DebugPrintf ''Bad image in: txdContainerAddImagePtr''))
     else DebugPrintf ''Bad container id in: txdContainerAddImagePtr'')))))"

definition add_file :: "'g gd_lib \<Rightarrow> int \<Rightarrow> string \<Rightarrow> string option \<Rightarrow> string \<Rightarrow> ('g, unit) gdm" where
  "add_file G contId tName alpha fNewPath =
     bnd (LoadImageToData G (texture_format True (alpha \<noteq> None)) (alpha \<noteq> None) (TextureImage_of_file fNewPath)) (\<lambda>t1.
     if errorCode t1 \<noteq> 0 then
       andThen (DebugPrintf (''txdContainerAddImage: Image Error('' @ int_str (errorCode t1) @ '').'')) (lua_pushboolean False)
     else bnd (Compress G t1) (\<lambda>t.
       bnd (texture_struct tName (alpha_name alpha) (alpha \<noteq> None) True t (fileData t) 0) (\<lambda>tex.
       andThen (add_to contId tex TextureExtra_new) (lua_pushboolean True))))"

definition TxdContainerAddImage :: "'g gd_lib \<Rightarrow> ('g, int) gdm" where
  "TxdContainerAddImage G = bnd (args_are 1 [LUA_TNUMBER, LUA_TSTRING, LUA_TSTRING]) (\<lambda>ok. if ok then
     andThen (with_resource (\<lambda>mResource. bnd (num_arg 1) (\<lambda>contId. bnd (str_arg 2) (\<lambda>tName. bnd (str_arg 3) (\<lambda>fName.
       bnd opt_alpha (\<lambda>alpha. bnd (HasMember contId) (\<lambda>m.
       if m then with_path fName mResource (bad_path ''txdContainerAddImage'') (add_file G contId tName alpha)
       else andThen (DebugPrintf ''Bad container id in: txdContainerAddImage'') (lua_pushboolean False)))))))) (ret 1)
     else bnd (args_are 1 [LUA_TNUMBER, LUA_TSTRING, LUA_TUSERDATA]) (\<lambda>ok. if ok then TxdContainerAddImagePtr G
     else bad_args ''txdContainerAddImage'' 1))"

definition SaveTxdContainer :: "('g, int) gdm" where
  "SaveTxdContainer = handler ''saveTxdContainer'' [LUA_TNUMBER, LUA_TSTRING] 1
     (with_resource (\<lambda>mResource. bnd (num_arg 1) (\<lambda>contId. bnd (str_arg 2) (\<lambda>fName. bnd (HasMember contId) (\<lambda>m.
     if m then with_path fName mResource (bad_path ''saveTxdContainer'') (\<lambda>fNewPath.
       andThen (DebugPrintf (''saveTxdContainer: '' @ c_str fNewPath))
      (bnd (dictionary contId) (\<lambda>d. bnd (open_out fNewPath) (\<lambda>opened. bnd (defined (Write opened d)) (\<lambda>(d', content).
       andThen (set_dictionary contId d') (case content of
         Some bs \<Rightarrow> andThen (write_file fNewPath bs) (lua_pushboolean True)
       | None \<Rightarrow> lua_pushboolean False))))))
     else andThen (DebugPrintf ''Bad container id in: saveTxdContainer'') (lua_pushboolean False))))))"

definition gd_info :: "'g gd_lib \<Rightarrow> 'g gd_run \<Rightarrow> ('g, int) gdm" where
  "gd_info G run = andThen lua_createtable (andThen (lua_pushstring (Some ''GD Version''))
     (andThen (lua_pushstring (Some (GD_VERSION_STRING G))) (andThen (lua_settable run (- 3)) (ret 1))))"

section \<open>Creation and sizes\<close>

definition push_image :: "ptr \<Rightarrow> ('g, unit) gdm" where
  "push_image p = (if p \<noteq> 0 then lua_pushlightuserdata p else lua_pushboolean False)"

definition create_from :: "'g gd_lib \<Rightarrow> img_type \<Rightarrow> ('g, unit) gdm" where
  "create_from G type = with_resource (\<lambda>mResource. bnd (str_arg 1) (\<lambda>fName.
     with_path fName mResource (lua_pushboolean False) (\<lambda>fNewPath. bnd (AddImage_file G type fNewPath) push_image)))"

definition get_int :: "'g gd_lib \<Rightarrow> gd_fun \<Rightarrow> ('g, unit) gdm" where
  "get_int G f = with_image (\<lambda>im. bnd (gdc (gd_int G f im [])) push_int)"

definition get_flag :: "'g gd_lib \<Rightarrow> gd_fun \<Rightarrow> ('g, unit) gdm" where
  "get_flag G f = with_image (\<lambda>im. bnd (gdc (gd_int G f im [])) (\<lambda>v. lua_pushboolean (v = 1)))"

definition imgCreate :: "'g gd_lib \<Rightarrow> ('g, int) gdm" where
  "imgCreate G = handler ''imageCreate'' [LUA_TNUMBER, LUA_TNUMBER] 1
     (bnd (num_arg 1) (\<lambda>x. bnd (num_arg 2) (\<lambda>y. bnd (AddImage G x y False) push_image)))"

definition imgCreateTrueColor :: "'g gd_lib \<Rightarrow> ('g, int) gdm" where
  "imgCreateTrueColor G = handler ''imageCreateTrueColor'' [LUA_TNUMBER, LUA_TNUMBER] 1
     (bnd (num_arg 1) (\<lambda>x. bnd (num_arg 2) (\<lambda>y. bnd (AddImage G x y True) push_image)))"

definition imgCreateFromPng :: "'g gd_lib \<Rightarrow> ('g, int) gdm" where
  "imgCreateFromPng G = handler ''imageCreateFromPng'' [LUA_TSTRING] 1
     (create_from G IMAGE_PNG)"

definition imgCreateFromGif :: "'g gd_lib \<Rightarrow> ('g, int) gdm" where
  "imgCreateFromGif G = handler ''imageCreateFromGif'' [LUA_TSTRING] 1
     (create_from G IMAGE_GIF)"

definition imgCreateFromJpeg :: "'g gd_lib \<Rightarrow> ('g, int) gdm" where
  "imgCreateFromJpeg G = handler ''imageCreateFromJpeg'' [LUA_TSTRING] 1
     (create_from G IMAGE_JPEG)"

definition imgSX :: "'g gd_lib \<Rightarrow> ('g, int) gdm" where
  "imgSX G = handler ''imageSX'' [LUA_TLIGHTUSERDATA] 0
     (get_int G gdImageSX)"

definition imgSY :: "'g gd_lib \<Rightarrow> ('g, int) gdm" where
  "imgSY G = handler ''imageSY'' [LUA_TLIGHTUSERDATA] 0
     (get_int G gdImageSY)"

definition imgIsTrueColor :: "'g gd_lib \<Rightarrow> ('g, int) gdm" where
  "imgIsTrueColor G = handler ''imageIsTrueColor'' [LUA_TLIGHTUSERDATA] 0
     (get_flag G gdImageTrueColor)"

section \<open>Saving\<close>

text \<open>
  The quality of a JPEG is clamped to the interval from 0 to 1 and scaled to 95; not-a-number
  passes both tests and has no integer value.
\<close>

definition jpeg_level :: "double \<Rightarrow> int option" where
  "jpeg_level quality = (case quality of
     Fin q \<Rightarrow> (case nearest_double ((if q > 1 then 1 else if q < 0 then 0 else q) * 95) of
        Fin x \<Rightarrow> Some \<lfloor>x\<rfloor> | _ \<Rightarrow> None)
   | PosInf \<Rightarrow> Some 95 | NegInf \<Rightarrow> Some 0 | NaN \<Rightarrow> None)"

definition save_image :: "'g gd_lib \<Rightarrow> string \<Rightarrow> img_type \<Rightarrow> ('g, int) gdm \<Rightarrow> int \<Rightarrow> ('g, unit) gdm" where
  "save_image G name type getLevel deleArg = with_resource (\<lambda>mResource. with_image (\<lambda>im.
     bnd (str_arg 2) (\<lambda>fName. bnd getLevel (\<lambda>level. bnd (lua_toboolean deleArg) (\<lambda>dele.
     with_path fName mResource (bad_path name) (\<lambda>fNewPath. bnd (open_out fNewPath) (\<lambda>b.
       if b then bnd (gdc (gd_encode G type im level)) (\<lambda>result. andThen (write_file fNewPath result)
         (andThen (whenever dele (bnd (lua_touserdata 1) (RemoveImage G))) (lua_pushboolean True)))
       else lua_pushboolean False)))))))"

definition imgPng :: "'g gd_lib \<Rightarrow> ('g, int) gdm" where
  "imgPng G = handler ''imagePng'' [LUA_TLIGHTUSERDATA, LUA_TSTRING] 1
     (save_image G ''imagePng'' IMAGE_PNG (bnd (lua_type 3) (\<lambda>t. if t = LUA_TNUMBER then num_arg 3 else ret 0)) 4)"

definition imgGif :: "'g gd_lib \<Rightarrow> ('g, int) gdm" where
  "imgGif G = handler ''imageGif'' [LUA_TLIGHTUSERDATA, LUA_TSTRING] 1
     (save_image G ''imageGif'' IMAGE_GIF (ret 0) 3)"

definition imgJpeg :: "'g gd_lib \<Rightarrow> ('g, int) gdm" where
  "imgJpeg G = handler ''imageJpeg'' [LUA_TLIGHTUSERDATA, LUA_TSTRING] 1
     (save_image G ''imageJpeg'' IMAGE_JPEG (bnd (lua_type 3) (\<lambda>t.
       if t = LUA_TNUMBER then bnd (lua_tonumber 3) (\<lambda>q. defined (jpeg_level q)) else ret 95)) 4)"

section \<open>Flags\<close>

definition set_flag :: "'g gd_lib \<Rightarrow> gd_fun \<Rightarrow> ('g, unit) gdm" where
  "set_flag G f = with_image (\<lambda>im. bnd (lua_toboolean 2) (\<lambda>b.
     andThen (gdc (gd_int G f im [if b then 1 else 0])) (lua_pushboolean True)))"

definition imgGetAlphaBlending :: "'g gd_lib \<Rightarrow> ('g, int) gdm" where
  "imgGetAlphaBlending G = handler ''imageGetAlphaBlending'' [LUA_TLIGHTUSERDATA] 1
     (get_flag G gdImageAlphaBlendingFlag)"

definition imgSetAlphaBlending :: "'g gd_lib \<Rightarrow> ('g, int) gdm" where
  "imgSetAlphaBlending G = handler ''imageSetAlphaBlending'' [LUA_TLIGHTUSERDATA, LUA_TBOOLEAN] 1
     (set_flag G gdImageAlphaBlending)"

definition imgGetAntiAlias :: "('g, int) gdm" where
  "imgGetAntiAlias = handler ''imageGetAntiAlias'' [LUA_TLIGHTUSERDATA] 1
     (bnd (lua_touserdata 1) (\<lambda>p. bnd (GetImageAA p) lua_pushboolean))"

definition imgSetAntiAlias :: "('g, int) gdm" where
  "imgSetAntiAlias = handler ''imageSetAntiAlias'' [LUA_TLIGHTUSERDATA, LUA_TBOOLEAN] 1
     (bnd (lua_toboolean 2) (\<lambda>useAA. bnd (lua_touserdata 1) (\<lambda>p. SetImageAA p useAA)))"

definition imgGetInterlace :: "'g gd_lib \<Rightarrow> ('g, int) gdm" where
  "imgGetInterlace G = handler ''imageGetInterlace'' [LUA_TLIGHTUSERDATA] 1
     (get_flag G gdImageGetInterlaced)"

definition imgSetInterlace :: "'g gd_lib \<Rightarrow> ('g, int) gdm" where
  "imgSetInterlace G = handler ''imageSetInterlace'' [LUA_TLIGHTUSERDATA, LUA_TBOOLEAN] 1
     (set_flag G gdImageInterlace)"

definition imgGetSaveAlpha :: "'g gd_lib \<Rightarrow> ('g, int) gdm" where
  "imgGetSaveAlpha G = handler ''imageGetSaveAlpha'' [LUA_TLIGHTUSERDATA] 1
     (get_flag G gdImageSaveAlphaFlag)"

definition imgSetSaveAlpha :: "'g gd_lib \<Rightarrow> ('g, int) gdm" where
  "imgSetSaveAlpha G = handler ''imageSetSaveAlpha'' [LUA_TLIGHTUSERDATA, LUA_TBOOLEAN] 1
     (set_flag G gdImageSaveAlpha)"

section \<open>Colours\<close>

definition color_call :: "'g gd_lib \<Rightarrow> gd_fun \<Rightarrow> ('g, unit) gdm" where
  "color_call G f = with_image (\<lambda>im. bnd (num_args [2, 3, 4]) (\<lambda>ns. bnd (gdc (gd_int G f im ns)) (\<lambda>c.
     if c \<noteq> - 1 then push_int c else lua_pushboolean False)))"

definition color_alpha_call :: "'g gd_lib \<Rightarrow> gd_fun \<Rightarrow> ('g, unit) gdm" where
  "color_alpha_call G f = with_image (\<lambda>im. bnd (num_args [2, 3, 4, 5]) (\<lambda>ns. bnd (gdc (gd_int G f im ns)) push_int))"

definition imgColorAllocate :: "'g gd_lib \<Rightarrow> ('g, int) gdm" where
  "imgColorAllocate G = handler ''imageColorAllocate'' [LUA_TLIGHTUSERDATA, LUA_TNUMBER, LUA_TNUMBER, LUA_TNUMBER] 1
     (color_call G gdImageColorAllocate)"

definition imgColorAllocateAlpha :: "'g gd_lib \<Rightarrow> ('g, int) gdm" where
  "imgColorAllocateAlpha G = handler ''imageColorAllocateAlpha'' [LUA_TLIGHTUSERDATA, LUA_TNUMBER, LUA_TNUMBER, LUA_TNUMBER, LUA_TNUMBER] 1
     (color_alpha_call G gdImageColorAllocateAlpha)"

definition imgColorClosest :: "'g gd_lib \<Rightarrow> ('g, int) gdm" where
  "imgColorClosest G = handler ''imageColorClosest'' [LUA_TLIGHTUSERDATA, LUA_TNUMBER, LUA_TNUMBER, LUA_TNUMBER] 1
     (color_call G gdImageColorClosest)"

definition imgColorClosestAlpha :: "'g gd_lib \<Rightarrow> ('g, int) gdm" where
  "imgColorClosestAlpha G = handler ''imageColorClosestAlpha'' [LUA_TLIGHTUSERDATA, LUA_TNUMBER, LUA_TNUMBER, LUA_TNUMBER, LUA_TNUMBER] 1
     (color_alpha_call G gdImageColorClosestAlpha)"

definition imgColorExact :: "'g gd_lib \<Rightarrow> ('g, int) gdm" where
  "imgColorExact G = handler ''imageColorExact'' [LUA_TLIGHTUSERDATA, LUA_TNUMBER, LUA_TNUMBER, LUA_TNUMBER] 1
     (color_call G gdImageColorExact)"

definition imgColorExactAlpha :: "'g gd_lib \<Rightarrow> ('g, int) gdm" where
  "imgColorExactAlpha G = handler ''imageColorExactAlpha'' [LUA_TLIGHTUSERDATA, LUA_TNUMBER, LUA_TNUMBER, LUA_TNUMBER, LUA_TNUMBER] 1
     (color_alpha_call G gdImageColorExactAlpha)"

definition imgColorResolve :: "'g gd_lib \<Rightarrow> ('g, int) gdm" where
  "imgColorResolve G = handler ''imageColorResolve'' [LUA_TLIGHTUSERDATA, LUA_TNUMBER, LUA_TNUMBER, LUA_TNUMBER] 1
     (color_call G gdImageColorResolve)"

definition imgColorResolveAlpha :: "'g gd_lib \<Rightarrow> ('g, int) gdm" where
  "imgColorResolveAlpha G = handler ''imageColorResolveAlpha'' [LUA_TLIGHTUSERDATA, LUA_TNUMBER, LUA_TNUMBER, LUA_TNUMBER, LUA_TNUMBER] 1
     (color_alpha_call G gdImageColorResolveAlpha)"

definition imgGetColorAt :: "'g gd_lib \<Rightarrow> ('g, int) gdm" where
  "imgGetColorAt G = handler ''imageGetColorAt'' [LUA_TLIGHTUSERDATA, LUA_TNUMBER, LUA_TNUMBER] 1
     (with_image (\<lambda>im. bnd (num_arg 2) (\<lambda>x. bnd (num_arg 3) (\<lambda>y.
       bnd (gdc (gd_int G gdImageBoundsSafe im [x, y])) (\<lambda>safe.
       if safe \<noteq> 0 then bnd (gdc (gd_int G gdImageGetPixel im [x, y])) push_int
       else andThen (DebugPrintf ''imageGetColorAt: Pixel is out of bounds.'') (lua_pushboolean False))))))"

definition imgSetColorAt :: "'g gd_lib \<Rightarrow> ('g, int) gdm" where
  "imgSetColorAt G = handler ''imageSetColorAt'' [LUA_TLIGHTUSERDATA, LUA_TNUMBER, LUA_TNUMBER, LUA_TNUMBER] 1
     (with_image (\<lambda>im. bnd (num_arg 2) (\<lambda>x. bnd (num_arg 3) (\<lambda>y. bnd (num_arg 4) (\<lambda>color.
       bnd (gdc (gd_int G gdImageBoundsSafe im [x, y])) (\<lambda>safe.
       if safe \<noteq> 0 then andThen (gdc (gd_int G gdImageSetPixel im [x, y, color])) (lua_pushboolean True)
       else andThen (DebugPrintf ''imageSetColorAt: Pixel is out of bounds.'') (lua_pushboolean False)))))))"

definition imgColorDeallocate :: "'g gd_lib \<Rightarrow> ('g, int) gdm" where
  "imgColorDeallocate G = handler ''imageColorDeallocate'' [LUA_TLIGHTUSERDATA, LUA_TNUMBER] 1
     (with_image (\<lambda>im. bnd (num_arg 2) (\<lambda>c.
       andThen (gdc (gd_int G gdImageColorDeallocate im [c])) (lua_pushboolean True))))"

definition imgColorsTotal :: "'g gd_lib \<Rightarrow> ('g, int) gdm" where
  "imgColorsTotal G = handler ''imageColorsTotal'' [LUA_TLIGHTUSERDATA] 1
     (get_int G gdImageColorsTotal)"

definition imgColorSpecial :: "'g gd_lib \<Rightarrow> ('g, int) gdm" where
  "imgColorSpecial G = handler ''imageColorSpecial'' [LUA_TSTRING] 1
     (bnd (str_arg 1) (\<lambda>txt.
       if txt = ''styled'' then push_int (gdStyled G)
       else if txt = ''brushed'' then push_int (gdBrushed G)
       else if txt = ''styledbrushed'' then push_int (gdStyledBrushed G)
       else if txt = ''tiled'' then push_int (gdTiled G)
       else if txt = ''transparent'' then push_int (gdTransparent G)
       else if txt = ''antialiased'' then push_int (gdAntiAliased G)
       else lua_pushboolean False))"

section \<open>Text\<close>

text \<open>The font functions test the first argument and read the second.\<close>

definition imgFontHeight :: "'g gd_lib \<Rightarrow> ('g, int) gdm" where
  "imgFontHeight G = handler ''imageFontHeight'' [LUA_TNUMBER] 1
     (bnd (num_arg 2) (\<lambda>n. push_int (gd_font_h G (find_gd_font n))))"

definition imgFontWidth :: "'g gd_lib \<Rightarrow> ('g, int) gdm" where
  "imgFontWidth G = handler ''imageFontWidth'' [LUA_TNUMBER] 1
     (bnd (num_arg 2) (\<lambda>n. push_int (gd_font_w G (find_gd_font n))))"

definition draw_text :: "'g gd_lib \<Rightarrow> gd_text \<Rightarrow> (string \<Rightarrow> string) \<Rightarrow> ('g, unit) gdm" where
  "draw_text G f sel = bnd (str_arg 5) (\<lambda>txt. with_image (\<lambda>im. bnd (num_arg 2) (\<lambda>n. bnd (num_arg 3) (\<lambda>x.
     bnd (num_arg 4) (\<lambda>y. bnd (num_arg 6) (\<lambda>color.
     andThen (gdc (gd_text_fun G f im (find_gd_font n) x y (sel txt) color)) (lua_pushboolean True)))))))"

definition first_of :: "string \<Rightarrow> string" where
  "first_of txt = [char_at txt 0]"

definition imgChar :: "'g gd_lib \<Rightarrow> ('g, int) gdm" where
  "imgChar G = handler ''imageChar'' [LUA_TLIGHTUSERDATA, LUA_TNUMBER, LUA_TNUMBER, LUA_TNUMBER, LUA_TSTRING, LUA_TNUMBER] 1
     (draw_text G gdImageChar first_of)"

definition imgCharUp :: "'g gd_lib \<Rightarrow> ('g, int) gdm" where
  "imgCharUp G = handler ''imageCharUp'' [LUA_TLIGHTUSERDATA, LUA_TNUMBER, LUA_TNUMBER, LUA_TNUMBER, LUA_TSTRING, LUA_TNUMBER] 1
     (draw_text G gdImageCharUp first_of)"

definition imgString :: "'g gd_lib \<Rightarrow> ('g, int) gdm" where
  "imgString G = handler ''imageString'' [LUA_TLIGHTUSERDATA, LUA_TNUMBER, LUA_TNUMBER, LUA_TNUMBER, LUA_TSTRING, LUA_TNUMBER] 1
     (draw_text G gdImageString (\<lambda>txt. txt))"

definition imgStringUp :: "'g gd_lib \<Rightarrow> ('g, int) gdm" where
  "imgStringUp G = handler ''imageStringUp'' [LUA_TLIGHTUSERDATA, LUA_TNUMBER, LUA_TNUMBER, LUA_TNUMBER, LUA_TSTRING, LUA_TNUMBER] 1
     (draw_text G gdImageStringUp (\<lambda>txt. txt))"

text \<open>
  The error report of \<open>imageTtfText\<close> has two conversions and one argument, so reaching it is
  undefined; the one of \<open>imageTtfBBox\<close> is right, and pushes no value.
\<close>

definition imgTtfText :: "'g gd_lib \<Rightarrow> 'g gd_run \<Rightarrow> ('g, int) gdm" where
  "imgTtfText G run = handler ''imageTtfText'' [LUA_TLIGHTUSERDATA, LUA_TNUMBER, LUA_TNUMBER, LUA_TNUMBER, LUA_TNUMBER, LUA_TNUMBER, LUA_TSTRING, LUA_TSTRING] 1
     (with_resource (\<lambda>mResource. bnd (str_arg 7) (\<lambda>fName.
     with_path fName mResource (bad_path ''imageTtfText'') (\<lambda>fNewPath. with_image (\<lambda>im.
       bnd (lua_tonumber 2) (\<lambda>sz. bnd (lua_tonumber 3) (\<lambda>angle. bnd (num_arg 4) (\<lambda>x. bnd (num_arg 5) (\<lambda>y.
       bnd (num_arg 6) (\<lambda>color. bnd (str_arg 8) (\<lambda>strTxt.
       bnd (gdc (gd_stringFT G im color (c_str fNewPath) sz angle x y strTxt)) (\<lambda>(err, rect).
       if err \<noteq> None then undef else andThen lua_createtable (push_table run 1 (take 8 rect))))))))))))))"

definition imgTtfBBox :: "'g gd_lib \<Rightarrow> 'g gd_run \<Rightarrow> ('g, int) gdm" where
  "imgTtfBBox G run = handler ''imageTtfBBox'' [LUA_TNUMBER, LUA_TNUMBER, LUA_TSTRING, LUA_TSTRING] 1
     (with_resource (\<lambda>mResource. bnd (str_arg 3) (\<lambda>fName.
     with_path fName mResource (bad_path ''imageTtfBBox'') (\<lambda>fNewPath.
       bnd (lua_tonumber 1) (\<lambda>sz. bnd (lua_tonumber 2) (\<lambda>angle. bnd (str_arg 4) (\<lambda>strTxt.
       bnd (gdc (gd_stringFT G 0 0 (c_str fNewPath) sz angle 0 0 strTxt)) (\<lambda>(err, rect). case err of
         Some e \<Rightarrow> DebugPrintf (''Error with gdImageStringFT('' @ c_str e @ '') in: imageTtfBBox'')
       | None \<Rightarrow> andThen lua_createtable (push_table run 1 (take 8 rect))))))))))"

section \<open>Styles, brushes and tiles\<close>

definition imgGetStyle :: "'g gd_lib \<Rightarrow> 'g gd_run \<Rightarrow> ('g, int) gdm" where
  "imgGetStyle G run = handler ''imageGetStyle'' [LUA_TLIGHTUSERDATA] 0
     (with_image (\<lambda>im. bnd (gdc (gd_style G im)) (\<lambda>style. case style of
       Some xs \<Rightarrow> andThen lua_createtable (push_table run 0 xs) | None \<Rightarrow> lua_pushboolean False)))"

text \<open>
  The loop over a table with \<open>lua_next\<close> visits every entry once; the number of entries and one
  more is enough fuel for it.
\<close>

fun number_loop :: "nat \<Rightarrow> int \<Rightarrow> int list \<Rightarrow> ('g, int list) gdm" where
  "number_loop 0 idx acc = undef"
| "number_loop (Suc n) idx acc = bnd (lua_next idx) (\<lambda>more. if \<not> more then ret acc
     else bnd (lua_type (- 1)) (\<lambda>t.
       bnd (if t = LUA_TNUMBER then bnd (num_arg (- 1)) (\<lambda>v. ret (acc @ [v])) else ret acc) (\<lambda>acc'.
       andThen (lua_pop 1) (number_loop n idx acc'))))"

definition table_numbers :: "int \<Rightarrow> ('g, int list) gdm" where
  "table_numbers idx = andThen lua_pushnil (bnd (table_at idx) (\<lambda>(p, h). number_loop (Suc (length (entries h))) idx []))"

text \<open>\<open>gdImageSetStyle\<close> is told \<open>sizeof(arr)\<close> elements, the eight bytes of the pointer, whatever the
  length of the array is.\<close>

definition imgSetStyle :: "'g gd_lib \<Rightarrow> ('g, int) gdm" where
  "imgSetStyle G = handler ''imageSetStyle'' [LUA_TLIGHTUSERDATA, LUA_TTABLE] 0
     (with_image (\<lambda>im. bnd (table_numbers 2) (\<lambda>style.
       if length style < 8 then undef
       else andThen (gdc (gd_set_style G im (take 8 style))) (lua_pushboolean True))))"

definition imgGetThickness :: "'g gd_lib \<Rightarrow> ('g, int) gdm" where
  "imgGetThickness G = handler ''imageGetThickness'' [LUA_TLIGHTUSERDATA] 0
     (get_int G gdImageThick)"

definition imgSetThickness :: "'g gd_lib \<Rightarrow> ('g, int) gdm" where
  "imgSetThickness G = handler ''imageSetThickness'' [LUA_TLIGHTUSERDATA, LUA_TNUMBER] 0
     (with_image (\<lambda>im. bnd (num_arg 2) (\<lambda>n. andThen (gdc (gd_int G gdImageSetThickness im [n])) (ret ()))))"

definition get_ref :: "(ptr \<Rightarrow> ('g, ptr) gdcall) \<Rightarrow> ('g, unit) gdm" where
  "get_ref f = with_image (\<lambda>im. bnd (gdc (f im)) (\<lambda>b. if b \<noteq> 0 then lua_pushlightuserdata b else lua_pushboolean False))"

definition set_ref :: "(ptr \<Rightarrow> ptr \<Rightarrow> ('g, unit) gdcall) \<Rightarrow> ('g, unit) gdm" where
  "set_ref f = bnd (lua_touserdata 1) (\<lambda>p. bnd (GetImage p) (\<lambda>im. bnd (lua_touserdata 2) (\<lambda>q. bnd (GetImage q) (\<lambda>b.
     if im \<noteq> 0 \<and> b \<noteq> 0 then gdc (f im b) else lua_pushboolean False))))"

definition imgGetBrush :: "'g gd_lib \<Rightarrow> ('g, int) gdm" where
  "imgGetBrush G = handler ''imageGetBrush'' [LUA_TLIGHTUSERDATA] 0
     (get_ref (gd_brush G))"

definition imgSetBrush :: "'g gd_lib \<Rightarrow> ('g, int) gdm" where
  "imgSetBrush G = handler ''imageSetBrush'' [LUA_TLIGHTUSERDATA, LUA_TLIGHTUSERDATA] 0
     (set_ref (gd_set_brush G))"

definition imgGetTile :: "'g gd_lib \<Rightarrow> ('g, int) gdm" where
  "imgGetTile G = handler ''imageGetTile'' [LUA_TLIGHTUSERDATA] 0
     (get_ref (gd_tile G))"

definition imgSetTile :: "'g gd_lib \<Rightarrow> ('g, int) gdm" where
  "imgSetTile G = handler ''imageSetTile'' [LUA_TLIGHTUSERDATA, LUA_TLIGHTUSERDATA] 0
     (set_ref (gd_set_tile G))"

section \<open>Drawing\<close>

definition draw_call :: "'g gd_lib \<Rightarrow> gd_fun \<Rightarrow> int list \<Rightarrow> ('g, unit) gdm" where
  "draw_call G f is = with_image (\<lambda>im. bnd (num_args is) (\<lambda>ns. andThen (gdc (gd_int G f im ns)) (lua_pushboolean True)))"

definition imgLine :: "'g gd_lib \<Rightarrow> ('g, int) gdm" where
  "imgLine G = handler ''imageLine'' [LUA_TLIGHTUSERDATA, LUA_TNUMBER, LUA_TNUMBER, LUA_TNUMBER, LUA_TNUMBER, LUA_TNUMBER] 0
     (draw_call G gdImageLine [2, 3, 4, 5, 6])"

definition imgArc :: "'g gd_lib \<Rightarrow> ('g, int) gdm" where
  "imgArc G = handler ''imageArc'' [LUA_TLIGHTUSERDATA, LUA_TNUMBER, LUA_TNUMBER, LUA_TNUMBER, LUA_TNUMBER, LUA_TNUMBER, LUA_TNUMBER, LUA_TNUMBER] 0
     (draw_call G gdImageArc [2, 3, 4, 5, 6, 7, 8])"

definition imgRectangle :: "'g gd_lib \<Rightarrow> ('g, int) gdm" where
  "imgRectangle G = handler ''imageRectangle'' [LUA_TLIGHTUSERDATA, LUA_TNUMBER, LUA_TNUMBER, LUA_TNUMBER, LUA_TNUMBER, LUA_TNUMBER] 0
     (draw_call G gdImageRectangle [2, 3, 4, 5, 6])"

definition imgEllipse :: "'g gd_lib \<Rightarrow> ('g, int) gdm" where
  "imgEllipse G = handler ''imageEllipse'' [LUA_TLIGHTUSERDATA, LUA_TNUMBER, LUA_TNUMBER, LUA_TNUMBER, LUA_TNUMBER, LUA_TNUMBER] 0
     (with_image (\<lambda>im. bnd (num_args [2, 3, 4, 5]) (\<lambda>ns. bnd (num_arg 6) (\<lambda>color.
       andThen (gdc (gd_int G gdImageArc im (ns @ [0, 360, color]))) (lua_pushboolean True)))))"

definition imgFill :: "'g gd_lib \<Rightarrow> ('g, int) gdm" where
  "imgFill G = handler ''imageFill'' [LUA_TLIGHTUSERDATA, LUA_TNUMBER, LUA_TNUMBER, LUA_TNUMBER] 0
     (draw_call G gdImageFill [2, 3, 4])"

definition imgFillToBorder :: "'g gd_lib \<Rightarrow> ('g, int) gdm" where
  "imgFillToBorder G = handler ''imageFillToBorder'' [LUA_TLIGHTUSERDATA, LUA_TNUMBER, LUA_TNUMBER, LUA_TNUMBER, LUA_TNUMBER] 0
     (draw_call G gdImageFillToBorder [2, 3, 4, 5])"

definition arc_style :: "'g gd_lib \<Rightarrow> int list \<Rightarrow> int" where
  "arc_style G vs = fold (\<lambda>v style. if v \<in> {gdArc G, gdChord G, gdNoFill G, gdEdged G} then or style v else style) vs (gdArc G)"

definition imgFilledArc :: "'g gd_lib \<Rightarrow> ('g, int) gdm" where
  "imgFilledArc G = handler ''imageFilledArc'' [LUA_TLIGHTUSERDATA, LUA_TNUMBER, LUA_TNUMBER, LUA_TNUMBER, LUA_TNUMBER, LUA_TNUMBER, LUA_TNUMBER, LUA_TNUMBER] 0
     (with_image (\<lambda>im. bnd (lua_type 9) (\<lambda>t.
       bnd (if t = LUA_TTABLE then bnd (table_numbers 9) (\<lambda>vs. ret (arc_style G vs)) else ret (gdArc G)) (\<lambda>style.
       bnd (num_args [2, 3, 4, 5, 6, 7, 8]) (\<lambda>ns.
       andThen (gdc (gd_int G gdImageFilledArc im (ns @ [style]))) (lua_pushboolean True))))))"

definition imgFilledRectangle :: "'g gd_lib \<Rightarrow> ('g, int) gdm" where
  "imgFilledRectangle G = handler ''imageFilledRectangle'' [LUA_TLIGHTUSERDATA, LUA_TNUMBER, LUA_TNUMBER, LUA_TNUMBER, LUA_TNUMBER, LUA_TNUMBER] 0
     (draw_call G gdImageFilledRectangle [2, 3, 4, 5, 6])"

definition imgFilledEllipse :: "'g gd_lib \<Rightarrow> ('g, int) gdm" where
  "imgFilledEllipse G = handler ''imageFilledEllipse'' [LUA_TLIGHTUSERDATA, LUA_TNUMBER, LUA_TNUMBER, LUA_TNUMBER, LUA_TNUMBER, LUA_TNUMBER] 0
     (with_image (\<lambda>im. bnd (num_args [2, 3, 4, 5]) (\<lambda>ns. bnd (num_arg 6) (\<lambda>color.
       andThen (gdc (gd_int G gdImageFilledArc im (ns @ [0, 360, color, 0]))) (lua_pushboolean True)))))"

section \<open>Removal\<close>

definition imgDestroy :: "'g gd_lib \<Rightarrow> ('g, int) gdm" where
  "imgDestroy G = handler ''imageDestroy'' [LUA_TLIGHTUSERDATA] 0
     (with_image (\<lambda>im. bnd (lua_touserdata 1) (\<lambda>p.
       andThen (RemoveImage G p) (lua_pushboolean True))))"

definition imgCleanup :: "'g gd_lib \<Rightarrow> ('g, int) gdm" where
  "imgCleanup G = handler ''imageCleanup'' [LUA_TLIGHTUSERDATA] 0
     (bnd (lua_touserdata 1) (ResourceCleanup G))"

section \<open>Registration\<close>

definition texturizer_functions :: "(string \<times> string) list" where
  "texturizer_functions = [
    (''createTxdContainer'', ''CreateTxdContainer''), (''txdContainerAddImage'', ''TxdContainerAddImage''),
    (''txdContainerAddImagePtr'', ''TxdContainerAddImagePtr''), (''saveTxdContainer'', ''SaveTxdContainer''),
    (''gd_info'', ''gd_info''), (''imageCreate'', ''imgCreate''),
    (''imageCreateTrueColor'', ''imgCreateTrueColor''), (''imageCreateFromPng'', ''imgCreateFromPng''),
    (''imageCreateFromGif'', ''imgCreateFromGif''), (''imageCreateFromJpeg'', ''imgCreateFromJpeg''),
    (''imageSX'', ''imgSX''), (''imageSY'', ''imgSY''), (''imageIsTrueColor'', ''imgIsTrueColor''),
    (''imagePng'', ''imgPng''), (''imageGif'', ''imgGif''), (''imageJpeg'', ''imgJpeg''),
    (''imageGetAlphaBlending'', ''imgGetAlphaBlending''),
    (''imageSetAlphaBlending'', ''imgSetAlphaBlending''), (''imageGetAntiAlias'', ''imgGetAntiAlias''),
    (''imageSetAntiAlias'', ''imgSetAntiAlias''), (''imageGetInterlace'', ''imgGetInterlace''),
    (''imageSetInterlace'', ''imgSetInterlace''), (''imageGetSaveAlpha'', ''imgGetSaveAlpha''),
    (''imageSetSaveAlpha'', ''imgSetSaveAlpha''), (''imageColorAllocate'', ''imgColorAllocate''),
    (''imageColorAllocateAlpha'', ''imgColorAllocateAlpha''), (''imageColorClosest'', ''imgColorClosest''),
    (''imageColorClosestAlpha'', ''imgColorClosestAlpha''), (''imageColorExact'', ''imgColorExact''),
    (''imageColorExactAlpha'', ''imgColorExactAlpha''), (''imageColorResolve'', ''imgColorResolve''),
    (''imageColorResolveAlpha'', ''imgColorResolveAlpha''), (''imageGetColorAt'', ''imgGetColorAt''),
    (''imageSetColorAt'', ''imgSetColorAt''), (''imageColorDeallocate'', ''imgColorDeallocate''),
    (''imageColorsTotal'', ''imgColorsTotal''), (''imageColorSpecial'', ''imgColorSpecial''),
    (''imageFontHeight'', ''imgFontHeight''), (''imageFontWidth'', ''imgFontWidth''),
    (''imageChar'', ''imgChar''), (''imageCharUp'', ''imgCharUp''), (''imageString'', ''imgString''),
    (''imageStringUp'', ''imgStringUp''), (''imageTtfText'', ''imgTtfText''),
    (''imageTtfBBox'', ''imgTtfBBox''), (''imageGetStyle'', ''imgGetStyle''),
    (''imageSetStyle'', ''imgSetStyle''), (''imageGetThickness'', ''imgGetThickness''),
    (''imageSetThickness'', ''imgSetThickness''), (''imageGetBrush'', ''imgGetBrush''),
    (''imageSetBrush'', ''imgSetBrush''), (''imageGetTile'', ''imgGetTile''),
    (''imageSetTile'', ''imgSetTile''), (''imageLine'', ''imgLine''), (''imageArc'', ''imgArc''),
    (''imageRectangle'', ''imgRectangle''), (''imageEllipse'', ''imgEllipse''), (''imageFill'', ''imgFill''),
    (''imageFillToBorder'', ''imgFillToBorder''), (''imageFilledArc'', ''imgFilledArc''),
    (''imageFilledRectangle'', ''imgFilledRectangle''), (''imageFilledEllipse'', ''imgFilledEllipse''),
    (''imageDestroy'', ''imgDestroy''), (''imageCleanup'', ''imgCleanup'')]"

definition Texturizer_RegisterFunctions :: "(string \<Rightarrow> string \<Rightarrow> ('g, unit) gdm) \<Rightarrow> ('g, unit) gdm" where
  "Texturizer_RegisterFunctions RegisterFunction = forEach texturizer_functions (\<lambda>(n, f). RegisterFunction n f)"

end
