(* ===== verification/LuaFrame.thy ===== *)
theory LuaFrame
  imports LuaArguments
begin

text \<open>
  How a program moves the state, whatever its value.  \<open>steps R m\<close> says that every run of \<open>m\<close> that
  ends, by a return or by a Lua error, relates its start to its end by \<open>R\<close>.  The locale
  \<open>step_relation\<close> gives the rules for every preorder \<open>R\<close>; the operations of the Lua API leave
  everything but the Lua machine alone (\<open>same_module\<close>), so for them every such relation reduces to one rule.
\<close>

section \<open>Relations between the start and the end of a run\<close>

definition steps :: "('s \<Rightarrow> 's \<Rightarrow> bool) \<Rightarrow> ('e, 's, 'a) prog \<Rightarrow> bool" where
  "steps R m \<longleftrightarrow> (\<forall>s. case m s of Ret a t \<Rightarrow> R s t | Throw e t \<Rightarrow> R s t | Undef \<Rightarrow> True)"

text \<open>What is known of the value a program returns.\<close>

definition returns :: "('e, 's, 'a) prog \<Rightarrow> ('a \<Rightarrow> bool) \<Rightarrow> bool" where
  "returns m Q \<longleftrightarrow> (\<forall>s a t. m s = Ret a t \<longrightarrow> Q a)"

lemma returns_bnd: "returns m P \<Longrightarrow> (\<And>a. P a \<Longrightarrow> returns (f a) Q) \<Longrightarrow> returns (bnd m f) Q"
  by (fastforce simp: returns_def bnd_def split: outcome.splits)

lemma returns_simps [simp]:
  "returns (ret a) Q \<longleftrightarrow> Q a" "returns undef Q" "returns (defined x) Q \<longleftrightarrow> (\<forall>a. x = Some a \<longrightarrow> Q a)"
  "returns (if b then m else n) Q \<longleftrightarrow> (if b then returns m Q else returns n Q)"
  by (auto simp: returns_def prog_defs split: option.splits)

lemma returns_any: "returns m (\<lambda>_. True)"
  by (simp add: returns_def)

lemma steps_mono: "steps R m \<Longrightarrow> (\<And>s t. R s t \<Longrightarrow> S s t) \<Longrightarrow> steps S m"
  by (auto simp: steps_def split: outcome.splits)

locale step_relation =
  fixes R :: "'s \<Rightarrow> 's \<Rightarrow> bool"
  assumes R_refl: "R s s" and R_trans: "R s t \<Longrightarrow> R t u \<Longrightarrow> R s u"
begin

lemma step_ret: "steps R (ret a)" and step_undef: "steps R undef" and step_gets: "steps R (gets f)"
  and step_throw: "steps R (throw e)" and step_defined: "steps R (defined x)"
  by (auto simp: steps_def prog_defs R_refl split: option.split)

lemma step_bnd: "steps R m \<Longrightarrow> (\<And>a. steps R (f a)) \<Longrightarrow> steps R (bnd m f)"
  unfolding steps_def bnd_def by (fastforce split: outcome.splits intro: R_trans)

lemma step_bnd_returns: "steps R m \<Longrightarrow> returns m Q \<Longrightarrow> (\<And>a. Q a \<Longrightarrow> steps R (f a)) \<Longrightarrow> steps R (bnd m f)"
  unfolding steps_def bnd_def returns_def by (fastforce split: outcome.splits intro: R_trans)

lemma step_andThen: "steps R m \<Longrightarrow> steps R n \<Longrightarrow> steps R (andThen m n)"
  unfolding andThen_def by (rule step_bnd)

lemma step_whenever: "(b \<Longrightarrow> steps R m) \<Longrightarrow> steps R (whenever b m)"
  by (simp add: whenever_def step_ret)

lemma step_if: "(b \<Longrightarrow> steps R m) \<Longrightarrow> (\<not> b \<Longrightarrow> steps R n) \<Longrightarrow> steps R (if b then m else n)"
  by simp

lemma step_option: "(x = None \<Longrightarrow> steps R m) \<Longrightarrow> (\<And>a. x = Some a \<Longrightarrow> steps R (f a)) \<Longrightarrow>
    steps R (case x of None \<Rightarrow> m | Some a \<Rightarrow> f a)"
  by (cases x) auto

lemma step_pair: "(\<And>a b. p = (a, b) \<Longrightarrow> steps R (f a b)) \<Longrightarrow> steps R (case p of (a, b) \<Rightarrow> f a b)"
  by (cases p) auto

lemma step_forEach: "(\<And>x. steps R (f x)) \<Longrightarrow> steps R (forEach xs f)"
  by (induction xs) (auto intro: step_ret step_andThen)

lemma step_foldProg: "(\<And>x b. steps R (f x b)) \<Longrightarrow> steps R (foldProg xs f b)"
  by (induction xs arbitrary: b) (auto intro: step_ret step_bnd)

lemmas step_intros = step_ret step_undef step_gets step_throw step_defined step_bnd step_andThen
  step_whenever step_if step_option step_pair step_forEach step_foldProg

end

definition same_module :: "'z lua_State_scheme \<Rightarrow> 'z lua_State_scheme \<Rightarrow> bool" where
  "same_module w w' \<longleftrightarrow> lua_State.more w' = lua_State.more w"

interpretation lua_only: step_relation same_module
  by unfold_locales (auto simp: same_module_def)

lemma modify_same_module: "(\<And>w. lua_State.more (f w) = lua_State.more w) \<Longrightarrow> steps same_module (modify f)"
  by (simp add: steps_def same_module_def prog_defs)

lemma push_same_module: "steps same_module (push v)"
  unfolding push_def by (rule modify_same_module) simp

lemma store_same_module: "steps same_module (store a v)"
  unfolding store_def by (auto split: adr.split TValue.split intro!: modify_same_module lua_only.step_undef)

lemma value_at_same_module: "steps same_module (adr_of i)" "steps same_module (value_at i)"
  unfolding adr_of_def value_at_def by (intro lua_only.step_intros)+

lemma lua_tolstring_same_module: "steps same_module (lua_tolstring i)"
proof -
  have conv: "steps same_module (case luaV_tostring v of
      Some (TString str) \<Rightarrow> andThen (store a (TString str)) (ret (Some str)) | _ \<Rightarrow> ret None)" for a v
  proof (cases "luaV_tostring v")
    case (Some u)
    then show ?thesis
      by (cases u) (simp_all add: lua_only.step_ret lua_only.step_andThen store_same_module)
  qed (simp add: lua_only.step_ret)
  have "steps same_module (case v of TString str \<Rightarrow> ret (Some str) | _ \<Rightarrow> (case luaV_tostring v of
      Some (TString str) \<Rightarrow> andThen (store a (TString str)) (ret (Some str)) | _ \<Rightarrow> ret None))" for a v
    using conv by (cases v) (simp_all only: TValue.case lua_only.step_ret)
  then show ?thesis
    unfolding lua_tolstring_def by (intro lua_only.step_bnd lua_only.step_gets value_at_same_module)
qed

lemma lua_newuserdata_same_module: "steps same_module (lua_newuserdata n)"
  by (simp add: lua_newuserdata_def steps_def same_module_def Let_def)

lemma lua_api_same_module:
  "steps same_module (lua_type i)" "steps same_module (lua_tonumber i)" "steps same_module (lua_toboolean i)"
  "steps same_module (lua_touserdata i)" "steps same_module (lua_pushnil)" "steps same_module (lua_pushboolean b)"
  "steps same_module (lua_pushnumber x)" "steps same_module (lua_pushlightuserdata p)"
  "steps same_module (lua_pop n)" "steps same_module top_value" "steps same_module (drop_top k)"
  unfolding lua_type_def lua_tonumber_def lua_toboolean_def lua_touserdata_def lua_pushnil_def
    lua_pushboolean_def lua_pushnumber_def lua_pushlightuserdata_def lua_pop_def lua_settop_def lua_gettop_def
    top_value_def drop_top_def
  by (intro lua_only.step_intros value_at_same_module push_same_module modify_same_module; simp)+

lemma table_at_same_module: "steps same_module (table_at i)"
  unfolding table_at_def
  by (intro lua_only.step_intros value_at_same_module) (auto split: TValue.split intro!: lua_only.step_intros)

lemma lua_next_same_module: "steps same_module (lua_next i)"
  unfolding lua_next_def
  by (intro lua_only.step_intros table_at_same_module lua_api_same_module)
    (simp split: sum.split option.split add: lua_only.step_throw lua_only.step_andThen lua_only.step_ret
      lua_api_same_module push_same_module)

lemmas api_same_module = lua_api_same_module push_same_module lua_tolstring_same_module
  lua_newuserdata_same_module table_at_same_module lua_next_same_module

end
