(* ===== verification/TexturizerSpec.thy ===== *)
theory TexturizerSpec
  imports GdFunctions LuaFrame
begin

text \<open>
  Properties of the Texturizer.  \<open>steps R m\<close> says that every run of \<open>m\<close> that ends, by a return or
  by a Lua error, relates its start to its end by \<open>R\<close>; the operations of the Lua API leave
  everything but the Lua machine alone (\<open>same_module\<close>), so for them every such relation reduces to
  one rule.  With it: what files a function can change, and that the containers stay well formed.
  The image registry is stated by total correctness under a contract for gd's creation and
  destruction functions.
\<close>

section \<open>Containers stay well formed\<close>

definition container_wf :: "TextureContainer \<Rightarrow> bool" where
  "container_wf c \<longleftrightarrow> map_ok (mContainers c) \<and> 0 < mIndex c \<and>
     (\<forall>(k, d) \<in> set (mContainers c). 0 < k \<and> k < mIndex c \<and> dict_wf d)"

definition containers_wf :: "'g gd_world \<Rightarrow> bool" where
  "containers_wf w \<longleftrightarrow> (case mTextureContainer w of None \<Rightarrow> True | Some c \<Rightarrow> container_wf c)"

definition keeps_containers :: "'g gd_world \<Rightarrow> 'g gd_world \<Rightarrow> bool" where
  "keeps_containers w w' \<longleftrightarrow> (containers_wf w \<longrightarrow> containers_wf w')"

interpretation cont: step_relation keeps_containers
  by unfold_locales (auto simp: keeps_containers_def)

lemma same_module_fields:
  fixes w w' :: "'g gd_world"
  assumes "same_module w w'"
  shows "mTextureContainer w' = mTextureContainer w" "theImages w' = theImages w" "files w' = files w"
    "gd w' = gd w" "resource_name w' = resource_name w" "resource_vm w' = resource_vm w" "writable w' = writable w"
  using assms by (cases w; cases w'; simp add: same_module_def)+

lemma cont_same_module: "steps same_module m \<Longrightarrow> steps keeps_containers (m :: ('g, 'a) gdm)"
  by (erule steps_mono) (simp add: keeps_containers_def containers_wf_def same_module_fields)

lemmas api_cont = api_same_module [THEN cont_same_module]

lemma gdc_cont: "steps keeps_containers (gdc f)"
  by (auto simp: steps_def gdc_def keeps_containers_def containers_wf_def split: option.splits)

lemma modify_cont: "(\<And>w. containers_wf w \<Longrightarrow> containers_wf (f w)) \<Longrightarrow> steps keeps_containers (modify f)"
  by (simp add: steps_def keeps_containers_def)

lemma modify_other_cont: "(\<And>w. mTextureContainer (f w) = mTextureContainer w) \<Longrightarrow> steps keeps_containers (modify f)"
  by (rule modify_cont) (simp add: containers_wf_def)

lemma DebugPrintf_cont: "steps keeps_containers (DebugPrintf msg)"
  unfolding DebugPrintf_def by (rule modify_other_cont) simp

lemma args_are_cont: "steps keeps_containers (args_are i ts)"
  by (induction ts arbitrary: i) (auto intro!: cont.step_intros api_cont)

lemma c_int_cont: "steps keeps_containers (c_int n)" and str_arg_cont: "steps keeps_containers (str_arg i)"
  and num_arg_cont: "steps keeps_containers (num_arg i)" and push_int_cont: "steps keeps_containers (push_int n)"
  and opt_alpha_cont: "steps keeps_containers opt_alpha" and container_cont: "steps keeps_containers container"
  and HasMember_cont: "steps keeps_containers (HasMember n)" and GetImage_cont: "steps keeps_containers (GetImage p)"
  and dictionary_cont: "steps keeps_containers (dictionary n)" and bad_path_cont: "steps keeps_containers (bad_path s)"
  and bad_args_cont: "steps keeps_containers (bad_args s n)" and open_out_cont: "steps keeps_containers (open_out s)"
  and write_file_cont: "steps keeps_containers (write_file s bs)"
  unfolding c_int_def str_arg_def num_arg_def push_int_def opt_alpha_def container_def HasMember_def
    GetImage_def dictionary_def bad_path_def bad_args_def open_out_def write_file_def
  by (intro cont.step_intros api_cont DebugPrintf_cont modify_other_cont; simp)+

lemmas helpers_cont = api_cont gdc_cont DebugPrintf_cont args_are_cont c_int_cont str_arg_cont num_arg_cont
  push_int_cont opt_alpha_cont container_cont HasMember_cont GetImage_cont dictionary_cont bad_path_cont
  bad_args_cont open_out_cont write_file_cont

lemma with_resource_cont: "(\<And>r. steps keeps_containers (body r)) \<Longrightarrow> steps keeps_containers (with_resource body)"
  unfolding with_resource_def by (intro cont.step_intros helpers_cont)

lemma with_path_cont: "steps keeps_containers bad \<Longrightarrow> (\<And>p. steps keeps_containers (body p)) \<Longrightarrow>
    steps keeps_containers (with_path f r bad body)"
  unfolding with_path_def by (intro cont.step_intros)

lemma handler_cont: "steps keeps_containers body \<Longrightarrow> steps keeps_containers (handler name ts r body)"
  unfolding handler_def by (intro cont.step_intros helpers_cont)

lemma LoadImageToData_cont: "steps keeps_containers (LoadImageToData G fmt a t)"
  unfolding LoadImageToData_def LoadFromFile_def pixel_bytes_def by (intro cont.step_intros helpers_cont)

lemma Compress_cont: "steps keeps_containers (Compress G t)"
  unfolding Compress_def Let_def by (intro cont.step_intros helpers_cont)

lemma texture_struct_cont: "steps keeps_containers (texture_struct tn an ha co t dat n)"
  unfolding texture_struct_def name_field_def Let_def by (intro cont.step_intros)

lemma dictionary_bnd_cont:
  assumes "\<And>d. dict_wf d \<Longrightarrow> steps keeps_containers (f d)"
  shows "steps keeps_containers (bnd (dictionary n) f)"
  unfolding steps_def
proof
  fix w
  show "case bnd (dictionary n) f w of Ret a t \<Rightarrow> keeps_containers w t | Throw e t \<Rightarrow> keeps_containers w t | Undef \<Rightarrow> True"
  proof (cases "containers_wf w")
    case True
    show ?thesis
    proof (cases "dictionary n w")
      case (Ret d t)
      then obtain c where c: "mTextureContainer w = Some c" "map_find n (mContainers c) = Some d" "t = w"
        by (auto simp: dictionary_def container_def run_simps split: option.splits)
      then have "map_ok (mContainers c)" "\<forall>(k, d) \<in> set (mContainers c). dict_wf d"
        using True by (auto simp: containers_wf_def container_wf_def)
      then have "dict_wf d" using c(2) stdmap.items_lookup by fastforce
      then show ?thesis using assms Ret c(3) by (simp add: bnd_def steps_def)
    qed (auto simp: bnd_def dictionary_def container_def run_simps split: option.splits)
  qed (auto simp: keeps_containers_def split: outcome.splits)
qed

lemma set_dictionary_cont:
  assumes "dict_wf d"
  shows "steps keeps_containers (set_dictionary n d)"
proof -
  have "container_wf (c\<lparr>mContainers := map_put n d (mContainers c)\<rparr>)"
    if wf: "container_wf c" and n: "map_find n (mContainers c) \<noteq> None" for c
  proof -
    have ok: "map_ok (mContainers c)" using wf by (simp add: container_wf_def)
    have rng: "0 < k \<and> k < mIndex c \<and> dict_wf e" if "map_find k (mContainers c) = Some e" for k e
      using wf that ok by (auto simp: container_wf_def simp flip: stdmap.items_lookup)
    have "0 < k \<and> k < mIndex c \<and> dict_wf e" if "map_find k (map_put n d (mContainers c)) = Some e" for k e
      using that n rng assms ok by (auto simp: stdmap.lookup_put split: if_splits)
    then show ?thesis using wf ok
      by (auto simp: container_wf_def stdmap.ok_put stdmap.items_lookup)
  qed
  then show ?thesis
    by (auto simp: steps_def keeps_containers_def set_dictionary_def container_def run_simps containers_wf_def
        split: option.splits if_splits)
qed

lemma AddContainer_cont: "steps keeps_containers AddContainer"
proof -
  have "container_wf \<lparr>mContainers = map_put (mIndex c) TextureDictionary_new (mContainers c), mIndex = mIndex c + 1\<rparr>"
    if wf: "container_wf c" for c
  proof -
    have ok: "map_ok (mContainers c)" and pos: "0 < mIndex c" using wf by (auto simp: container_wf_def)
    have rng: "0 < k \<and> k < mIndex c \<and> dict_wf e" if "map_find k (mContainers c) = Some e" for k e
      using wf that ok by (auto simp: container_wf_def simp flip: stdmap.items_lookup)
    have "0 < k \<and> k < mIndex c + 1 \<and> dict_wf e"
      if "map_find k (map_put (mIndex c) TextureDictionary_new (mContainers c)) = Some e" for k e
      using that rng [of k e] ok pos dict_wf_new by (auto simp: stdmap.lookup_put split: if_splits)
    then show ?thesis using ok pos by (auto simp: container_wf_def stdmap.ok_put stdmap.items_lookup)
  qed
  then show ?thesis
    by (auto simp: steps_def keeps_containers_def AddContainer_def container_def run_simps containers_wf_def
        split: option.splits)
qed

lemma Compress_returns: "returns (Compress G t) (\<lambda>t'. length (fileData t') < 2 ^ 29)"
proof -
  have "k < 2 ^ 29" if "int k = c_div n 2" "n * 4 < 2 ^ 31" for k and n
    using that by (auto simp: c_div_def split: if_splits)
  then show ?thesis
    by (auto simp: returns_def Compress_def run_simps c_int_def Let_def split: option.splits if_splits)
qed

lemma name_field_returns: "returns (name_field s) (\<lambda>b. length b = 32)"
  by (simp add: name_field_def)

lemma texture_struct_returns:
  assumes "length (fileData t) < 2 ^ 29"
  shows "returns (texture_struct tn an ha co t (fileData t) 0)
    (\<lambda>tex. texture_wf \<lparr>TextureData = tex, ExtraInfo = TextureExtra_new\<rparr>)"
proof -
  let ?n = "word_of_nat (length (fileData t)) :: 32 word"
  have n: "unat ?n = length (fileData t)" using assms by (simp add: unat_of_nat)
  have "unat (92 + ?n) = 92 + length (fileData t)"
    using assms n unat_add_small [of 92 ?n] by simp
  then have wf: "returns (ret \<lparr>td_id = 0x01, td_chunk_size = 0 + 5 * 4 + 64 + 2 * 2 + 4 * 1 + 0 + ?n, td_marker = VERSION_GTASA,
       td_version = 0x09, td_filter_flags = 0x1101, td_texture_name = a, td_alpha_name = b,
       td_alpha_flags = texture_format co ha, td_direct3d_texture_format = (if co then 0x31545844 else 0),
       td_width = word_of_int x, td_height = word_of_int y, td_depth = 0x10, td_mipmap_count = 1,
       td_texcode_type = 0x04, td_flags = (if co then (if ha then 9 else 8) else (if ha then 1 else 0)),
       td_palette = None, td_data_size = ?n, td_data = Some (fileData t)\<rparr>)
      (\<lambda>tex. texture_wf \<lparr>TextureData = tex, ExtraInfo = TextureExtra_new\<rparr>)"
    if "length a = 32" "length b = 32" for a b x y
    using that n by (simp add: texture_wf_def body_size_def Let_def)
  have an: "returns (if ha then name_field an else ret (replicate 32 0)) (\<lambda>b. length b = 32)"
    by (simp add: name_field_def)
  show ?thesis
    unfolding texture_struct_def Let_def
    by (intro returns_bnd [OF name_field_returns] returns_bnd [OF an] returns_bnd [OF returns_any] wf)
qed

lemma add_to_cont:
  "texture_wf \<lparr>TextureData = tex, ExtraInfo = e\<rparr> \<Longrightarrow> steps keeps_containers (add_to n tex e)"
  unfolding add_to_def
  by (intro dictionary_bnd_cont set_dictionary_cont dict_wf_addTexture [OF _ _ prod.collapse [symmetric]])

lemma add_file_cont: "steps keeps_containers (add_file G n tn al p)"
  unfolding add_file_def
  by (intro cont.step_bnd_returns [OF Compress_cont Compress_returns]
      cont.step_bnd_returns [OF texture_struct_cont texture_struct_returns]
      cont.step_intros LoadImageToData_cont helpers_cont add_to_cont)

lemma dict_wf_Write: "dict_wf d \<Longrightarrow> Write b d = Some (d', c) \<Longrightarrow> dict_wf d'"
  by (auto simp: Write_def dict_wf_def Let_def split: if_splits)

lemma SaveTxdContainer_cont: "steps keeps_containers SaveTxdContainer"
proof -
  have "steps keeps_containers (bnd (defined (Write b d)) (\<lambda>(d', content).
       andThen (set_dictionary n d') (case content of
         Some bs \<Rightarrow> andThen (write_file p bs) (lua_pushboolean True) | None \<Rightarrow> lua_pushboolean False)))"
    if "dict_wf d" for b d n p
    by (rule cont.step_bnd_returns [where Q = "\<lambda>(d', c). dict_wf d'"])
      (auto simp: dict_wf_Write [OF that] intro!: cont.step_intros set_dictionary_cont helpers_cont)
  note save = this
  show ?thesis
    unfolding SaveTxdContainer_def
    by (intro save handler_cont with_resource_cont with_path_cont dictionary_bnd_cont cont.step_intros helpers_cont)
qed

fun types_from :: "'z lua_State_scheme \<Rightarrow> int \<Rightarrow> int list \<Rightarrow> bool" where
  "types_from w i [] = True"
| "types_from w i (t # ts) = (argtype w i = t \<and> types_from w (i + 1) ts)"

lemma args_are_pos: "0 < i \<Longrightarrow> args_are i ts w = Ret (types_from w i ts) w"
  by (induction ts arbitrary: i) (simp_all add: run_simps api_simps)

declare args_are.simps [simp del]

lemma str_arg_string: "0 < i \<Longrightarrow> arg w i = TString s \<Longrightarrow> str_arg i w = Ret (c_str s) w"
  by (simp add: str_arg_def run_simps api_simps)

lemma argtype_string: "argtype w i = LUA_TSTRING \<Longrightarrow> \<exists>s. 0 < i \<and> arg w i = TString s"
  by (auto dest!: argtype_nonneg simp: ttype_eq_simps)

lemma argtype_number: "argtype w i = LUA_TNUMBER \<Longrightarrow> \<exists>d. 0 < i \<and> arg w i = TNumber d"
  by (auto dest!: argtype_nonneg simp: ttype_eq_simps)

lemma num_arg_number: "0 < i \<Longrightarrow> arg w i = TNumber d \<Longrightarrow>
    num_arg i w = (case to_c_int d of Some n \<Rightarrow> Ret n w | None \<Rightarrow> Undef)"
  by (simp add: num_arg_def run_simps api_simps luaV_tonumber_def split: option.split)

lemma opt_alpha_same: "\<exists>a. opt_alpha w = Ret a w"
  using argtype_string [of w 5] by (auto simp: opt_alpha_def run_simps api_simps str_arg_string)

text \<open>\<open>txdContainerAddImagePtr\<close> never adds a texture.  It looks the image up by its first argument,
  the number of the container, instead of the third: whatever image is passed, the only effect of
  a well-typed call is a line in the debug log, and the function announces one result without
  pushing any.\<close>

theorem add_image_ptr_never_adds:
  assumes "argtype w 1 = LUA_TNUMBER" and "argtype w 2 = LUA_TSTRING" and "argtype w 3 = LUA_TUSERDATA"
    and "arg w 1 = TNumber d" and "to_c_int d = Some n"
    and "mTextureContainer w = Some c" and "map_find 0 (theImages w) = None"
  shows "\<exists>msg. TxdContainerAddImagePtr G w = Ret 1 (w\<lparr>debug_log := debug_log w @ [msg]\<rparr>)"
proof -
  obtain s where "arg w 2 = TString s" using argtype_string [OF assms(2)] by auto
  moreover obtain a where "opt_alpha w = Ret a w" using opt_alpha_same by blast
  ultimately show ?thesis
    using assms
    by (simp add: TxdContainerAddImagePtr_def handler_def run_simps args_are_pos num_arg_number str_arg_string
        HasMember_def container_def api_simps GetImage_def DebugPrintf_def) blast
qed

lemma AddImagePtr_keeps:
  assumes "TxdContainerAddImagePtr G w = Ret n w'" and "map_find 0 (theImages w) = None"
  shows "mTextureContainer w' = mTextureContainer w"
proof (cases "types_from w 1 [LUA_TNUMBER, LUA_TSTRING, LUA_TUSERDATA]")
  case True
  then obtain d s where d: "arg w 1 = TNumber d" and s: "arg w 2 = TString s"
    using argtype_number [of w 1] argtype_string [of w 2] by auto
  obtain a where a: "opt_alpha w = Ret a w" using opt_alpha_same by blast
  show ?thesis
    using assms True d s a
    by (auto simp: TxdContainerAddImagePtr_def handler_def run_simps args_are_pos num_arg_number str_arg_string
        HasMember_def container_def api_simps GetImage_def DebugPrintf_def split: option.splits if_splits)
next
  case False
  then have "bad_args ''txdContainerAddImagePtr'' 1 w = Ret n w'"
    using assms(1) by (simp only: TxdContainerAddImagePtr_def handler_def bnd_apply args_are_pos zero_less_one
        outcome.case if_False)
  then show ?thesis by (auto simp: bad_args_def DebugPrintf_def run_simps api_simps)
qed

lemma steps_Ret: "steps R m \<Longrightarrow> m s = Ret a t \<Longrightarrow> R s t"
  unfolding steps_def by (drule spec [of _ s]) simp

lemma cont_Ret: "steps keeps_containers m \<Longrightarrow> m w = Ret a w' \<Longrightarrow> containers_wf w \<Longrightarrow> containers_wf w'"
  using steps_Ret [of keeps_containers m w a w'] unfolding keeps_containers_def by blast

lemma AddImage_cont_file:
  "steps keeps_containers (andThen (with_resource (\<lambda>mResource. bnd (num_arg 1) (\<lambda>contId. bnd (str_arg 2) (\<lambda>tName.
     bnd (str_arg 3) (\<lambda>fName. bnd opt_alpha (\<lambda>alpha. bnd (HasMember contId) (\<lambda>m.
       if m then with_path fName mResource (bad_path ''txdContainerAddImage'') (add_file G contId tName alpha)
       else andThen (DebugPrintf ''Bad container id in: txdContainerAddImage'') (lua_pushboolean False)))))))) (ret 1))"
  by (intro with_resource_cont with_path_cont add_file_cont cont.step_intros helpers_cont)



section \<open>A small gd\<close>

text \<open>For the witnesses: a gd whose state is the list of its live images and the next address.  Every image
  is 4 by 4, red, and half transparent.\<close>

type_synonym demo_gd = "ptr list \<times> ptr"

definition on_live :: "ptr \<Rightarrow> 'a \<Rightarrow> (demo_gd, 'a) gdcall" where
  "on_live p a = (\<lambda>g. if p \<in> set (fst g) then Some (a, g) else None)"

definition demo_create :: "(demo_gd, ptr) gdcall" where
  "demo_create = (\<lambda>(l, n). Some (n, (n # l, n + 1)))"

definition demo_int :: "gd_fun \<Rightarrow> int" where
  "demo_int f = (if f \<in> {gdImageSX, gdImageSY} then 4 else if f = gdImageRed then 255
     else if f = gdImageAlpha then 64 else 0)"

definition demo_gd_lib :: "demo_gd gd_lib" where
  "demo_gd_lib = \<lparr>gd_int = (\<lambda>f p ns. on_live p (demo_int f)), gd_create = (\<lambda>_ _ _. demo_create),
     gd_create_from = (\<lambda>_ _. demo_create),
     gd_destroy = (\<lambda>p g. if p \<in> set (fst g) then Some ((), (removeAll p (fst g), snd g)) else None),
     gd_encode = (\<lambda>_ p _. on_live p [1, 2, 3]), gd_text_fun = (\<lambda>_ p _ _ _ _ _. on_live p ()),
     gd_stringFT = (\<lambda>_ _ _ _ _ _ _ _ g. Some ((None, replicate 8 0), g)), gd_style = (\<lambda>p. on_live p None),
     gd_set_style = (\<lambda>p _. on_live p ()), gd_brush = (\<lambda>p. on_live p 0), gd_set_brush = (\<lambda>p _. on_live p ()),
     gd_tile = (\<lambda>p. on_live p 0), gd_set_tile = (\<lambda>p _. on_live p ()), gd_font_h = (\<lambda>_. 8), gd_font_w = (\<lambda>_. 5),
     gdStyled = - 2, gdBrushed = - 3, gdStyledBrushed = - 4, gdTiled = - 5, gdTransparent = - 6, gdAntiAliased = - 7,
     gdArc = 0, gdChord = 1, gdNoFill = 2, gdEdged = 4, GD_VERSION_STRING = ''2.0'',
     squish_CompressImage = (\<lambda>_ x y. replicate (nat (x * y div 2)) 7)\<rparr>"

definition demo_tex_world :: "(ptr, mtaGdImage) stdmap \<Rightarrow> TValue list \<Rightarrow> demo_gd gd_world" where
  "demo_tex_world imgs args = lua_State.extend (new_state [] args)
     (gd_world.fields (Some \<lparr>mContainers = [(1, demo_dict)], mIndex = 2\<rparr>) imgs (map (img \<circ> snd) imgs, 500)
        (\<lambda>_. None) (\<lambda>_. True) (Some ''me'') (\<lambda>n. if n = ''me'' then 7 else 0) [] (\<lambda>n. replicate n 0) 0)"

lemma demo_tex_fields [simp]:
  "mTextureContainer (demo_tex_world is args) = Some \<lparr>mContainers = [(1, demo_dict)], mIndex = 2\<rparr>"
  "theImages (demo_tex_world is args) = is" "gd (demo_tex_world is args) = (map (img \<circ> snd) is, 500)"
  "files (demo_tex_world is args) = (\<lambda>_. None)" "writable (demo_tex_world is args) = (\<lambda>_. True)"
  "resource_name (demo_tex_world is args) = Some ''me''"
  "resource_vm (demo_tex_world is args) = (\<lambda>n. if n = ''me'' then 7 else 0)"
  "debug_log (demo_tex_world is args) = []" "stack (demo_tex_world is args) = args"
  by (simp_all add: demo_tex_world_def lua_State.extend_def gd_world.fields_def new_state_def)

lemma demo_containers_wf: "containers_wf (demo_tex_world is args)"
  using demo_dict_wf by (simp add: containers_wf_def container_wf_def map_ok_def)

lemma arg_demo: "0 < i \<Longrightarrow> nat i \<le> length args \<Longrightarrow> arg (demo_tex_world is args) i = args ! nat (i - 1)"
  by (simp add: arg_def)

lemma argtype_demo: "0 < i \<Longrightarrow> nat i \<le> length args \<Longrightarrow> argtype (demo_tex_world is args) i = ttype (args ! nat (i - 1))"
  by (simp add: argtype_def arg_def)

theorem add_image_ptr_never_adds_witness:
  "let w = demo_tex_world [] [TNumber (Fin 1), TString ''a'', TUserData 1000]
   in \<exists>msg. TxdContainerAddImagePtr demo_gd_lib w = Ret 1 (w\<lparr>debug_log := debug_log w @ [msg]\<rparr>)"
proof -
  have "to_c_int (Fin 1) = Some 1" using double_to_int_of_int [of _ _ 1] by (simp add: to_c_int_def)
  then show ?thesis unfolding Let_def
    by (intro add_image_ptr_never_adds) (simp_all add: arg_demo argtype_demo map_find_def)
qed

lemma to_c_int_1: "to_c_int (Fin 1) = Some 1"
  using double_to_int_of_int [of _ _ 1] by (simp add: to_c_int_def)



end
