(* ===== verification/TexturizerFiles.thy ===== *)
theory TexturizerFiles
  imports TexturizerSpec
begin

text \<open>
  Which files the Texturizer changes.  Two more step relations: \<open>same_files\<close> for the functions that
  never write, and \<open>only_file p\<close> for the part of a saving function that runs once the path is
  known.  The functions that create tables for their result take the interpreter as a parameter
  and are not in the list of quiet functions.
\<close>

definition same_files :: "'g gd_world \<Rightarrow> 'g gd_world \<Rightarrow> bool" where
  "same_files w w' \<longleftrightarrow> files w' = files w"

definition only_file :: "string \<Rightarrow> 'g gd_world \<Rightarrow> 'g gd_world \<Rightarrow> bool" where
  "only_file p w w' \<longleftrightarrow> (\<forall>q. q \<noteq> p \<longrightarrow> files w' q = files w q)"

interpretation quiet: step_relation same_files
  by unfold_locales (auto simp: same_files_def)

interpretation one: step_relation "only_file p" for p
  by unfold_locales (auto simp: only_file_def)

lemma quiet_same_module: "steps same_module m \<Longrightarrow> steps same_files (m :: ('g, 'a) gdm)"
  by (erule steps_mono) (simp add: same_files_def same_module_fields)

lemmas api_quiet = api_same_module [THEN quiet_same_module]

lemma gdc_quiet: "steps same_files (gdc f)"
  by (auto simp: steps_def gdc_def same_files_def split: option.splits)

lemma modify_quiet: "(\<And>w. files (f w) = files w) \<Longrightarrow> steps same_files (modify f)"
  by (simp add: steps_def same_files_def)

lemma args_are_quiet: "steps same_files (args_are i ts)"
  by (induction ts arbitrary: i) (auto simp: args_are.simps intro!: quiet.step_intros api_quiet)

lemma num_arg_quiet: "steps same_files (num_arg i)" and str_arg_quiet: "steps same_files (str_arg i)"
  and push_int_quiet: "steps same_files (push_int n)" and DebugPrintf_quiet: "steps same_files (DebugPrintf s)"
  and GetImage_quiet: "steps same_files (GetImage p)" and container_quiet: "steps same_files container"
  unfolding num_arg_def str_arg_def push_int_def DebugPrintf_def GetImage_def container_def
  by (intro quiet.step_intros api_quiet modify_quiet; simp)+

lemmas prim_quiet = api_quiet gdc_quiet args_are_quiet num_arg_quiet str_arg_quiet push_int_quiet
  DebugPrintf_quiet GetImage_quiet container_quiet

lemma num_args_quiet: "steps same_files (num_args is)"
  by (induction "is") (simp_all only: num_args.simps, (intro quiet.step_intros prim_quiet | assumption)+)

lemma number_loop_quiet: "steps same_files (number_loop n i acc)"
  by (induction n arbitrary: acc) (auto intro!: quiet.step_intros prim_quiet)

lemma handler_quiet: "steps same_files body \<Longrightarrow> steps same_files (handler name ts r body)"
  unfolding handler_def bad_args_def by (intro quiet.step_intros prim_quiet)

lemma with_image_quiet: "(\<And>im. steps same_files (body im)) \<Longrightarrow> steps same_files (with_image body)"
  unfolding with_image_def by (intro quiet.step_intros prim_quiet)

lemma with_resource_quiet: "(\<And>r. steps same_files (body r)) \<Longrightarrow> steps same_files (with_resource body)"
  unfolding with_resource_def by (intro quiet.step_intros prim_quiet)

lemma with_path_quiet: "steps same_files bad \<Longrightarrow> (\<And>p. steps same_files (body p)) \<Longrightarrow>
    steps same_files (with_path f r bad body)"
  unfolding with_path_def by (intro quiet.step_intros)

lemma bad_path_quiet: "steps same_files (bad_path s)"
  unfolding bad_path_def by (intro quiet.step_intros prim_quiet)

lemma table_numbers_quiet: "steps same_files (table_numbers i)"
  unfolding table_numbers_def by (intro quiet.step_intros prim_quiet number_loop_quiet)

lemma AddImage_quiet: "steps same_files (AddImage G x y b)" "steps same_files (AddImage_file G t p)"
  unfolding AddImage_def AddImage_file_def register_image_def GetResource_def
  by (intro quiet.step_intros prim_quiet modify_quiet; simp)+

lemma RemoveImage_quiet: "steps same_files (RemoveImage G p)"
  unfolding RemoveImage_def by (intro quiet.step_intros prim_quiet modify_quiet; simp)

lemma ResourceCleanup_quiet: "steps same_files (ResourceCleanup G p)"
  unfolding ResourceCleanup_def by (intro quiet.step_intros RemoveImage_quiet)

lemma SetImageAA_quiet: "steps same_files (SetImageAA p b)" and GetImageAA_quiet: "steps same_files (GetImageAA p)"
  unfolding SetImageAA_def GetImageAA_def by (intro quiet.step_intros modify_quiet; simp split: option.split)+

lemmas object_quiet = prim_quiet num_args_quiet table_numbers_quiet AddImage_quiet RemoveImage_quiet
  ResourceCleanup_quiet SetImageAA_quiet GetImageAA_quiet bad_path_quiet

lemma shared_quiet:
  "steps same_files (get_int G f)" "steps same_files (get_flag G f)" "steps same_files (set_flag G f)"
  "steps same_files (color_call G f)" "steps same_files (color_alpha_call G f)" "steps same_files (draw_call G f is)"
  "steps same_files (draw_text G t sel)" "steps same_files (get_ref h)" "steps same_files (set_ref k)"
  "steps same_files (push_image p)" "steps same_files (create_from G ty)"
  unfolding get_int_def get_flag_def set_flag_def color_call_def color_alpha_call_def draw_call_def draw_text_def
    get_ref_def set_ref_def push_image_def create_from_def
  by (intro with_image_quiet with_resource_quiet with_path_quiet quiet.step_intros object_quiet)+

lemma LoadImageToData_quiet: "steps same_files (LoadImageToData G fmt a t)"
  unfolding LoadImageToData_def LoadFromFile_def pixel_bytes_def c_int_def by (intro quiet.step_intros object_quiet)

lemma containers_quiet:
  "steps same_files (dictionary n)" "steps same_files (set_dictionary n d)" "steps same_files (HasMember n)"
  "steps same_files AddContainer" "steps same_files opt_alpha" "steps same_files (Compress G t)"
  "steps same_files (texture_struct tn an ha co t dat k)"
  unfolding dictionary_def set_dictionary_def HasMember_def AddContainer_def opt_alpha_def Compress_def
    texture_struct_def name_field_def c_int_def Let_def
  by (intro quiet.step_intros object_quiet modify_quiet; simp)+

section \<open>The quiet functions\<close>

definition quiet_functions :: "'g gd_lib \<Rightarrow> ('g, int) gdm list" where
  "quiet_functions G = [CreateTxdContainer, TxdContainerAddImage G, TxdContainerAddImagePtr G,
     imgCreate G, imgCreateTrueColor G, imgCreateFromPng G, imgCreateFromGif G, imgCreateFromJpeg G,
     imgSX G, imgSY G, imgIsTrueColor G, imgGetAlphaBlending G, imgSetAlphaBlending G, imgGetAntiAlias,
     imgSetAntiAlias, imgGetInterlace G, imgSetInterlace G, imgGetSaveAlpha G, imgSetSaveAlpha G,
     imgColorAllocate G, imgColorAllocateAlpha G, imgColorClosest G, imgColorClosestAlpha G, imgColorExact G,
     imgColorExactAlpha G, imgColorResolve G, imgColorResolveAlpha G, imgGetColorAt G, imgSetColorAt G,
     imgColorDeallocate G, imgColorsTotal G, imgColorSpecial G, imgFontHeight G, imgFontWidth G, imgChar G,
     imgCharUp G, imgString G, imgStringUp G, imgSetStyle G, imgGetThickness G, imgSetThickness G, imgGetBrush G,
     imgSetBrush G, imgGetTile G, imgSetTile G, imgLine G, imgArc G, imgRectangle G, imgEllipse G, imgFill G,
     imgFillToBorder G, imgFilledArc G, imgFilledRectangle G, imgFilledEllipse G, imgDestroy G, imgCleanup G]"

lemma add_to_quiet: "steps same_files (add_to n t e)"
  unfolding add_to_def by (intro quiet.step_intros containers_quiet)

lemma AddImagePtr_quiet: "steps same_files (TxdContainerAddImagePtr G)"
  unfolding TxdContainerAddImagePtr_def TextureData_new_def
  by (intro handler_quiet quiet.step_intros object_quiet containers_quiet LoadImageToData_quiet add_to_quiet)

lemma AddImage_function_quiet: "steps same_files (TxdContainerAddImage G)"
  unfolding TxdContainerAddImage_def add_file_def bad_args_def
  by (intro with_resource_quiet with_path_quiet quiet.step_intros object_quiet containers_quiet LoadImageToData_quiet
      add_to_quiet AddImagePtr_quiet)

lemma creation_quiet:
  "steps same_files CreateTxdContainer" "steps same_files (imgCreate G)" "steps same_files (imgCreateTrueColor G)"
  "steps same_files (imgCreateFromPng G)" "steps same_files (imgCreateFromGif G)" "steps same_files (imgCreateFromJpeg G)"
  "steps same_files (imgSX G)" "steps same_files (imgSY G)" "steps same_files (imgIsTrueColor G)"
  unfolding CreateTxdContainer_def imgCreate_def imgCreateTrueColor_def imgCreateFromPng_def imgCreateFromGif_def
    imgCreateFromJpeg_def imgSX_def imgSY_def imgIsTrueColor_def
  by (intro handler_quiet quiet.step_intros object_quiet shared_quiet containers_quiet)+

lemma flags_quiet:
  "steps same_files (imgGetAlphaBlending G)" "steps same_files (imgSetAlphaBlending G)" "steps same_files imgGetAntiAlias"
  "steps same_files imgSetAntiAlias" "steps same_files (imgGetInterlace G)" "steps same_files (imgSetInterlace G)"
  "steps same_files (imgGetSaveAlpha G)" "steps same_files (imgSetSaveAlpha G)"
  unfolding imgGetAlphaBlending_def imgSetAlphaBlending_def imgGetAntiAlias_def imgSetAntiAlias_def imgGetInterlace_def
    imgSetInterlace_def imgGetSaveAlpha_def imgSetSaveAlpha_def
  by (intro handler_quiet quiet.step_intros object_quiet shared_quiet)+

lemma colors_quiet:
  "steps same_files (imgColorAllocate G)" "steps same_files (imgColorAllocateAlpha G)" "steps same_files (imgColorClosest G)"
  "steps same_files (imgColorClosestAlpha G)" "steps same_files (imgColorExact G)" "steps same_files (imgColorExactAlpha G)"
  "steps same_files (imgColorResolve G)" "steps same_files (imgColorResolveAlpha G)" "steps same_files (imgGetColorAt G)"
  "steps same_files (imgSetColorAt G)" "steps same_files (imgColorDeallocate G)" "steps same_files (imgColorsTotal G)"
  "steps same_files (imgColorSpecial G)"
  unfolding imgColorAllocate_def imgColorAllocateAlpha_def imgColorClosest_def imgColorClosestAlpha_def imgColorExact_def
    imgColorExactAlpha_def imgColorResolve_def imgColorResolveAlpha_def imgGetColorAt_def imgSetColorAt_def
    imgColorDeallocate_def imgColorsTotal_def imgColorSpecial_def
  by (intro handler_quiet with_image_quiet quiet.step_intros object_quiet shared_quiet)+

lemma text_style_quiet:
  "steps same_files (imgFontHeight G)" "steps same_files (imgFontWidth G)" "steps same_files (imgChar G)"
  "steps same_files (imgCharUp G)" "steps same_files (imgString G)" "steps same_files (imgStringUp G)"
  "steps same_files (imgSetStyle G)" "steps same_files (imgGetThickness G)" "steps same_files (imgSetThickness G)"
  "steps same_files (imgGetBrush G)" "steps same_files (imgSetBrush G)" "steps same_files (imgGetTile G)"
  "steps same_files (imgSetTile G)"
  unfolding imgFontHeight_def imgFontWidth_def imgChar_def imgCharUp_def imgString_def imgStringUp_def imgSetStyle_def
    imgGetThickness_def imgSetThickness_def imgGetBrush_def imgSetBrush_def imgGetTile_def imgSetTile_def
  by (intro handler_quiet with_image_quiet quiet.step_intros object_quiet shared_quiet)+

lemma drawing_quiet:
  "steps same_files (imgLine G)" "steps same_files (imgArc G)" "steps same_files (imgRectangle G)"
  "steps same_files (imgEllipse G)" "steps same_files (imgFill G)" "steps same_files (imgFillToBorder G)"
  "steps same_files (imgFilledArc G)" "steps same_files (imgFilledRectangle G)" "steps same_files (imgFilledEllipse G)"
  "steps same_files (imgDestroy G)" "steps same_files (imgCleanup G)"
  unfolding imgLine_def imgArc_def imgRectangle_def imgEllipse_def imgFill_def imgFillToBorder_def imgFilledArc_def
    imgFilledRectangle_def imgFilledEllipse_def imgDestroy_def imgCleanup_def
  by (intro handler_quiet with_image_quiet quiet.step_intros object_quiet shared_quiet)+

lemma quiet_functions_quiet: "m \<in> set (quiet_functions G) \<Longrightarrow> steps same_files m"
  unfolding quiet_functions_def list.set insert_iff empty_iff
  using creation_quiet flags_quiet colors_quiet text_style_quiet drawing_quiet AddImagePtr_quiet AddImage_function_quiet
  by (elim disjE) simp_all

section \<open>The saving functions\<close>

lemma one_quiet: "steps same_files m \<Longrightarrow> steps (only_file p) m"
  by (erule steps_mono) (simp add: same_files_def only_file_def)

lemma open_out_one: "steps (only_file (c_str p)) (open_out p)"
  and write_file_one: "steps (only_file (c_str p)) (write_file p bs)"
  by (simp_all add: steps_def only_file_def open_out_def write_file_def run_simps)

lemmas one_rules = object_quiet [THEN one_quiet] containers_quiet [THEN one_quiet] open_out_one write_file_one

text \<open>A run that goes through \<open>with_path\<close> changes no file, or only the file of the accepted path.\<close>

definition saves_at :: "'g gd_world \<Rightarrow> string \<Rightarrow> 'g gd_world \<Rightarrow> bool" where
  "saves_at w f w' \<longleftrightarrow> files w' = files w \<or> (\<exists>r path meta. resource_name w = Some r \<and>
     ParseResourcePathInput (\<lambda>n. resource_vm w n \<noteq> 0) (c_str f) r = Some (Some (path, meta)) \<and>
     only_file (c_str path) w w')"

lemma with_path_saves:
  assumes "with_path (c_str f) r bad body w = Ret u w'" and "resource_name w = Some r"
    and "steps same_files bad" and "\<And>p. steps (only_file (c_str p)) (body p)"
  shows "saves_at w f w'"
proof -
  obtain q where q: "ParseResourcePathInput (\<lambda>n. resource_vm w n \<noteq> 0) (c_str f) r = Some q"
    and run: "(case q of None \<Rightarrow> bad | Some (p, m) \<Rightarrow> body p) w = Ret u w'"
    using assms(1) by (auto simp: with_path_def bnd_apply defined_def split: option.splits)
  show ?thesis
  proof (cases q)
    case None
    then show ?thesis using run steps_Ret [OF assms(3)] by (auto simp: saves_at_def same_files_def)
  next
    case (Some pm)
    then show ?thesis using run q assms(2) steps_Ret [OF assms(4)]
      by (cases pm) (auto simp: saves_at_def)
  qed
qed

lemma save_image_saves:
  assumes "save_image G name ty getLevel da w = Ret u w'" and "arg w 2 = TString f" and "0 < da"
    and "\<And>v t. getLevel w = Ret v t \<Longrightarrow> t = w" and "\<And>e t. getLevel w \<noteq> Throw e t"
  shows "saves_at w f w'"
proof (cases "resource_name w")
  case None
  then show ?thesis using assms(1)
    by (auto simp: save_image_def with_resource_def run_simps api_simps saves_at_def)
next
  case (Some r)
  let ?p = "case arg w 1 of TUserData p \<Rightarrow> p | TLightUserData p \<Rightarrow> p | _ \<Rightarrow> 0"
  let ?im = "case map_find ?p (theImages w) of Some i \<Rightarrow> img i | None \<Rightarrow> 0"
  let ?body = "\<lambda>im level dele fNewPath. bnd (open_out fNewPath) (\<lambda>b.
       if b then bnd (gdc (gd_encode G ty im level)) (\<lambda>result. andThen (write_file fNewPath result)
         (andThen (whenever dele (bnd (lua_touserdata 1) (RemoveImage G))) (lua_pushboolean True)))
       else lua_pushboolean False)"
  have one: "steps (only_file (c_str p)) (?body im level dele p)" for im level dele p
    by (intro one.step_intros one_rules)
  show ?thesis
  proof (cases "?im = 0")
    case True
    then have "w' = w\<lparr>stack := stack w @ [TBoolean False]\<rparr>"
      using assms(1) Some
      by (simp add: save_image_def with_resource_def with_image_def GetImage_def bnd_apply api_simps)
    then show ?thesis by (simp add: saves_at_def)
  next
    case False
    then obtain v where run: "with_path (c_str f) r (bad_path name)
        (?body ?im v (\<not> l_isfalse (arg w da))) w = Ret u w'"
      using assms Some
      by (cases "getLevel w")
        (auto simp: save_image_def with_resource_def with_image_def GetImage_def bnd_apply api_simps str_arg_string)
    show ?thesis by (rule with_path_saves [OF run Some bad_path_quiet one])
  qed
qed

lemma Save_saves:
  assumes "SaveTxdContainer w = Ret n w'" and "types_from w 1 [LUA_TNUMBER, LUA_TSTRING]" and "arg w 2 = TString f"
  shows "saves_at w f w'"
proof (cases "resource_name w")
  case None
  then show ?thesis using assms
    by (auto simp: SaveTxdContainer_def handler_def args_are_pos with_resource_def run_simps api_simps saves_at_def)
next
  case (Some r)
  let ?body = "\<lambda>contId fNewPath. andThen (DebugPrintf (''saveTxdContainer: '' @ c_str fNewPath))
      (bnd (dictionary contId) (\<lambda>d. bnd (open_out fNewPath) (\<lambda>opened. bnd (defined (Write opened d)) (\<lambda>(d', content).
       andThen (set_dictionary contId d') (case content of
         Some bs \<Rightarrow> andThen (write_file fNewPath bs) (lua_pushboolean True)
       | None \<Rightarrow> lua_pushboolean False)))))"
  have one: "steps (only_file (c_str p)) (?body k p)" for k p
    by (intro one.step_intros one_rules)
  obtain d where d: "arg w 1 = TNumber d" using assms(2) argtype_number [of w 1] by auto
  obtain k c where k: "to_c_int d = Some k" and c: "mTextureContainer w = Some c"
    using assms Some d
    by (cases "to_c_int d"; cases "mTextureContainer w")
      (simp_all add: SaveTxdContainer_def handler_def args_are_pos with_resource_def bnd_apply andThen_apply
        num_arg_number str_arg_string HasMember_def container_def defined_def)
  show ?thesis
  proof (cases "map_find k (mContainers c) = None")
    case True
    then show ?thesis using assms Some d k c
      by (auto simp: SaveTxdContainer_def handler_def args_are_pos with_resource_def bnd_apply andThen_apply
        num_arg_number str_arg_string HasMember_def container_def defined_def DebugPrintf_def api_simps saves_at_def)
  next
    case False
    then obtain u where run: "with_path (c_str f) r (bad_path ''saveTxdContainer'') (?body k) w = Ret u w'"
      using assms Some d k c
      by (cases "with_path (c_str f) r (bad_path ''saveTxdContainer'') (?body k) w")
       (simp_all add: SaveTxdContainer_def handler_def args_are_pos with_resource_def bnd_apply [of "num_arg _"]
        bnd_apply [of "str_arg _"] bnd_apply [of "HasMember _"] bnd_apply [of "gets _"] bnd_apply [of "args_are _ _"]
        andThen_apply [of _ "ret _"] num_arg_number str_arg_string HasMember_def container_def defined_def
        bnd_apply [of "bnd _ _"])
    show ?thesis by (rule with_path_saves [OF run Some bad_path_quiet one])
  qed
qed

definition saving_functions :: "'g gd_lib \<Rightarrow> ('g, int) gdm list" where
  "saving_functions G = [imgPng G, imgGif G, imgJpeg G, SaveTxdContainer]"

lemma handler_cases:
  assumes "handler name ts r body w = Ret n w'"
  shows "(types_from w 1 ts \<and> body w = Ret () w') \<or> (\<not> types_from w 1 ts \<and> files w' = files w)"
  using assms
  by (cases "types_from w 1 ts"; cases "body w")
    (auto simp: handler_def bnd_apply args_are_pos andThen_apply bad_args_def DebugPrintf_def api_simps)

lemma image_saves:
  assumes "handler name [LUA_TLIGHTUSERDATA, LUA_TSTRING] r (save_image G nm ty getLevel da) w = Ret n w'" and "0 < da"
    and "\<And>v t. getLevel w = Ret v t \<Longrightarrow> t = w" and "\<And>e t. getLevel w \<noteq> Throw e t"
  shows "files w' = files w \<or> (\<exists>f. arg w 2 = TString f \<and> saves_at w f w')"
  using handler_cases [OF assms(1)]
proof (elim disjE conjE)
  assume "types_from w 1 [LUA_TLIGHTUSERDATA, LUA_TSTRING]" and run: "save_image G nm ty getLevel da w = Ret () w'"
  then obtain f where "arg w 2 = TString f" using argtype_string [of w 2] by auto
  then show ?thesis
    using save_image_saves [of G nm ty getLevel da w "()" w' f] run assms(2-4) by blast
qed simp

lemma saving_saves:
  assumes "m \<in> set (saving_functions G)" and "m w = Ret n w'"
  shows "files w' = files w \<or> (\<exists>f. arg w 2 = TString f \<and> saves_at w f w')"
proof -
  have num: "t = w" if "num_arg 3 w = Ret v t" for v t
    using that by (auto simp: num_arg_def run_simps api_simps split: option.splits)
  have num_throw: "num_arg 3 w \<noteq> Throw e t" for e t
    by (auto simp: num_arg_def run_simps api_simps split: option.splits)
  have png: ?thesis if "imgPng G w = Ret n w'"
    by (rule image_saves [OF that [unfolded imgPng_def]])
      (use num num_throw in \<open>auto simp: run_simps api_simps split: if_splits\<close>)
  have gif: ?thesis if "imgGif G w = Ret n w'"
    by (rule image_saves [OF that [unfolded imgGif_def]]) auto
  have jpeg: ?thesis if "imgJpeg G w = Ret n w'"
    by (rule image_saves [OF that [unfolded imgJpeg_def]])
      (auto simp: run_simps api_simps split: if_splits option.splits)
  have save: ?thesis if "SaveTxdContainer w = Ret n w'"
    using handler_cases [OF that [unfolded SaveTxdContainer_def]] argtype_string [of w 2] Save_saves [OF that] by auto
  show ?thesis using assms png gif jpeg save by (auto simp: saving_functions_def)
qed



end
