(* ===== verification/TexturizerImages.thy ===== *)
theory TexturizerImages
  imports TexturizerSpec
begin

text \<open>
  The life of an image.  \<open>gd_contract\<close> is what gd documents of creation and destruction: a new
  image is fresh, and a live image can be destroyed once.  Under it every handle of the registry
  names a live image of its own, in every state the registry operations can reach, and none of them
  ever destroys an image that is not alive.
\<close>

section \<open>The contract of gd\<close>

definition creates :: "('g \<Rightarrow> ptr set) \<Rightarrow> ('g, ptr) gdcall \<Rightarrow> bool" where
  "creates live f \<longleftrightarrow> (\<forall>g. \<exists>p g'. f g = Some (p, g') \<and>
     (if p = 0 then live g' = live g else p \<notin> live g \<and> live g' = insert p (live g)))"

definition gd_contract :: "'g gd_lib \<Rightarrow> ('g \<Rightarrow> ptr set) \<Rightarrow> bool" where
  "gd_contract G live \<longleftrightarrow> (\<forall>b x y. creates live (gd_create G b x y)) \<and> (\<forall>t c. creates live (gd_create_from G t c)) \<and>
     (\<forall>g p. p \<in> live g \<longrightarrow> (\<exists>g'. gd_destroy G p g = Some ((), g') \<and> live g' = live g - {p}))"

definition reg_inv :: "('g \<Rightarrow> ptr set) \<Rightarrow> 'g gd_world \<Rightarrow> bool" where
  "reg_inv live w \<longleftrightarrow> map_ok (theImages w) \<and>
     (\<forall>p i. map_find p (theImages w) = Some i \<longrightarrow> p \<noteq> 0 \<and> img i \<noteq> 0 \<and> img i \<in> live (gd w)) \<and>
     (\<forall>p q i j. map_find p (theImages w) = Some i \<and> map_find q (theImages w) = Some j \<and> img i = img j \<longrightarrow> p = q)"

section \<open>Removal\<close>

definition images_of :: "ptr set \<Rightarrow> 'g gd_world \<Rightarrow> ptr set" where
  "images_of ps w = {im. \<exists>p i. p \<in> ps \<and> map_find p (theImages w) = Some i \<and> im = img i}"

definition removed :: "('g \<Rightarrow> ptr set) \<Rightarrow> ptr set \<Rightarrow> 'g gd_world \<Rightarrow> 'g gd_world \<Rightarrow> bool" where
  "removed live ps w w' \<longleftrightarrow> reg_inv live w' \<and>
     (\<forall>q. map_find q (theImages w') = (if q \<in> ps then None else map_find q (theImages w))) \<and>
     live (gd w') = live (gd w) - images_of ps w"

lemma RemoveImage_removed:
  assumes "gd_contract G live" and "reg_inv live w"
  shows "\<exists>w'. RemoveImage G p w = Ret () w' \<and> removed live {p} w w'"
proof (cases "map_find p (theImages w)")
  case None
  then show ?thesis using assms(2) by (auto simp: RemoveImage_def GetImage_def run_simps removed_def images_of_def)
next
  case (Some i)
  then have i: "img i \<noteq> 0" "img i \<in> live (gd w)" using assms(2) by (auto simp: reg_inv_def)
  then obtain g' where g': "gd_destroy G (img i) (gd w) = Some ((), g')" "live g' = live (gd w) - {img i}"
    using assms(1) unfolding gd_contract_def by blast
  let ?w = "w\<lparr>gd := g', theImages := map_erase p (theImages w)\<rparr>"
  have run: "RemoveImage G p w = Ret () ?w"
    using Some i g' by (simp add: RemoveImage_def GetImage_def run_simps gdc_def)
  have ok: "map_ok (theImages w)" using assms(2) by (simp add: reg_inv_def)
  have "img j \<noteq> img i" if "map_find q (theImages w) = Some j" "q \<noteq> p" for q j
    using assms(2) Some that unfolding reg_inv_def by metis
  then have "reg_inv live ?w"
    using assms(2) ok g'(2) by (auto simp: reg_inv_def stdmap.ok_del stdmap.lookup_del)
  then show ?thesis using run Some ok g'(2) by (auto simp: removed_def images_of_def stdmap.lookup_del)
qed

lemma removed_trans: "removed live ps w w' \<Longrightarrow> removed live qs w' w'' \<Longrightarrow> removed live (ps \<union> qs) w w''"
proof -
  assume a: "removed live ps w w'" and b: "removed live qs w' w''"
  have look: "map_find q (theImages w') = (if q \<in> ps then None else map_find q (theImages w))" for q
    using a by (simp add: removed_def)
  have "images_of qs w' = {im. \<exists>p i. p \<in> qs - ps \<and> map_find p (theImages w) = Some i \<and> im = img i}"
    unfolding images_of_def look by (rule Collect_cong) (auto split: if_splits)
  then have "images_of ps w \<union> images_of qs w' = images_of (ps \<union> qs) w"
    unfolding images_of_def by blast
  then show ?thesis using a b by (auto simp: removed_def)
qed

lemma RemoveImages_removed:
  assumes "gd_contract G live" and "reg_inv live w"
  shows "\<exists>w'. forEach ps (RemoveImage G) w = Ret () w' \<and> removed live (set ps) w w'"
  using assms(2)
proof (induction ps arbitrary: w)
  case Nil
  then show ?case by (simp add: removed_def images_of_def)
next
  case (Cons p ps)
  obtain w1 where w1: "RemoveImage G p w = Ret () w1" "removed live {p} w w1"
    using RemoveImage_removed [OF assms(1) Cons.prems] by blast
  then have "reg_inv live w1" by (simp add: removed_def)
  then obtain w2 where w2: "forEach ps (RemoveImage G) w1 = Ret () w2" "removed live (set ps) w1 w2"
    using Cons.IH by blast
  then show ?case using w1 removed_trans [OF w1(2) w2(2)] by (simp add: andThen_apply)
qed

text \<open>C16: \<open>imageCleanup\<close> destroys exactly the images of a resource: the handles of the resource are
  gone, every other handle keeps its image, and the images that die in gd are those of the
  resource and no others.\<close>

theorem cleanup_frees_exactly:
  assumes "gd_contract G live" and "reg_inv live w"
  shows "\<exists>w'. ResourceCleanup G r w = Ret () w' \<and>
    (\<forall>p. map_find p (theImages w') = (case map_find p (theImages w) of
        Some i \<Rightarrow> if resource i = r then None else Some i | None \<Rightarrow> None)) \<and>
    live (gd w') = live (gd w) - {img i | p i. map_find p (theImages w) = Some i \<and> resource i = r}"
proof -
  let ?ps = "map fst (filter (\<lambda>(p, i). resource i = r) (theImages w))"
  have ok: "map_ok (theImages w)" using assms(2) by (simp add: reg_inv_def)
  have sel: "p \<in> set ?ps \<longleftrightarrow> (\<exists>i. map_find p (theImages w) = Some i \<and> resource i = r)" for p
    using ok by (force simp flip: stdmap.items_lookup)
  obtain w' where w': "forEach ?ps (RemoveImage G) w = Ret () w'" "removed live (set ?ps) w w'"
    using RemoveImages_removed [OF assms] by blast
  have "ResourceCleanup G r w = Ret () w'" using w'(1) by (simp add: ResourceCleanup_def bnd_apply)
  moreover have "images_of (set ?ps) w = {img i | p i. map_find p (theImages w) = Some i \<and> resource i = r}"
    unfolding images_of_def sel by auto blast
  moreover have "map_find p (theImages w') = (case map_find p (theImages w) of
      Some i \<Rightarrow> if resource i = r then None else Some i | None \<Rightarrow> None)" for p
    using w'(2) sel [of p] by (auto simp: removed_def split: option.split)
  ultimately show ?thesis using w'(2) by (auto simp: removed_def)
qed

section \<open>Creation\<close>

lemma register_image_ok:
  assumes "reg_inv live w0" and "theImages w = theImages w0" and "p \<noteq> 0"
    and "if im = 0 then live (gd w) = live (gd w0) else im \<notin> live (gd w0) \<and> live (gd w) = insert im (live (gd w0))"
  shows "\<exists>w'. register_image p im w = Ret (if im = 0 then 0 else p) w' \<and> reg_inv live w' \<and>
    (\<forall>q. map_find q (theImages w') = (if im \<noteq> 0 \<and> q = p
       then Some \<lparr>img = im, antialiase = False,
         resource = (case resource_name w of Some r \<Rightarrow> resource_vm w (c_str r) | None \<Rightarrow> 0)\<rparr>
       else map_find q (theImages w0)))"
proof (cases "im = 0")
  case True
  then show ?thesis using assms by (simp add: register_image_def reg_inv_def)
next
  case False
  have ok: "map_ok (theImages w0)" using assms(1) by (simp add: reg_inv_def)
  have alive: "img i \<in> live (gd w0)" if "map_find q (theImages w0) = Some i" for q i
    using assms(1) that by (auto simp: reg_inv_def)
  have im: "im \<notin> live (gd w0)" "live (gd w) = insert im (live (gd w0))" using assms(4) False by auto
  define i where "i = \<lparr>img = im, antialiase = False,
    resource = (case resource_name w of Some r \<Rightarrow> resource_vm w (c_str r) | None \<Rightarrow> 0)\<rparr>"
  let ?w = "w\<lparr>theImages := map_put p i (theImages w)\<rparr>"
  have look: "map_find q (theImages ?w) = (if q = p then Some i else map_find q (theImages w0))" for q
    using ok assms(2) by (simp add: stdmap.lookup_put)
  have run: "register_image p im w = Ret p ?w"
    using False by (simp add: register_image_def GetResource_def run_simps i_def split: option.split)
  have "img j \<noteq> im" if "map_find q (theImages w0) = Some j" for q j using alive [OF that] im(1) by auto
  then have "reg_inv live ?w"
    using assms(1,2,3) False im ok unfolding reg_inv_def look
    by (auto simp: stdmap.ok_put i_def split: if_splits)
  then show ?thesis using run False look by (auto simp: i_def)
qed

lemma creates_register:
  assumes "creates live f" and "reg_inv live w0" and "theImages w = theImages w0" and "gd w = gd w0" and "p \<noteq> 0"
  shows "\<exists>im q w'. bnd (gdc f) (register_image p) w = Ret q w' \<and> reg_inv live w'"
proof -
  obtain im g' where f: "f (gd w0) = Some (im, g')"
    and l: "if im = 0 then live g' = live (gd w0) else im \<notin> live (gd w0) \<and> live g' = insert im (live (gd w0))"
    using assms(1) unfolding creates_def by blast
  have w: "theImages (w\<lparr>gd := g'\<rparr>) = theImages w0" "gd (w\<lparr>gd := g'\<rparr>) = g'" using assms(3) by auto
  obtain w' where "register_image p im (w\<lparr>gd := g'\<rparr>) = Ret (if im = 0 then 0 else p) w'" "reg_inv live w'"
    using register_image_ok [OF assms(2) w(1) assms(5), of im] l unfolding w(2) by blast
  then show ?thesis using f assms(4) by (simp add: bnd_apply gdc_def)
qed

section \<open>Every sequence of registry operations\<close>

datatype img_op = Create int int bool | CreateFrom img_type string | Remove ptr | Cleanup ptr | SetAA ptr bool

fun run_op :: "'g gd_lib \<Rightarrow> img_op \<Rightarrow> ('g, unit) gdm" where
  "run_op G (Create x y b) = andThen (AddImage G x y b) (ret ())"
| "run_op G (CreateFrom t path) = andThen (AddImage_file G t path) (ret ())"
| "run_op G (Remove p) = RemoveImage G p"
| "run_op G (Cleanup r) = ResourceCleanup G r"
| "run_op G (SetAA p b) = SetImageAA p b"

text \<open>Between two operations of the registry the scripts run and draw: the Lua machine, the files and
  the pixels change, the registry and the set of live images do not.\<close>

inductive img_reach :: "'g gd_lib \<Rightarrow> ('g \<Rightarrow> ptr set) \<Rightarrow> 'g gd_world \<Rightarrow> 'g gd_world \<Rightarrow> bool"
  for G live w0 where
  start: "img_reach G live w0 w0"
| op: "img_reach G live w0 w \<Longrightarrow> run_op G oper w = Ret () w' \<Longrightarrow> img_reach G live w0 w'"
| other: "img_reach G live w0 w \<Longrightarrow> theImages w' = theImages w \<Longrightarrow> live (gd w') = live (gd w) \<Longrightarrow> img_reach G live w0 w'"

lemma AddImage_ok:
  assumes "gd_contract G live" and "reg_inv live w"
  shows "\<exists>q w'. AddImage G x y b w = Ret q w' \<and> reg_inv live w'"
    and "\<exists>q w'. AddImage_file G t path w = Ret q w' \<and> reg_inv live w'"
proof -
  obtain p u where nu: "lua_newuserdata 128 w = Ret p u" and same: "same_module w u"
    using lua_newuserdata_same_module [of 128] by (force simp: lua_newuserdata_def Let_def same_module_def)
  note eq = same_module_fields [OF same]
  have inv: "reg_inv live u" using assms(2) eq by (simp add: reg_inv_def)
  have c: "creates live (gd_create G b x y)" "\<And>c. creates live (gd_create_from G t c)"
    using assms(1) by (auto simp: gd_contract_def)
  show "\<exists>q w'. AddImage G x y b w = Ret q w' \<and> reg_inv live w'"
  proof (cases "p = 0")
    case False
    then show ?thesis
      using creates_register [OF c(1) assms(2) eq(2) eq(4)] nu
      by (auto simp: AddImage_def bnd_apply [of "lua_newuserdata _"])
  qed (use nu inv in \<open>simp add: AddImage_def bnd_apply\<close>)
  show "\<exists>q w'. AddImage_file G t path w = Ret q w' \<and> reg_inv live w'"
  proof (cases "p = 0 \<or> files u (c_str path) = None")
    case False
    then show ?thesis
      using creates_register [OF c(2) assms(2) eq(2) eq(4)] nu
      by (auto simp: AddImage_file_def bnd_apply [of "lua_newuserdata _"] bnd_apply [of "gets _"])
  qed (use nu inv in \<open>auto simp: AddImage_file_def bnd_apply\<close>)
qed

lemma SetImageAA_ok: "reg_inv live w \<Longrightarrow> \<exists>w'. SetImageAA p b w = Ret () w' \<and> reg_inv live w'"
proof (cases "map_find p (theImages w)")
  case (Some i)
  assume inv: "reg_inv live w"
  then have ok: "map_ok (theImages w)" by (simp add: reg_inv_def)
  then have "map_find q (map_put p (i\<lparr>antialiase := b\<rparr>) (theImages w)) =
      (if q = p then Some (i\<lparr>antialiase := b\<rparr>) else map_find q (theImages w))" for q
    by (simp add: stdmap.lookup_put)
  then have "reg_inv live (w\<lparr>theImages := map_put p (i\<lparr>antialiase := b\<rparr>) (theImages w)\<rparr>)"
    using inv Some ok by (auto simp: reg_inv_def stdmap.ok_put split: if_splits)
  then show ?thesis using Some by (simp add: SetImageAA_def)
qed (simp add: SetImageAA_def)

lemma run_op_ok:
  assumes "gd_contract G live" and "reg_inv live w"
  shows "\<exists>w'. run_op G oper w = Ret () w' \<and> reg_inv live w'"
proof (cases oper)
  case (Create x y b)
  then show ?thesis using AddImage_ok(1) [OF assms, of x y b] by (auto simp: andThen_apply)
next
  case (CreateFrom t path)
  then show ?thesis using AddImage_ok(2) [OF assms, of t path] by (auto simp: andThen_apply)
next
  case (Remove p)
  then show ?thesis using RemoveImage_removed [OF assms, of p] by (auto simp: removed_def)
next
  case (Cleanup r)
  then show ?thesis
    using RemoveImages_removed [OF assms, of "map fst (filter (\<lambda>(p, i). resource i = r) (theImages w))"]
    by (auto simp: ResourceCleanup_def bnd_apply removed_def)
next
  case (SetAA p b)
  then show ?thesis using SetImageAA_ok [OF assms(2)] by simp
qed

text \<open>C15: No image is used after it was destroyed, and none is destroyed twice, by the registry: in
  every state that creating, removing, cleaning up and drawing can reach, every handle names a live
  image of its own, and every further operation of the registry is defined and keeps it so.\<close>

theorem image_registry_safe:
  assumes "gd_contract G live" and "reg_inv live w0" and "img_reach G live w0 w"
  shows "(\<forall>p i. map_find p (theImages w) = Some i \<longrightarrow> img i \<in> live (gd w)) \<and>
    (\<exists>w'. run_op G oper w = Ret () w' \<and> reg_inv live w')"
proof -
  have "reg_inv live w" using assms(3)
  proof (induction rule: img_reach.induct)
    case (op w oper w')
    then show ?case using run_op_ok [OF assms(1), of w oper] by auto
  next
    case (other w w')
    then show ?case by (simp add: reg_inv_def)
  qed (rule assms(2))
  moreover from this have "\<forall>p i. map_find p (theImages w) = Some i \<longrightarrow> img i \<in> live (gd w)"
    by (simp add: reg_inv_def)
  ultimately show ?thesis using run_op_ok [OF assms(1)] by blast
qed

lemma demo_contract: "gd_contract demo_gd_lib (\<lambda>g. set (fst g) \<inter> {p. 0 < p \<and> p < snd g})"
proof -
  have "creates (\<lambda>g. set (fst g) \<inter> {p. 0 < p \<and> p < snd g}) demo_create"
    unfolding creates_def demo_create_def by auto
  then show ?thesis by (auto simp: gd_contract_def demo_gd_lib_def)
qed

abbreviation (input) demo_live :: "demo_gd \<Rightarrow> ptr set" where
  "demo_live \<equiv> \<lambda>g. set (fst g) \<inter> {p. 0 < p \<and> p < snd g}"

definition demo_images :: "(ptr, mtaGdImage) stdmap" where
  "demo_images = [(1000, \<lparr>img = 9, antialiase = False, resource = 7\<rparr>), (1001, \<lparr>img = 8, antialiase = False, resource = 5\<rparr>)]"

lemma demo_reg_inv: "reg_inv demo_live (demo_tex_world demo_images args)"
  by (auto simp: reg_inv_def map_ok_def map_find_def demo_images_def split: if_splits)

theorem cleanup_frees_exactly_witness:
  "\<exists>w'. ResourceCleanup demo_gd_lib 7 (demo_tex_world demo_images []) = Ret () w' \<and>
     map_find 1000 (theImages w') = None \<and> map_find 1001 (theImages w') \<noteq> None \<and> demo_live (gd w') = {8}"
proof -
  obtain w' where w': "ResourceCleanup demo_gd_lib 7 (demo_tex_world demo_images []) = Ret () w'"
    and f: "\<forall>p. map_find p (theImages w') = (case map_find p demo_images of
        Some i \<Rightarrow> if resource i = 7 then None else Some i | None \<Rightarrow> None)"
    and l: "demo_live (gd w') = demo_live (gd (demo_tex_world demo_images [])) -
        {img i | p i. map_find p demo_images = Some i \<and> resource i = 7}"
    using cleanup_frees_exactly [OF demo_contract demo_reg_inv, of 7 "[]"] by auto
  have "{img i | p i. map_find p demo_images = Some i \<and> resource i = 7} = {9}"
    by (auto simp: demo_images_def map_find_def split: if_splits intro!: exI [of _ 1000])
  moreover have "demo_live (gd (demo_tex_world demo_images [])) = {9, 8}" by (auto simp: demo_images_def)
  ultimately have "demo_live (gd w') = {8}" using l by auto
  then show ?thesis using w' f by (auto simp: demo_images_def map_find_def)
qed

theorem image_registry_safe_witness:
  "\<exists>w'. run_op demo_gd_lib (Remove 1000) (demo_tex_world demo_images []) = Ret () w' \<and> reg_inv demo_live w'"
  using image_registry_safe [OF demo_contract demo_reg_inv img_reach.start, of "[]" "Remove 1000"] by blast

end
