(* ===== verification/CurlModule.thy ===== *)
theory CurlModule
  imports LuaArguments CurlConstants
begin

text \<open>
  The curl module (\<open>ml_curl\<close>): the transfer objects of \<open>Mtacurl.cpp\<close>, the manager of \<open>Mtacurls.cpp\<close>, the
  Lua functions of \<open>CFunctions.cpp\<close> and the entry points of \<open>ml_system.cpp\<close>.  libcurl is the
  parameter \<open>libcurl\<close>: each function may be undefined (\<open>None\<close>) on an argument the library does not
  accept, such as a handle that was cleaned up.  A transfer is a tree: the library either ends it
  or calls one of the handlers of \<open>Mtacurl.cpp\<close> and goes on with what the handler returned and the
  library state the handler left, since Lua code that runs in a handler may call the module again.
  The model follows one Lua machine: \<open>gLuaVM\<close> and the stream argument of the handlers are that machine.
\<close>

section \<open>State\<close>

datatype handler = l_easy_headerhandler | l_easy_writehandler | l_easy_readhandler

datatype setopt_arg = LongArg int | StringArg "string option" | LuaStateArg | HandlerArg handler | NullArg

text \<open>What libcurl hands to a handler: the bytes, or the room it has for bytes; \<open>nmemb * size\<close> is the length.\<close>

datatype transfer_event = HeaderData string | WriteData string | ReadRoom nat

datatype 'c transfer = Finished int 'c | Callback 'c transfer_event "string \<times> int \<times> 'c \<Rightarrow> 'c transfer"

type_synonym ('c, 'a) curl_call = "'c \<Rightarrow> ('a \<times> 'c) option"

record 'c libcurl =
  curl_global_init :: "int \<Rightarrow> ('c, int) curl_call"
  curl_global_cleanup :: "('c, unit) curl_call"
  curl_easy_init :: "('c, ptr) curl_call"
  curl_easy_cleanup :: "ptr \<Rightarrow> ('c, unit) curl_call"
  curl_easy_escape :: "ptr \<Rightarrow> string \<Rightarrow> int \<Rightarrow> ('c, string option) curl_call"
  curl_easy_setopt :: "ptr \<Rightarrow> int \<Rightarrow> setopt_arg \<Rightarrow> ('c, int) curl_call"
  curl_easy_perform :: "ptr \<Rightarrow> 'c \<Rightarrow> 'c transfer option"
  curl_easy_send :: "ptr \<Rightarrow> nat \<Rightarrow> ptr \<Rightarrow> ('c, int) curl_call"
  curl_easy_strerror :: "int \<Rightarrow> string"

text \<open>\<open>m_pBuflen\<close> and \<open>m_pBufsize\<close> are set by no constructor; the contents of \<open>m_pBuffer\<close> are never written.\<close>

record Mtacurl =
  m_pUserData :: ptr
  m_pConnected :: bool
  m_pCurl :: ptr
  m_bAwaitingDestruction :: bool
  m_pBuflen :: "nat option"
  m_pBufsize :: "ptr option"

record 'c curl_world = lua_State +
  curls :: "ptr \<Rightarrow> Mtacurl option"
  next_curl :: ptr
  mtacurls :: "ptr list option"
  pModuleManager_set :: bool
  gLuaVM_set :: bool
  cl :: 'c
  debug_output :: "string list"

type_synonym ('c, 'a) curlm = "('c curl_world, 'a) lua"
type_synonym 'c curl_run = "ptr \<Rightarrow> ('c, TValue list) curlm"

abbreviation (input) CURLE_OK :: int where "CURLE_OK \<equiv> 0"
abbreviation (input) CURLOPT_WRITEDATA :: int where "CURLOPT_WRITEDATA \<equiv> 10001"
abbreviation (input) CURLOPT_URL :: int where "CURLOPT_URL \<equiv> 10002"
abbreviation (input) CURLOPT_READDATA :: int where "CURLOPT_READDATA \<equiv> 10009"
abbreviation (input) CURLOPT_WRITEFUNCTION :: int where "CURLOPT_WRITEFUNCTION \<equiv> 20011"
abbreviation (input) CURLOPT_READFUNCTION :: int where "CURLOPT_READFUNCTION \<equiv> 20012"
abbreviation (input) CURLOPT_WRITEHEADER :: int where "CURLOPT_WRITEHEADER \<equiv> 10029"
abbreviation (input) CURLOPT_HEADERFUNCTION :: int where "CURLOPT_HEADERFUNCTION \<equiv> 20079"
abbreviation (input) CURL_GLOBAL_ALL :: int where "CURL_GLOBAL_ALL \<equiv> 3"

definition clib :: "('c, 'a) curl_call \<Rightarrow> ('c, 'a) curlm" where
  "clib f = (\<lambda>w. case f (cl w) of None \<Rightarrow> Undef | Some (a, c) \<Rightarrow> Ret a (w\<lparr>cl := c\<rparr>))"

definition get_curl :: "ptr \<Rightarrow> ('c, Mtacurl) curlm" where
  "get_curl p = bnd (gets (\<lambda>w. curls w p)) defined"

definition set_curl :: "ptr \<Rightarrow> (Mtacurl \<Rightarrow> Mtacurl) \<Rightarrow> ('c, unit) curlm" where
  "set_curl p f = bnd (get_curl p) (\<lambda>c. modify (\<lambda>w. w\<lparr>curls := (curls w)(p \<mapsto> f c)\<rparr>))"

section \<open>Handlers\<close>

text \<open>The handlers take the table with the Lua functions from the top of the stack.\<close>

definition data_handler :: "'c curl_run \<Rightarrow> string \<Rightarrow> string \<Rightarrow> ('c, int) curlm" where
  "data_handler run field data =
     andThen (lua_getfield run (- 1) field)
    (andThen (lua_pushlstring data)
    (andThen (lua_call run 1 0)
    (ret (uint_to_int (int (length data))))))"

definition read_handler :: "'c curl_run \<Rightarrow> nat \<Rightarrow> ('c, string \<times> int) curlm" where
  "read_handler run room = bnd lua_gettop (\<lambda>old_top.
     andThen (lua_getfield run (- 1) ''readfunction'')
    (andThen (lua_pushinteger (int room))
    (andThen (lua_call run 1 1)
    (bnd (lua_tolstring (- 1)) (\<lambda>r.
     let str = (case r of Some s \<Rightarrow> s | None \<Rightarrow> []); n = length str in
     andThen (whenever (n > room) (luaL_error (''String returned from readfunction is too long (''
        @ int_str (uint_to_int (int n)) @ '')'')))
    (andThen (lua_settop old_top)
    (ret (str, uint_to_int (int n)))))))))"

definition call_handler :: "'c curl_run \<Rightarrow> transfer_event \<Rightarrow> ('c, string \<times> int) curlm" where
  "call_handler run ev = (case ev of
     HeaderData d \<Rightarrow> bnd (data_handler run ''headerfunction'' d) (\<lambda>n. ret ([], n))
   | WriteData d \<Rightarrow> bnd (data_handler run ''writefunction'' d) (\<lambda>n. ret ([], n))
   | ReadRoom room \<Rightarrow> read_handler run room)"

primrec run_transfer :: "'c curl_run \<Rightarrow> 'c transfer \<Rightarrow> ('c, int) curlm" where
  "run_transfer run (Finished code c) = andThen (modify (\<lambda>w. w\<lparr>cl := c\<rparr>)) (ret code)"
| "run_transfer run (Callback c ev k) = andThen (modify (\<lambda>w. w\<lparr>cl := c\<rparr>))
     (bnd (call_handler run ev) (\<lambda>r. bnd (gets cl) (\<lambda>c'. run_transfer run (k (fst r, snd r, c')))))"

section \<open>Mtacurl\<close>

definition alloc_curl :: "Mtacurl \<Rightarrow> ('c, ptr) curlm" where
  "alloc_curl c = (\<lambda>w. let p = next_curl w in
     Ret p (w\<lparr>curls := (curls w)(p \<mapsto> c), next_curl := p + 1\<rparr>))"

definition Mtacurl_new :: "'c libcurl \<Rightarrow> ('c, ptr) curlm" where
  "Mtacurl_new lc = bnd (lua_newuserdata 128) (\<lambda>u. bnd (clib (curl_easy_init lc)) (\<lambda>h.
     alloc_curl \<lparr>m_pUserData = u, m_pConnected = True, m_pCurl = h, m_bAwaitingDestruction = False,
       m_pBuflen = None, m_pBufsize = None\<rparr>))"

text \<open>The constructor with a URL escapes the whole URL and sets the escaped text.\<close>

definition Mtacurl_new_url :: "'c libcurl \<Rightarrow> string \<Rightarrow> ('c, ptr) curlm" where
  "Mtacurl_new_url lc url = bnd (lua_newuserdata 128) (\<lambda>u. bnd (clib (curl_easy_init lc)) (\<lambda>h.
     bnd (clib (curl_easy_escape lc h url (uint_to_int (int (length url))))) (\<lambda>host.
     bnd (alloc_curl \<lparr>m_pUserData = u, m_pConnected = True, m_pCurl = h, m_bAwaitingDestruction = False,
       m_pBuflen = None, m_pBufsize = None\<rparr>) (\<lambda>p.
     bnd (clib (curl_easy_setopt lc h CURLOPT_URL (StringArg host))) (\<lambda>_. ret p)))))"

definition Mtacurl_delete :: "'c libcurl \<Rightarrow> ptr \<Rightarrow> ('c, unit) curlm" where
  "Mtacurl_delete lc p = bnd (get_curl p) (\<lambda>c. andThen (clib (curl_easy_cleanup lc (m_pCurl c)))
     (modify (\<lambda>w. w\<lparr>curls := (curls w)(p := None)\<rparr>)))"

definition easy_setopt :: "'c libcurl \<Rightarrow> ptr \<Rightarrow> int \<Rightarrow> setopt_arg \<Rightarrow> ('c, int) curlm" where
  "easy_setopt lc p option val = bnd (get_curl p) (\<lambda>c. clib (curl_easy_setopt lc (m_pCurl c) option val))"

definition setopt_boolean :: "'c libcurl \<Rightarrow> ptr \<Rightarrow> int \<Rightarrow> bool \<Rightarrow> ('c, int) curlm" where
  "setopt_boolean lc p option val = easy_setopt lc p option (LongArg (if val then 1 else 0))"

definition setopt_number :: "'c libcurl \<Rightarrow> ptr \<Rightarrow> int \<Rightarrow> int \<Rightarrow> ('c, int) curlm" where
  "setopt_number lc p option val = easy_setopt lc p option (LongArg val)"

definition setopt_string :: "'c libcurl \<Rightarrow> ptr \<Rightarrow> int \<Rightarrow> string option \<Rightarrow> ('c, int) curlm" where
  "setopt_string lc p option val = easy_setopt lc p option (StringArg (map_option c_str val))"

definition perform :: "'c libcurl \<Rightarrow> 'c curl_run \<Rightarrow> ptr \<Rightarrow> ('c, int) curlm" where
  "perform lc run p = bnd (get_curl p) (\<lambda>c. bnd (gets cl) (\<lambda>s.
     case curl_easy_perform lc (m_pCurl c) s of None \<Rightarrow> undef | Some t \<Rightarrow> run_transfer run t))"

text \<open>\<open>sizeof(m_pBuffer)\<close> is 1024 pointers; \<open>m_pBufsize\<close> is read although nothing has set it.\<close>

definition send :: "'c libcurl \<Rightarrow> ptr \<Rightarrow> ('c, int) curlm" where
  "send lc p = andThen (set_curl p (\<lambda>c. c\<lparr>m_pBuflen := Some (1024 * 8)\<rparr>))
     (bnd (get_curl p) (\<lambda>c. bnd (defined (m_pBuflen c)) (\<lambda>n. bnd (defined (m_pBufsize c)) (\<lambda>b.
       clib (curl_easy_send lc (m_pCurl c) n b)))))"

definition strerror :: "'c libcurl \<Rightarrow> int \<Rightarrow> string" where
  "strerror lc error = curl_easy_strerror lc error"

definition must_succeed :: "'c libcurl \<Rightarrow> int \<Rightarrow> ('c, unit) curlm" where
  "must_succeed lc code = whenever (code \<noteq> CURLE_OK) (luaL_error (c_str (strerror lc code)))"

definition setup_writefunction :: "'c libcurl \<Rightarrow> ptr \<Rightarrow> ('c, unit) curlm" where
  "setup_writefunction lc p =
     bnd (easy_setopt lc p CURLOPT_WRITEDATA LuaStateArg) (\<lambda>iDataSetup. andThen (must_succeed lc iDataSetup)
    (bnd (easy_setopt lc p CURLOPT_WRITEFUNCTION (HandlerArg l_easy_writehandler)) (must_succeed lc)))"

definition setup_readfunction :: "'c libcurl \<Rightarrow> ptr \<Rightarrow> ('c, unit) curlm" where
  "setup_readfunction lc p =
     bnd (easy_setopt lc p CURLOPT_READDATA LuaStateArg) (\<lambda>iDataSetup. andThen (must_succeed lc iDataSetup)
    (bnd (easy_setopt lc p CURLOPT_READFUNCTION (HandlerArg l_easy_readhandler)) (must_succeed lc)))"

definition setup_headerfunction :: "'c libcurl \<Rightarrow> ptr \<Rightarrow> ('c, unit) curlm" where
  "setup_headerfunction lc p =
     bnd (easy_setopt lc p CURLOPT_WRITEHEADER LuaStateArg) (\<lambda>iDataSetup. andThen (must_succeed lc iDataSetup)
    (bnd (easy_setopt lc p CURLOPT_HEADERFUNCTION (HandlerArg l_easy_headerhandler)) (must_succeed lc)))"

definition clear_writefunction :: "'c libcurl \<Rightarrow> ptr \<Rightarrow> ('c, unit) curlm" where
  "clear_writefunction lc p = bnd (easy_setopt lc p CURLOPT_WRITEFUNCTION NullArg) (must_succeed lc)"

definition clear_readfunction :: "'c libcurl \<Rightarrow> ptr \<Rightarrow> ('c, unit) curlm" where
  "clear_readfunction lc p = bnd (easy_setopt lc p CURLOPT_READFUNCTION NullArg) (must_succeed lc)"

definition clear_headerfunction :: "'c libcurl \<Rightarrow> ptr \<Rightarrow> ('c, unit) curlm" where
  "clear_headerfunction lc p = bnd (easy_setopt lc p CURLOPT_HEADERFUNCTION NullArg) (must_succeed lc)"

definition Mtacurl_cleanup :: "'c libcurl \<Rightarrow> ptr \<Rightarrow> ('c, unit) curlm" where
  "Mtacurl_cleanup lc p = bnd (get_curl p) (\<lambda>c. clib (curl_easy_cleanup lc (m_pCurl c)))"

definition escape :: "'c libcurl \<Rightarrow> ptr \<Rightarrow> string \<Rightarrow> ('c, string option) curlm" where
  "escape lc p url = bnd (get_curl p) (\<lambda>c.
     clib (curl_easy_escape lc (m_pCurl c) url (uint_to_int (int (length url)))))"

definition MakeAwaitDestruction :: "ptr \<Rightarrow> ('c, unit) curlm" where
  "MakeAwaitDestruction p = set_curl p (\<lambda>c. c\<lparr>m_bAwaitingDestruction := True\<rparr>)"

definition Mtacurl_DoPulse :: "ptr \<Rightarrow> ('c, unit) curlm" where
  "Mtacurl_DoPulse p = ret ()"

section \<open>Mtacurls\<close>

definition Mtacurls_new :: "'c libcurl \<Rightarrow> ('c, unit) curlm" where
  "Mtacurls_new lc = bnd (clib (curl_global_init lc CURL_GLOBAL_ALL)) (\<lambda>_.
     modify (\<lambda>w. w\<lparr>mtacurls := Some []\<rparr>))"

text \<open>The destructor frees the vector and not the objects it points to.\<close>

definition Mtacurls_delete :: "'c libcurl \<Rightarrow> ('c, unit) curlm" where
  "Mtacurls_delete lc = bnd (gets mtacurls) (\<lambda>m. if m = None then ret () else
     andThen (clib (curl_global_cleanup lc)) (modify (\<lambda>w. w\<lparr>mtacurls := None\<rparr>)))"

definition manager :: "('c, ptr list) curlm" where
  "manager = bnd (gets mtacurls) defined"

definition Create :: "'c libcurl \<Rightarrow> string option \<Rightarrow> ('c, ptr) curlm" where
  "Create lc url = bnd manager (\<lambda>_.
     bnd (case url of None \<Rightarrow> Mtacurl_new lc | Some u \<Rightarrow> Mtacurl_new_url lc u) (\<lambda>pMtacurl.
     andThen (modify (\<lambda>w. w\<lparr>mtacurls := map_option (\<lambda>l. l @ [pMtacurl]) (mtacurls w)\<rparr>)) (ret pMtacurl)))"

fun find_curl :: "ptr \<Rightarrow> ptr list \<Rightarrow> ('c, ptr option) curlm" where
  "find_curl pUserData [] = ret None"
| "find_curl pUserData (p # ps) = bnd (get_curl p) (\<lambda>c.
     if m_pUserData c = pUserData then ret (Some p) else find_curl pUserData ps)"

definition Get :: "ptr \<Rightarrow> ('c, ptr option) curlm" where
  "Get pUserData = bnd manager (find_curl pUserData)"

text \<open>
  The loop over the vector: \<open>i\<close> is kept or the element at \<open>i\<close> is erased, so \<open>n\<close>, the number of
  elements from \<open>i\<close> on, counts the rounds.  Running out of it is \<open>Undef\<close>.
\<close>

definition erase_at :: "nat \<Rightarrow> 'a list \<Rightarrow> 'a list" where
  "erase_at i xs = take i xs @ drop (Suc i) xs"

fun curl_pulse_loop :: "nat \<Rightarrow> 'c libcurl \<Rightarrow> nat \<Rightarrow> ('c, unit) curlm" where
  "curl_pulse_loop n lc i = bnd manager (\<lambda>l. if i < length l then (case n of 0 \<Rightarrow> undef | Suc m \<Rightarrow>
     (let p = l ! i; erase = modify (\<lambda>w. w\<lparr>mtacurls := Some (erase_at i l)\<rparr>) in
      if p \<noteq> 0 then bnd (get_curl p) (\<lambda>c.
        if \<not> m_bAwaitingDestruction c then andThen (Mtacurl_DoPulse p) (curl_pulse_loop m lc (i + 1))
        else andThen erase (andThen (Mtacurl_delete lc p) (curl_pulse_loop m lc i)))
      else andThen erase (curl_pulse_loop m lc i))) else ret ())"

declare curl_pulse_loop.simps [simp del]

definition Mtacurls_DoPulse :: "'c libcurl \<Rightarrow> ('c, unit) curlm" where
  "Mtacurls_DoPulse lc = bnd manager (\<lambda>l. curl_pulse_loop (length l) lc 0)"

section \<open>CFunctions\<close>

abbreviation (input) push_false :: "('c, int) curlm" where
  "push_false \<equiv> andThen (lua_pushboolean False) (ret 1)"

text \<open>\<open>lua_upvalueindex(0)\<close> is the pseudo-index of the globals, and the message prints what \<open>lua_tostring\<close> gives.\<close>

definition curl_func_register :: "('c, int) curlm" where
  "curl_func_register = bnd (lua_tolstring LUA_GLOBALSINDEX) (\<lambda>r. bnd (defined r) (\<lambda>func.
     andThen (modify (\<lambda>w. w\<lparr>debug_output := debug_output w @
       [''The function '' @ quoted (c_str func) @ '' is registered, but not working.'']\<rparr>))
    (andThen lua_pushnil (andThen lua_pushnil (ret 1)))))"

definition curl_init :: "'c libcurl \<Rightarrow> ('c, int) curlm" where
  "curl_init lc = bnd (lua_type 1) (\<lambda>t1.
     bnd (if t1 = LUA_TSTRING then bnd (luaL_checklstring 1) (\<lambda>url. Create lc (Some url)) else Create lc None)
       (\<lambda>pMtacurl. if pMtacurl \<noteq> 0 then bnd (get_curl pMtacurl) (\<lambda>c.
          andThen (lua_pushlightuserdata (m_pUserData c)) (ret 1)) else push_false))"

text \<open>The functions on a transfer: the first argument is a light userdata the manager knows.\<close>

definition with_curl :: "(ptr \<Rightarrow> ('c, int) curlm) \<Rightarrow> ('c, int) curlm \<Rightarrow> ('c, int) curlm" where
  "with_curl f otherwise = bnd (lua_touserdata 1) (\<lambda>u. bnd (Get u) (\<lambda>r.
     case r of Some p \<Rightarrow> f p | None \<Rightarrow> otherwise))"

definition curl_close :: "('c, int) curlm" where
  "curl_close = bnd (lua_type 1) (\<lambda>t1. if t1 = LUA_TLIGHTUSERDATA then
     with_curl (\<lambda>p. andThen (MakeAwaitDestruction p) (andThen (lua_pushboolean True) (ret 1))) push_false
     else push_false)"

text \<open>
  \<open>(CURLoption&)option\<close> reads the low half of the pointer itself.  \<open>code\<close> is not initialised: with a
  third argument that is no boolean, number or string it is read without a value.
\<close>

definition enum_of_ptr :: "ptr \<Rightarrow> int" where
  "enum_of_ptr p = int p mod 2 ^ 32"

definition setopt_code :: "'c libcurl \<Rightarrow> ptr \<Rightarrow> int \<Rightarrow> ('c, int) curlm" where
  "setopt_code lc p option = bnd (lua_type 3) (\<lambda>t3.
     if t3 = LUA_TBOOLEAN then bnd (lua_toboolean 3) (setopt_boolean lc p option)
     else if t3 = LUA_TNUMBER then bnd (lua_tonumber 3) (\<lambda>d. bnd (defined (to_c_int d)) (setopt_number lc p option))
     else if t3 = LUA_TSTRING then bnd (lua_tolstring 3) (setopt_string lc p option)
     else undef)"

definition curl_setopt :: "'c libcurl \<Rightarrow> ('c, int) curlm" where
  "curl_setopt lc = bnd (lua_type 1) (\<lambda>t1. bnd (lua_type 2) (\<lambda>t2.
     if t1 = LUA_TLIGHTUSERDATA \<and> t2 = LUA_TLIGHTUSERDATA then with_curl (\<lambda>p.
       bnd (lua_touserdata 2) (\<lambda>option. bnd (setopt_code lc p (enum_of_ptr option)) (\<lambda>code.
         if code \<noteq> CURLE_OK then andThen (lua_pushlightuserdata (nat (to_ulonglong code))) (ret 1)
         else push_false))) push_false
     else push_false))"

definition curl_cleanup :: "'c libcurl \<Rightarrow> ('c, int) curlm" where
  "curl_cleanup lc = bnd (lua_type 1) (\<lambda>t1. if t1 = LUA_TLIGHTUSERDATA then
     with_curl (\<lambda>p. andThen (Mtacurl_cleanup lc p) (andThen (lua_pushboolean True) (ret 1))) push_false
     else push_false)"

definition curl_escape :: "'c libcurl \<Rightarrow> ('c, int) curlm" where
  "curl_escape lc = bnd (lua_type 1) (\<lambda>t1. bnd (lua_type 2) (\<lambda>t2.
     let otherwise = andThen lua_pushnil (ret 1) in
     if t1 = LUA_TLIGHTUSERDATA \<and> t2 = LUA_TSTRING then with_curl (\<lambda>p.
       bnd (luaL_checklstring 2) (\<lambda>url. bnd (escape lc p url) (\<lambda>escape_url.
         andThen (lua_pushstring escape_url) (ret 1)))) otherwise
     else otherwise))"

definition setup_callback ::
  "'c curl_run \<Rightarrow> string \<Rightarrow> ('c, unit) curlm \<Rightarrow> ('c, bool) curlm" where
  "setup_callback run field setup = andThen (lua_getfield run 2 field) (bnd (lua_type (- 1)) (\<lambda>t.
     andThen (whenever (t = LUA_TFUNCTION) setup) (andThen (lua_pop 1) (ret (t = LUA_TFUNCTION)))))"

definition curl_perform :: "'c libcurl \<Rightarrow> 'c curl_run \<Rightarrow> ('c, int) curlm" where
  "curl_perform lc run = bnd (lua_type 1) (\<lambda>t1. if t1 = LUA_TLIGHTUSERDATA then with_curl (\<lambda>p.
     bnd (lua_type 2) (\<lambda>t2. andThen (if t2 \<le> 0 then lua_createtable else luaL_checktype 2 LUA_TTABLE)
    (bnd (setup_callback run ''writefunction'' (setup_writefunction lc p)) (\<lambda>writefunction.
     bnd (setup_callback run ''readfunction'' (setup_readfunction lc p)) (\<lambda>readfunction.
     bnd (setup_callback run ''headerfunction'' (setup_headerfunction lc p)) (\<lambda>headerfunction.
     bnd (perform lc run p) (\<lambda>code.
     andThen (whenever writefunction (clear_writefunction lc p))
    (andThen (whenever readfunction (clear_readfunction lc p))
    (andThen (whenever headerfunction (clear_headerfunction lc p))
    (andThen (lua_pushlightuserdata (nat (to_ulonglong code))) (ret 1)))))))))))
     push_false
     else push_false)"

definition curl_send :: "'c libcurl \<Rightarrow> ('c, int) curlm" where
  "curl_send lc = bnd (lua_type 1) (\<lambda>t1. if t1 = LUA_TLIGHTUSERDATA then
     with_curl (\<lambda>p. bnd (send lc p) (\<lambda>code.
       andThen (lua_pushlightuserdata (nat (to_ulonglong code))) (ret 1))) push_false
     else push_false)"

definition curl_strerror :: "'c libcurl \<Rightarrow> ('c, int) curlm" where
  "curl_strerror lc = bnd (lua_type 1) (\<lambda>t1. bnd (lua_type 2) (\<lambda>t2.
     let otherwise = andThen lua_pushnil (ret 1) in
     if t1 = LUA_TLIGHTUSERDATA \<and> t2 = LUA_TLIGHTUSERDATA then with_curl (\<lambda>p.
       bnd (lua_touserdata 2) (\<lambda>code.
         andThen (lua_pushstring (Some (strerror lc (enum_of_ptr code)))) (ret 1))) otherwise
     else otherwise))"

definition registerLuaGlobal :: "'c curl_run \<Rightarrow> string \<Rightarrow> ptr \<Rightarrow> ('c, unit) curlm" where
  "registerLuaGlobal run name value = andThen (lua_pushlightuserdata value) (lua_setglobal run name)"

definition saveLuaData :: "('c, unit) curlm" where
  "saveLuaData = modify (\<lambda>w. w\<lparr>gLuaVM_set := True\<rparr>)"

definition curl_addEvent :: "'c curl_run \<Rightarrow> string \<Rightarrow> ('c, unit) curlm" where
  "curl_addEvent run szEventName =
     andThen (args_Call run (PushBoolean (PushString [] szEventName) True) ''addEvent'') (ret ())"

definition curl_triggerEvent :: "'c curl_run \<Rightarrow> string \<Rightarrow> ptr \<Rightarrow> string \<Rightarrow> ('c, unit) curlm" where
  "curl_triggerEvent run eventName userdata arg1 = bnd (gets gLuaVM_set) (\<lambda>set. if \<not> set then undef else
    (let args = PushString [] eventName in
     andThen (lua_getglobal run ''root'')
    (bnd (arg_Read (- 1) (raw_argument LUA_TNIL)) (\<lambda>RootElement.
     bnd (defined (m_pLightUserData RootElement)) (\<lambda>r.
     let args = PushUserData (PushUserData args r) userdata;
         args = (if length arg1 > 0 then PushString args arg1 else args) in
     andThen (args_Call run args ''triggerEvent'') (ret ()))))))"

section \<open>Module entry points\<close>

definition curl_functions :: "string list" where
  "curl_functions = [''curl_init'', ''curl_close'', ''curl_setopt'', ''curl_sleep'', ''curl_cleanup'',
     ''curl_escape'', ''curl_perform'', ''curl_strerror'']"

definition curl_function :: "'c libcurl \<Rightarrow> 'c curl_run \<Rightarrow> string \<Rightarrow> ('c, int) curlm" where
  "curl_function lc run f =
     (if f = ''curl_init'' then curl_init lc
      else if f = ''curl_close'' then curl_close
      else if f = ''curl_setopt'' then curl_setopt lc
      else if f = ''curl_sleep'' then curl_func_register
      else if f = ''curl_cleanup'' then curl_cleanup lc
      else if f = ''curl_escape'' then curl_escape lc
      else if f = ''curl_perform'' then curl_perform lc run
      else if f = ''curl_strerror'' then curl_strerror lc
      else lua_raise ''attempt to call a nil value'')"

definition Curl_InitModule :: "'c libcurl \<Rightarrow> ('c, bool) curlm" where
  "Curl_InitModule lc = andThen (modify (\<lambda>w. w\<lparr>pModuleManager_set := True\<rparr>))
     (andThen (Mtacurls_new lc) (ret True))"

definition Curl_RegisterFunctions :: "(string \<Rightarrow> ('c, unit) curlm) \<Rightarrow> 'c curl_run \<Rightarrow> ('c, unit) curlm" where
  "Curl_RegisterFunctions RegisterFunction run = bnd (gets pModuleManager_set) (\<lambda>m. whenever m
     (andThen saveLuaData (andThen (forEach curl_functions RegisterFunction)
       (forEach curl_globals (\<lambda>(name, value). registerLuaGlobal run name value)))))"

definition Curl_DoPulse :: "'c libcurl \<Rightarrow> ('c, bool) curlm" where
  "Curl_DoPulse lc = andThen (Mtacurls_DoPulse lc) (ret True)"

definition Curl_ShutdownModule :: "'c libcurl \<Rightarrow> ('c, bool) curlm" where
  "Curl_ShutdownModule lc = andThen (Mtacurls_delete lc) (ret True)"

end
