(* ===== verification/CurlSafety.thy ===== *)
theory CurlSafety
  imports CurlModule LuaFrame
begin

text \<open>
  Memory safety of the curl module.  \<open>curl_inv live M H\<close> is the invariant: the manager's vector lists
  every \<open>Mtacurl\<close> object once, no two objects share a libcurl handle, the handles libcurl holds open
  are those of the objects, the objects of \<open>M\<close> stay listed and the handles of \<open>H\<close> stay open.
  \<open>curl_contract\<close> states what libcurl documents: which functions accept an open or null handle, and that
  options take arguments of their kind.  Every function of the module keeps the invariant when the Lua
  code it calls back does, and Lua code that calls the module's functions does, by induction on the
  depth of nested calls.
\<close>

section \<open>Contract of libcurl\<close>

primrec transfer_ok :: "('c \<Rightarrow> ptr set) \<Rightarrow> 'c transfer \<Rightarrow> ptr set \<Rightarrow> bool" where
  "transfer_ok live (Finished code c) L = (live c = L)"
| "transfer_ok live (Callback c ev k) L = (live c = L \<and>
     (\<forall>b n c'. L \<subseteq> live c' \<longrightarrow> transfer_ok live (k (b, n, c')) (live c')))"

definition string_option :: "int \<Rightarrow> bool" where
  "string_option opt = (10000 \<le> opt \<and> opt < 20000 \<and> opt \<in> int ` set (map snd curl_globals))"

definition arg_fits :: "int \<Rightarrow> setopt_arg \<Rightarrow> bool" where
  "arg_fits opt v = (case v of
     LongArg _ \<Rightarrow> opt < 10000
   | StringArg _ \<Rightarrow> string_option opt
   | LuaStateArg \<Rightarrow> opt \<in> {CURLOPT_WRITEDATA, CURLOPT_READDATA, CURLOPT_WRITEHEADER}
   | HandlerArg _ \<Rightarrow> opt \<in> {CURLOPT_WRITEFUNCTION, CURLOPT_READFUNCTION, CURLOPT_HEADERFUNCTION}
   | NullArg \<Rightarrow> opt \<in> {CURLOPT_WRITEFUNCTION, CURLOPT_READFUNCTION, CURLOPT_HEADERFUNCTION})"

definition valid_handle :: "('c \<Rightarrow> ptr set) \<Rightarrow> ptr \<Rightarrow> 'c \<Rightarrow> bool" where
  "valid_handle live h s \<longleftrightarrow> h = 0 \<or> h \<in> live s"

definition curl_contract :: "'c libcurl \<Rightarrow> ('c \<Rightarrow> ptr set) \<Rightarrow> bool" where
  "curl_contract lc live \<longleftrightarrow>
     (\<forall>s. \<exists>h s'. curl_easy_init lc s = Some (h, s') \<and>
        (h = 0 \<and> live s' = live s \<or> h \<noteq> 0 \<and> h \<notin> live s \<and> live s' = insert h (live s))) \<and>
     (\<forall>h opt v s. valid_handle live h s \<and> arg_fits opt v \<longrightarrow>
        (\<exists>r s'. curl_easy_setopt lc h opt v s = Some (r, s') \<and> live s' = live s)) \<and>
     (\<forall>h u n s. valid_handle live h s \<longrightarrow>
        (\<exists>r s'. curl_easy_escape lc h u n s = Some (r, s') \<and> live s' = live s)) \<and>
     (\<forall>h s. valid_handle live h s \<longrightarrow>
        (\<exists>s'. curl_easy_cleanup lc h s = Some ((), s') \<and> live s' = live s - {h})) \<and>
     (\<forall>h s. valid_handle live h s \<longrightarrow>
        (\<exists>t. curl_easy_perform lc h s = Some t \<and> transfer_ok live t (live s)))"

section \<open>Invariant\<close>

definition handles_distinct :: "(ptr \<Rightarrow> Mtacurl option) \<Rightarrow> bool" where
  "handles_distinct f \<longleftrightarrow>
     (\<forall>p q c d. f p = Some c \<and> f q = Some d \<and> m_pCurl c = m_pCurl d \<longrightarrow> m_pCurl c = 0 \<or> p = q)"

definition curl_inv :: "('c \<Rightarrow> ptr set) \<Rightarrow> ptr set \<Rightarrow> ptr set \<Rightarrow> 'c curl_world \<Rightarrow> bool" where
  "curl_inv live M H w \<longleftrightarrow> (\<exists>l. mtacurls w = Some l \<and> distinct l \<and> dom (curls w) = set l \<and> M \<subseteq> set l \<and>
     (\<forall>p \<in> set l. 0 < p \<and> p < next_curl w)) \<and> 0 < next_curl w \<and> H \<subseteq> m_pCurl ` ran (curls w) - {0} \<and>
     live (cl w) = m_pCurl ` ran (curls w) - {0} \<and> handles_distinct (curls w)"

text \<open>The invariant together with the height of the running frame.\<close>

definition cf :: "('c \<Rightarrow> ptr set) \<Rightarrow> ptr set \<Rightarrow> ptr set \<Rightarrow> nat \<Rightarrow> 'c curl_world \<Rightarrow> bool" where
  "cf live M H k w \<longleftrightarrow> curl_inv live M H w \<and> length (stack w) = k"

abbreviation holds ::
  "('c \<Rightarrow> ptr set) \<Rightarrow> ptr set \<Rightarrow> ptr set \<Rightarrow> nat \<Rightarrow> ('c, 'a) curlm \<Rightarrow> nat \<Rightarrow> bool" where
  "holds live M H k m j \<equiv> triple (cf live M H k) m (\<lambda>_. cf live M H j) (\<lambda>_. curl_inv live M H)"

definition curl_run_ok :: "('c \<Rightarrow> ptr set) \<Rightarrow> 'c curl_run \<Rightarrow> bool" where
  "curl_run_ok live run \<longleftrightarrow> (\<forall>p M H. keeps True (curl_inv live M H) (run p))"

lemma curl_same_module:
  fixes w w' :: "'c curl_world"
  assumes "same_module w w'"
  shows "curls w' = curls w" "next_curl w' = next_curl w" "mtacurls w' = mtacurls w" "cl w' = cl w"
  using assms by (cases w; cases w'; simp add: same_module_def)+

lemma curl_inv_same: "same_module w w' \<Longrightarrow> curl_inv live M H w \<Longrightarrow> curl_inv live M H w'"
  unfolding curl_inv_def by (simp add: curl_same_module)

lemma curl_inv_frame [simp]:
  "curl_inv live M H (w\<lparr>stack := st\<rparr>) = curl_inv live M H w"
  "curl_inv live M H (w\<lparr>curr_func := f\<rparr>) = curl_inv live M H w"
  "curl_inv live M H (w\<lparr>tables := ts\<rparr>) = curl_inv live M H w"
  "curl_inv live M H (w\<lparr>udatas := us\<rparr>) = curl_inv live M H w"
  "curl_inv live M H (w\<lparr>next_udata := n\<rparr>) = curl_inv live M H w"
  "curl_inv live M H (w\<lparr>next_obj := n\<rparr>) = curl_inv live M H w"
  "curl_inv live M H (w\<lparr>debug_output := d\<rparr>) = curl_inv live M H w"
  by (simp_all add: curl_inv_def)

section \<open>Lua operations in a frame\<close>

lemma cf_push: "holds live M H k (push v) (Suc k)"
  by (simp add: triple_def cf_def push_def)

lemma cf_pushes:
  "holds live M H k lua_pushnil (Suc k)" "holds live M H k (lua_pushboolean b) (Suc k)"
  "holds live M H k (lua_pushlightuserdata p) (Suc k)" "holds live M H k (lua_pushlstring d) (Suc k)"
  "holds live M H k (lua_pushinteger n) (Suc k)" "holds live M H k (lua_pushstring x) (Suc k)"
  by (cases x; simp add: triple_def cf_def api_simps)+

lemma cf_reads:
  "0 < i \<Longrightarrow> holds live M H k (lua_type i) k" "0 < i \<Longrightarrow> holds live M H k (lua_touserdata i) k"
  "0 < i \<Longrightarrow> holds live M H k (lua_toboolean i) k" "0 < i \<Longrightarrow> holds live M H k (lua_tonumber i) k"
  by (simp_all add: triple_def api_simps)

lemma cf_ret: "holds live M H k (ret a) k" "holds live M H k (gets f) k" "holds live M H k (throw e) j"
  by (simp_all add: triple_def cf_def)

lemma cf_bnd: "holds live M H k m j \<Longrightarrow> (\<And>a. holds live M H j (f a) i) \<Longrightarrow> holds live M H k (bnd m f) i"
  by (rule triple_bnd)

lemma cf_andThen: "holds live M H k m j \<Longrightarrow> holds live M H j n i \<Longrightarrow> holds live M H k (andThen m n) i"
  by (rule triple_andThen)

lemma cf_if: "(b \<Longrightarrow> holds live M H k m j) \<Longrightarrow> (\<not> b \<Longrightarrow> holds live M H k n j) \<Longrightarrow> holds live M H k (if b then m else n) j"
  by simp

lemma cf_whenever: "(b \<Longrightarrow> holds live M H k m k) \<Longrightarrow> holds live M H k (whenever b m) k"
  by (simp add: whenever_def cf_ret)

lemma cf_createtable: "holds live M H k lua_createtable (Suc k)"
  by (simp add: triple_def cf_def lua_createtable_def Let_def)

lemma cf_newuserdata: "holds live M H k (lua_newuserdata n) (Suc k)"
  by (simp add: triple_def cf_def lua_newuserdata_def Let_def)

lemma cf_pop: "0 < k \<Longrightarrow> holds live M H k (lua_pop 1) (k - 1)"
  by (auto simp: triple_def cf_def api_simps)

lemma cf_settop: "holds live M H k (lua_settop (int j)) j"
  by (auto simp: triple_def cf_def lua_settop_def)

lemma cf_error: "holds live M H k (luaL_error msg) j"
  by (simp add: triple_def cf_def luaL_error_throws)

lemma adr_top: "stack s \<noteq> [] \<Longrightarrow> adr_of (- 1) s = Ret (Slot (length (stack s) - 1)) s"
  by (simp add: adr_of_def run_simps index2adr_def Suc_le_eq)

lemma cf_type_top: "0 < k \<Longrightarrow> holds live M H k (lua_type (- 1)) k"
  by (auto simp: triple_def cf_def lua_type_def run_simps adr_top)

lemma tolstring_slot:
  assumes "adr_of i s = Ret a s" and "a = NilObject \<or> (\<exists>n. a = Slot n)"
  shows "\<exists>r t. lua_tolstring i s = Ret r t \<and> same_module s t \<and> length (stack t) = length (stack s)"
proof -
  have "deref NilObject s = TNil" by (simp add: deref_def)
  with assms show ?thesis
    by (auto simp: lua_tolstring_def run_simps luaV_tostring_def store_def same_module_def split: TValue.splits)
qed

lemma cf_tolstring: "i = - 1 \<and> 0 < k \<or> 0 < i \<Longrightarrow> holds live M H k (lua_tolstring i) k"
proof -
  assume i: "i = - 1 \<and> 0 < k \<or> 0 < i"
  have "\<exists>r t. lua_tolstring i s = Ret r t \<and> same_module s t \<and> length (stack t) = length (stack s)"
    if "cf live M H k s" for s
  proof (rule tolstring_slot)
    have "0 < i \<Longrightarrow> adr_of i s = Ret (if nat i \<le> length (stack s) then Slot (nat (i - 1)) else NilObject) s"
      by (simp add: adr_of_def run_simps index2adr_pos)
    moreover have "0 < k \<Longrightarrow> stack s \<noteq> []" using that by (auto simp: cf_def)
    ultimately show "adr_of i s = Ret (if i = - 1 then Slot (length (stack s) - 1)
        else if nat i \<le> length (stack s) then Slot (nat (i - 1)) else NilObject) s"
      using i adr_top by auto
  qed auto
  then show ?thesis
    by (fastforce simp: triple_def cf_def dest: curl_inv_same)
qed

section \<open>Calls into Lua\<close>

lemma cf_call_frame:
  assumes "curl_run_ok live run"
  shows "holds live M H k (call_frame run p args) k"
proof -
  have "case call_frame run p args s of
      Ret _ t \<Rightarrow> cf live M H k t | Throw _ t \<Rightarrow> curl_inv live M H t | Undef \<Rightarrow> False" if s: "cf live M H k s" for s
  proof -
    let ?s = "s\<lparr>stack := args, curr_func := Some p\<rparr>"
    have "keeps True (curl_inv live M H) (run p)" "curl_inv live M H ?s"
      using assms s by (simp_all add: curl_run_ok_def cf_def)
    from keepsD [OF this] show ?thesis
      using s by (cases "run p ?s") (simp_all add: call_frame_def cf_def)
  qed
  then show ?thesis by (simp add: triple_def)
qed

lemma cf_raise: "holds live M H k (lua_raise msg) j"
  by (rule cf_ret)

lemma cf_call_value:
  assumes "curl_run_ok live run"
  shows "holds live M H k (call_value run f args) k"
proof -
  have "holds live M H k (case tm of TFunction p \<Rightarrow> call_frame run p (f # args)
      | _ \<Rightarrow> lua_raise (''attempt to call a '' @ luaT_typenames (ttype f) @ '' value'')) k" for tm
    by (cases tm) (simp_all only: TValue.case cf_ret cf_call_frame [OF assms])
  then have "holds live M H k (bnd (gets (\<lambda>s. luaT_gettmbyobj s f ''__call'')) (\<lambda>tm. case tm of
        TFunction p \<Rightarrow> call_frame run p (f # args)
      | _ \<Rightarrow> lua_raise (''attempt to call a '' @ luaT_typenames (ttype f) @ '' value''))) k"
    by (rule cf_bnd [OF cf_ret(2)])
  then show ?thesis unfolding call_value_def
    by (cases f) (simp_all only: TValue.case cf_call_frame [OF assms])
qed

lemma cf_lua_call:
  assumes run: "curl_run_ok live run" and "Suc n \<le> k"
  shows "holds live M H k (lua_call run n (int r)) (k - Suc n + r)"
proof -
  have len: "length (adjust_results (int r) rs) = r" for rs
    by (auto simp: adjust_results_def)
  have "case lua_call run n (int r) s of Ret _ t \<Rightarrow> cf live M H (k - Suc n + r) t
      | Throw _ t \<Rightarrow> curl_inv live M H t | Undef \<Rightarrow> False" if s: "cf live M H k s" for s
  proof -
    let ?k = "length (stack s) - (n + 1)"
    have "case call_value run (stack s ! ?k) (drop (?k + 1) (stack s)) s of
        Ret _ t \<Rightarrow> cf live M H k t | Throw _ t \<Rightarrow> curl_inv live M H t | Undef \<Rightarrow> False"
      using cf_call_value [OF run] s by (simp add: triple_def)
    then show ?thesis using s assms(2) len
      by (auto simp: lua_call_def run_simps Let_def cf_def split: outcome.splits)
  qed
  then show ?thesis by (simp add: triple_def)
qed

lemma cf_gettable:
  assumes run: "curl_run_ok live run"
  shows "holds live M H k (gettable_loop run n t key) k"
proof (induction n arbitrary: t)
  case (Suc n)
  have ix: "holds live M H k (case tm of TFunction p \<Rightarrow> bnd (call_frame run p [t, key]) (\<lambda>rs. ret (hd (adjust_results 1 rs)))
      | _ \<Rightarrow> gettable_loop run n tm key) k" for tm
    using Suc by (cases tm) (auto intro!: cf_bnd cf_ret cf_call_frame [OF run])
  have nil: "holds live M H k (case t of TTable _ \<Rightarrow> ret TNil
      | _ \<Rightarrow> lua_raise (''attempt to index a '' @ luaT_typenames (ttype t) @ '' value'')) k"
    by (cases t) (simp_all only: TValue.case cf_ret)
  show ?case by (subst gettable_loop.simps) (intro cf_bnd [OF cf_ret(2)] cf_if ix nil cf_ret)
qed (simp add: cf_ret)

lemma cf_getfield:
  assumes "curl_run_ok live run" and "i = - 1 \<and> 0 < k \<or> 0 < i"
  shows "holds live M H k (lua_getfield run i f) (Suc k)"
proof -
  have "holds live M H k (value_at i) k"
    using assms(2) by (auto simp: triple_def cf_def api_simps)
  then show ?thesis
    unfolding lua_getfield_def luaV_gettable_def
    by (rule cf_bnd) (rule cf_bnd [OF cf_gettable [OF assms(1)] cf_push])
qed

lemma throws_inv:
  assumes "\<And>s. curl_inv live M H s \<Longrightarrow> \<exists>e t. m s = Throw e t \<and> same_module s t"
  shows "holds live M H k m j"
proof -
  have "case m s of Ret a t \<Rightarrow> cf live M H j t | Throw e t \<Rightarrow> curl_inv live M H t | Undef \<Rightarrow> False"
    if "cf live M H k s" for s
  proof -
    have "curl_inv live M H s" using that by (simp add: cf_def)
    with assms obtain e t where "m s = Throw e t" "same_module s t" by blast
    with \<open>curl_inv live M H s\<close> show ?thesis by (simp add: curl_inv_same)
  qed
  then show ?thesis by (simp add: triple_def)
qed

lemma cf_typerror: "0 < i \<Longrightarrow> holds live M H k (luaL_typerror i m) j"
  by (rule throws_inv) (use luaL_typerror_throws in \<open>fastforce simp: same_module_def\<close>)

lemma cf_checklstring: "0 < i \<Longrightarrow> holds live M H k (luaL_checklstring i) k"
  unfolding luaL_checklstring_def tag_error_def
  by (rule cf_bnd [OF cf_tolstring]) (auto intro: cf_typerror cf_ret split: option.split)

lemma cf_checktype: "0 < i \<Longrightarrow> holds live M H k (luaL_checktype i t) k"
  unfolding luaL_checktype_def tag_error_def by (intro cf_bnd [OF cf_reads(1)] cf_if cf_typerror cf_ret)

section \<open>Transfer objects\<close>

lemma curl_inv_cl [simp]: "live s = live (cl w) \<Longrightarrow> curl_inv live M H (w\<lparr>cl := s\<rparr>) = curl_inv live M H w"
  by (simp add: curl_inv_def)

lemma curl_inv_mono: "curl_inv live M H w \<Longrightarrow> H' \<subseteq> H \<Longrightarrow> M' \<subseteq> M \<Longrightarrow> curl_inv live M' H' w"
  unfolding curl_inv_def by auto

lemma curl_inv_object: "curl_inv live M H w \<Longrightarrow> p \<in> M \<Longrightarrow> \<exists>c. curls w p = Some c"
  by (auto simp: curl_inv_def dom_def)

lemma object_handle_valid:
  "curl_inv live M H w \<Longrightarrow> curls w p = Some c \<Longrightarrow> valid_handle live (m_pCurl c) (cl w)"
  by (auto simp: curl_inv_def valid_handle_def ran_def)

lemma contractD:
  assumes "curl_contract lc live"
  shows "\<And>s. \<exists>h s'. curl_easy_init lc s = Some (h, s') \<and>
        (h = 0 \<and> live s' = live s \<or> h \<noteq> 0 \<and> h \<notin> live s \<and> live s' = insert h (live s))"
    and "\<And>h opt v s. valid_handle live h s \<Longrightarrow> arg_fits opt v \<Longrightarrow>
        \<exists>r s'. curl_easy_setopt lc h opt v s = Some (r, s') \<and> live s' = live s"
    and "\<And>h u n s. valid_handle live h s \<Longrightarrow>
        \<exists>r s'. curl_easy_escape lc h u n s = Some (r, s') \<and> live s' = live s"
    and "\<And>h s. valid_handle live h s \<Longrightarrow>
        \<exists>s'. curl_easy_cleanup lc h s = Some ((), s') \<and> live s' = live s - {h}"
    and "\<And>h s. valid_handle live h s \<Longrightarrow>
        \<exists>t. curl_easy_perform lc h s = Some t \<and> transfer_ok live t (live s)"
  using assms unfolding curl_contract_def by auto

lemma holdsI:
  assumes "\<And>w. cf live M H k w \<Longrightarrow> \<exists>a t. m w = Ret a t \<and> cf live M H j t"
  shows "holds live M H k m j"
  using assms by (fastforce simp: triple_def)

lemma easy_setopt_total:
  assumes lc: "curl_contract lc live" and "p \<in> M" and fits: "arg_fits opt v" and w: "cf live M H k w"
  shows "\<exists>a t. easy_setopt lc p opt v w = Ret a t \<and> cf live M H k t"
proof -
  from w have inv: "curl_inv live M H w" by (simp add: cf_def)
  obtain c where c: "curls w p = Some c" using curl_inv_object [OF inv assms(2)] by blast
  obtain r s' where "curl_easy_setopt lc (m_pCurl c) opt v (cl w) = Some (r, s')" "live s' = live (cl w)"
    using contractD(2) [OF lc object_handle_valid [OF inv c] fits] by blast
  with w c show ?thesis
    by (simp add: easy_setopt_def get_curl_def clib_def run_simps cf_def)
qed

lemma cf_easy_setopt:
  "curl_contract lc live \<Longrightarrow> p \<in> M \<Longrightarrow> arg_fits opt v \<Longrightarrow> holds live M H k (easy_setopt lc p opt v) k"
  by (rule holdsI) (rule easy_setopt_total)

lemma cf_escape:
  assumes lc: "curl_contract lc live" and "p \<in> M"
  shows "holds live M H k (escape lc p url) k"
proof (rule holdsI)
  fix w
  assume w: "cf live M H k w"
  then have inv: "curl_inv live M H w" by (simp add: cf_def)
  obtain c where c: "curls w p = Some c" using curl_inv_object [OF inv assms(2)] by blast
  obtain r s' where "curl_easy_escape lc (m_pCurl c) url (uint_to_int (int (length url))) (cl w) = Some (r, s')"
      "live s' = live (cl w)"
    using contractD(3) [OF lc object_handle_valid [OF inv c]] by blast
  with w c show "\<exists>a t. escape lc p url w = Ret a t \<and> cf live M H k t"
    by (simp add: escape_def get_curl_def clib_def run_simps cf_def)
qed

lemma handles_iff: "h \<in> m_pCurl ` ran f \<longleftrightarrow> (\<exists>q c. f q = Some c \<and> m_pCurl c = h)"
  by (auto simp: ran_def)

lemma handles_update:
  assumes "f p = Some c" and "m_pCurl d = m_pCurl c"
  shows "m_pCurl ` ran (f(p \<mapsto> d)) = m_pCurl ` ran f"
proof (rule set_eqI)
  fix h
  have "(\<exists>a. (f(p \<mapsto> d)) q = Some a \<and> m_pCurl a = h) \<longleftrightarrow> (\<exists>a. f q = Some a \<and> m_pCurl a = h)" for q
    using assms by simp
  then show "h \<in> m_pCurl ` ran (f(p \<mapsto> d)) \<longleftrightarrow> h \<in> m_pCurl ` ran f"
    unfolding handles_iff by simp
qed

lemma handles_distinct_update:
  assumes "handles_distinct f" and "f p = Some c" and "m_pCurl d = m_pCurl c"
  shows "handles_distinct (f(p \<mapsto> d))"
  unfolding handles_distinct_def
proof (intro allI impI, elim conjE)
  fix q r a b
  assume h: "(f(p \<mapsto> d)) q = Some a" "(f(p \<mapsto> d)) r = Some b" "m_pCurl a = m_pCurl b"
  have old: "\<exists>a'. f q = Some a' \<and> m_pCurl a' = m_pCurl a" if "(f(p \<mapsto> d)) q = Some a" for q a
    using that assms(2,3) by (cases "q = p") simp_all
  obtain a' b' where "f q = Some a'" "f r = Some b'" "m_pCurl a' = m_pCurl a" "m_pCurl b' = m_pCurl b"
    using old [OF h(1)] old [OF h(2)] by blast
  then show "m_pCurl a = 0 \<or> q = r" using h(3) assms(1) unfolding handles_distinct_def by metis
qed

lemma curl_inv_update:
  assumes "curl_inv live M H w" and "curls w p = Some c" and "m_pCurl d = m_pCurl c"
  shows "curl_inv live M H (w\<lparr>curls := (curls w)(p \<mapsto> d)\<rparr>)"
proof -
  have "dom ((curls w)(p \<mapsto> d)) = dom (curls w)" using assms(2) by auto
  moreover have "m_pCurl ` ran ((curls w)(p \<mapsto> d)) = m_pCurl ` ran (curls w)"
    using handles_update [of "curls w" p c d] assms(2,3) .
  moreover have "handles_distinct ((curls w)(p \<mapsto> d))"
    using assms by (intro handles_distinct_update) (auto simp: curl_inv_def)
  ultimately show ?thesis using assms(1) unfolding curl_inv_def by simp
qed

lemma cf_MakeAwaitDestruction: "p \<in> M \<Longrightarrow> holds live M H k (MakeAwaitDestruction p) k"
proof (rule holdsI)
  fix w
  assume "p \<in> M" and w: "cf live M H k w"
  then obtain c where c: "curls w p = Some c" using curl_inv_object by (fastforce simp: cf_def)
  from w curl_inv_update [of live M H w p c "c\<lparr>m_bAwaitingDestruction := True\<rparr>"] c
  show "\<exists>a t. MakeAwaitDestruction p w = Ret a t \<and> cf live M H k t"
    by (simp add: MakeAwaitDestruction_def set_curl_def get_curl_def run_simps cf_def)
qed

lemma cf_must_succeed: "holds live M H k (must_succeed lc code) k"
  unfolding must_succeed_def by (intro cf_whenever cf_error)

lemma fits_callbacks:
  "arg_fits CURLOPT_WRITEDATA LuaStateArg" "arg_fits CURLOPT_READDATA LuaStateArg"
  "arg_fits CURLOPT_WRITEHEADER LuaStateArg" "arg_fits CURLOPT_WRITEFUNCTION (HandlerArg h)"
  "arg_fits CURLOPT_READFUNCTION (HandlerArg h)" "arg_fits CURLOPT_HEADERFUNCTION (HandlerArg h)"
  "arg_fits CURLOPT_WRITEFUNCTION NullArg" "arg_fits CURLOPT_READFUNCTION NullArg"
  "arg_fits CURLOPT_HEADERFUNCTION NullArg"
  by (simp_all add: arg_fits_def)

lemma cf_callback_options:
  assumes "curl_contract lc live" and "p \<in> M"
  shows "holds live M H k (setup_writefunction lc p) k" "holds live M H k (setup_readfunction lc p) k"
    "holds live M H k (setup_headerfunction lc p) k" "holds live M H k (clear_writefunction lc p) k"
    "holds live M H k (clear_readfunction lc p) k" "holds live M H k (clear_headerfunction lc p) k"
  unfolding setup_writefunction_def setup_readfunction_def setup_headerfunction_def
    clear_writefunction_def clear_readfunction_def clear_headerfunction_def
  by (intro cf_bnd [OF cf_easy_setopt [OF assms]] cf_andThen [OF cf_must_succeed] cf_must_succeed fits_callbacks)+

section \<open>Transfers\<close>

lemma cf_data_handler:
  assumes "curl_run_ok live run" and "0 < k"
  shows "holds live M H k (data_handler run f d) k"
proof -
  have call: "holds live M H (Suc (Suc k)) (lua_call run 1 0) k"
    using cf_lua_call [OF assms(1), of 1 "Suc (Suc k)" M H 0] by simp
  show ?thesis
    unfolding data_handler_def using assms
    by (intro cf_andThen [OF cf_getfield [OF assms(1)]] cf_andThen [OF cf_pushes(4)] cf_andThen [OF call] cf_ret) auto
qed

lemma cf_bnd_gettop: "holds live M H k (f (int k)) j \<Longrightarrow> holds live M H k (bnd lua_gettop f) j"
  by (auto simp: triple_def lua_gettop_def run_simps cf_def)

lemma cf_read_handler:
  assumes "curl_run_ok live run" and "0 < k"
  shows "holds live M H k (read_handler run room) k"
proof -
  have call: "holds live M H (Suc (Suc k)) (lua_call run 1 1) (Suc k)"
    using cf_lua_call [OF assms(1), of 1 "Suc (Suc k)" M H 1] by simp
  show ?thesis
    unfolding read_handler_def Let_def using assms(2)
    by (intro cf_bnd_gettop cf_andThen [OF cf_getfield [OF assms(1)]] cf_andThen [OF cf_pushes(5)]
        cf_andThen [OF call] cf_bnd [OF cf_tolstring] cf_andThen [OF cf_whenever [OF cf_error]]
        cf_andThen [OF cf_settop] cf_ret) auto
qed

lemma cf_call_handler:
  assumes "curl_run_ok live run" and "0 < k"
  shows "holds live M H k (call_handler run ev) k"
  unfolding call_handler_def
  by (cases ev) (simp_all, (intro cf_bnd [OF cf_data_handler [OF assms]] cf_read_handler [OF assms] cf_ret)+)

lemma run_transfer_holds:
  assumes run: "curl_run_ok live run" and k: "0 < k" and t: "transfer_ok live t L"
  shows "triple (\<lambda>w. cf live M H k w \<and> live (cl w) = L) (run_transfer run t)
    (\<lambda>_. cf live M H k) (\<lambda>_. curl_inv live M H)"
  using t
proof (induction t arbitrary: L H)
  case (Finished code c)
  then show ?case by (auto simp: triple_def run_simps cf_def)
next
  case (Callback c ev more)
  have L: "live c = L" and step: "\<And>b n c'. L \<subseteq> live c' \<Longrightarrow> transfer_ok live (more (b, n, c')) (live c')"
    using Callback.prems by auto
  show ?case unfolding triple_def
  proof (intro allI impI)
    fix w
    assume w: "cf live M H k w \<and> live (cl w) = L"
    let ?w = "w\<lparr>cl := c\<rparr>"
    have HL: "H \<subseteq> L" using w by (auto simp: cf_def curl_inv_def)
    have "cf live M L k ?w" using w L by (auto simp: cf_def curl_inv_def)
    with cf_call_handler [OF run k, of M L ev]
    have "case call_handler run ev ?w of Ret a t \<Rightarrow> cf live M L k t | Throw e t \<Rightarrow> curl_inv live M L t | Undef \<Rightarrow> False"
      by (simp add: triple_def)
    moreover have "case run_transfer run (more (fst r, snd r, cl u)) u of
        Ret a t \<Rightarrow> cf live M H k t | Throw e t \<Rightarrow> curl_inv live M H t | Undef \<Rightarrow> False"
      if u: "cf live M L k u" for r u
    proof -
      have sub: "L \<subseteq> live (cl u)" using u by (auto simp: cf_def curl_inv_def)
      have uH: "cf live M H k u" using u HL curl_inv_mono [of live M L u H M] by (simp add: cf_def)
      have "triple (\<lambda>w. cf live M H k w \<and> live (cl w) = live (cl u)) (run_transfer run (more (fst r, snd r, cl u)))
          (\<lambda>_. cf live M H k) (\<lambda>_. curl_inv live M H)"
        by (rule Callback.IH [OF rangeI]) (use step [OF sub] in simp)
      with uH show ?thesis by (simp add: triple_def)
    qed
    moreover have "curl_inv live M L t \<Longrightarrow> curl_inv live M H t" for t
      using HL curl_inv_mono by blast
    ultimately show "case run_transfer run (Callback c ev more) w of
        Ret a t \<Rightarrow> cf live M H k t | Throw e t \<Rightarrow> curl_inv live M H t | Undef \<Rightarrow> False"
      by (cases "call_handler run ev ?w") (simp_all add: run_simps)
  qed
qed

lemma cf_perform:
  assumes lc: "curl_contract lc live" and run: "curl_run_ok live run" and "p \<in> M" and "0 < k"
  shows "holds live M H k (perform lc run p) k"
  unfolding triple_def
proof (intro allI impI)
  fix w
  assume w: "cf live M H k w"
  then have inv: "curl_inv live M H w" by (simp add: cf_def)
  obtain c where c: "curls w p = Some c" using curl_inv_object [OF inv assms(3)] by blast
  obtain t where t: "curl_easy_perform lc (m_pCurl c) (cl w) = Some t" "transfer_ok live t (live (cl w))"
    using contractD(5) [OF lc object_handle_valid [OF inv c]] by blast
  show "case perform lc run p w of Ret a t \<Rightarrow> cf live M H k t | Throw e t \<Rightarrow> curl_inv live M H t | Undef \<Rightarrow> False"
    using run_transfer_holds [OF run assms(4) t(2), of M H] w c t(1)
    by (simp add: perform_def get_curl_def run_simps triple_def)
qed

section \<open>The manager\<close>

lemma find_curl_total:
  "set ps \<subseteq> dom (curls w) \<Longrightarrow> \<exists>r. find_curl u ps w = Ret r w \<and> (\<forall>p. r = Some p \<longrightarrow> p \<in> set ps)"
proof (induction ps)
  case (Cons p ps)
  then obtain c where "curls w p = Some c" by auto
  with Cons show ?case by (auto simp: get_curl_def run_simps)
qed simp

lemma with_curl_cases:
  assumes w: "cf live M H k w"
  shows "with_curl f otherwise w = otherwise w \<or>
    (\<exists>p. with_curl f otherwise w = f p w \<and> cf live (insert p M) H k w)"
proof -
  obtain l where l: "mtacurls w = Some l" "dom (curls w) = set l" using w by (auto simp: cf_def curl_inv_def)
  let ?u = "case arg w 1 of TUserData p \<Rightarrow> p | TLightUserData p \<Rightarrow> p | _ \<Rightarrow> 0"
  obtain r where r: "find_curl ?u l w = Ret r w" "\<forall>p. r = Some p \<longrightarrow> p \<in> set l"
    using find_curl_total [of l w ?u] l(2) by auto
  have "with_curl f otherwise w = (case r of Some p \<Rightarrow> f p w | None \<Rightarrow> otherwise w)"
    using l(1) r(1) by (simp add: with_curl_def Get_def manager_def run_simps api_simps split: option.split)
  moreover have "cf live (insert p M) H k w" if "r = Some p" for p
    using w l r(2) that by (auto simp: cf_def curl_inv_def)
  ultimately show ?thesis by (cases r) auto
qed

text \<open>A new object gets the next address; it is listed last, and its handle is new or null.\<close>

lemma curl_inv_new:
  assumes inv: "curl_inv live M H w" and l: "mtacurls w = Some l" and p: "p = next_curl w"
    and h: "m_pCurl c = 0 \<and> live s = live (cl w) \<or>
            m_pCurl c \<noteq> 0 \<and> m_pCurl c \<notin> live (cl w) \<and> live s = insert (m_pCurl c) (live (cl w))"
  shows "curl_inv live (insert p M) H (w\<lparr>cl := s, curls := (curls w)(p \<mapsto> c), next_curl := p + 1,
     mtacurls := Some (l @ [p])\<rparr>)"
proof -
  have dom: "dom (curls w) = set l" and bound: "\<And>q. q \<in> set l \<Longrightarrow> 0 < q \<and> q < p"
    and dist: "handles_distinct (curls w)" and live: "live (cl w) = m_pCurl ` ran (curls w) - {0}"
    using inv l p by (auto simp: curl_inv_def)
  have new: "curls w p = None" "p \<notin> set l" using dom bound by auto
  then have ran: "ran ((curls w)(p \<mapsto> c)) = insert c (ran (curls w))" by (simp add: ran_map_upd)
  have other: "m_pCurl d \<noteq> m_pCurl c \<or> m_pCurl c = 0" if "curls w q = Some d" for q d
  proof -
    have "m_pCurl d \<in> m_pCurl ` ran (curls w)" using that by (auto simp: ran_def)
    then show ?thesis using h live by auto
  qed
  have "handles_distinct ((curls w)(p \<mapsto> c))"
    unfolding handles_distinct_def
  proof (intro allI impI, elim conjE)
    fix q r a b
    assume a: "((curls w)(p \<mapsto> c)) q = Some a" "((curls w)(p \<mapsto> c)) r = Some b" "m_pCurl a = m_pCurl b"
    show "m_pCurl a = 0 \<or> q = r"
      using a other [of q a] other [of r b] dist
      by (cases "q = p"; cases "r = p") (auto simp: handles_distinct_def)
  qed
  with inv l p dom bound new h live ran show ?thesis
    by (auto simp: curl_inv_def less_Suc_eq)
qed

lemma url_fits: "arg_fits CURLOPT_URL (StringArg x)"
proof -
  have "(10002 :: nat) \<in> set (map snd curl_globals)" unfolding curl_globals_def by simp
  then show ?thesis unfolding arg_fits_def string_option_def by (auto simp: image_iff)
qed

lemma Create_holds:
  assumes lc: "curl_contract lc live"
  shows "triple (cf live M H k) (Create lc url)
    (\<lambda>p w. cf live (insert p M) H (Suc k) w \<and> p \<noteq> 0) (\<lambda>_. curl_inv live M H)"
  unfolding triple_def
proof (intro allI impI)
  fix w
  assume w: "cf live M H k w"
  then obtain l where l: "mtacurls w = Some l" and pos: "0 < next_curl w" by (auto simp: cf_def curl_inv_def)
  obtain h s where h: "curl_easy_init lc (cl w) = Some (h, s)"
    "h = 0 \<and> live s = live (cl w) \<or> h \<noteq> 0 \<and> h \<notin> live (cl w) \<and> live s = insert h (live (cl w))"
    using contractD(1) [OF lc] by blast
  let ?u = "uaddr w (next_udata w)"
  let ?v = "w\<lparr>stack := stack w @ [TUserData ?u], udatas := (udatas w)(?u \<mapsto>
      \<lparr>ulen = 128, umetatable = 0, uenv = getcurrenv w, ublock = None\<rparr>), next_udata := next_udata w + 1\<rparr>"
  let ?c = "\<lparr>m_pUserData = ?u, m_pConnected = True, m_pCurl = h, m_bAwaitingDestruction = False,
       m_pBuflen = None, m_pBufsize = None\<rparr>"
  let ?t = "\<lambda>s'. ?v\<lparr>cl := s', curls := (curls w)(next_curl w \<mapsto> ?c), next_curl := next_curl w + 1,
      mtacurls := Some (l @ [next_curl w])\<rparr>"
  have "\<exists>s'. Create lc url w = Ret (next_curl w) (?t s') \<and> live s' = live s"
  proof (cases url)
    case None
    then show ?thesis using l h(1)
      by (intro exI [of _ s]) (simp add: Create_def Mtacurl_new_def manager_def lua_newuserdata_def clib_def alloc_curl_def run_simps Let_def)
  next
    case (Some x)
    have valid: "valid_handle live h s" using h(2) by (auto simp: valid_handle_def)
    obtain host s1 where s1: "curl_easy_escape lc h x (uint_to_int (int (length x))) s = Some (host, s1)" "live s1 = live s"
      using contractD(3) [OF lc valid] by blast
    then have "valid_handle live h s1" using valid by (simp add: valid_handle_def)
    then obtain r s2 where "curl_easy_setopt lc h CURLOPT_URL (StringArg host) s1 = Some (r, s2)" "live s2 = live s1"
      using contractD(2) [OF lc _ url_fits] by blast
    then show ?thesis using l h(1) s1 Some
      by (intro exI [of _ s2]) (simp add: Create_def Mtacurl_new_url_def manager_def lua_newuserdata_def clib_def alloc_curl_def run_simps Let_def)
  qed
  then obtain s' where s': "Create lc url w = Ret (next_curl w) (?t s')" "live s' = live s" by blast
  have "curl_inv live (insert (next_curl w) M) H (?t s')"
    using curl_inv_new [of live M H ?v l "next_curl w" ?c s'] w l h(2) s'(2) by (simp add: cf_def)
  with s' pos w show "case Create lc url w of Ret p t \<Rightarrow> cf live (insert p M) H (Suc k) t \<and> p \<noteq> 0
      | Throw e t \<Rightarrow> curl_inv live M H t | Undef \<Rightarrow> False"
    by (simp add: cf_def)
qed

section \<open>The Lua functions\<close>

text \<open>\<open>safe live M H k m\<close>: from a frame of height \<open>k\<close> the program is defined and keeps the invariant.\<close>

abbreviation safe :: "('c \<Rightarrow> ptr set) \<Rightarrow> ptr set \<Rightarrow> ptr set \<Rightarrow> nat \<Rightarrow> ('c, 'a) curlm \<Rightarrow> bool" where
  "safe live M H k m \<equiv> triple (cf live M H k) m (\<lambda>_. curl_inv live M H) (\<lambda>_. curl_inv live M H)"

lemma safe_holds: "holds live M H k m j \<Longrightarrow> safe live M H k m"
  by (erule triple_weaken) (simp_all add: cf_def)

lemma safe_bnd: "holds live M H k m j \<Longrightarrow> (\<And>a. safe live M H j (f a)) \<Longrightarrow> safe live M H k (bnd m f)"
  by (rule triple_bnd)

lemma safe_andThen: "holds live M H k m j \<Longrightarrow> safe live M H j n \<Longrightarrow> safe live M H k (andThen m n)"
  by (rule triple_andThen)

lemma safe_ret: "safe live M H k (ret a)"
  by (rule safe_holds) (rule cf_ret)

lemma safe_if: "(b \<Longrightarrow> safe live M H k m) \<Longrightarrow> (\<not> b \<Longrightarrow> safe live M H k n) \<Longrightarrow> safe live M H k (if b then m else n)"
  by simp

lemma safe_type1:
  "(\<And>t. (t = LUA_TLIGHTUSERDATA \<Longrightarrow> 0 < k) \<Longrightarrow> safe live M H k (f t)) \<Longrightarrow> safe live M H k (bnd (lua_type 1) f)"
proof -
  assume f: "\<And>t. (t = LUA_TLIGHTUSERDATA \<Longrightarrow> 0 < k) \<Longrightarrow> safe live M H k (f t)"
  have "argtype w 1 = LUA_TLIGHTUSERDATA \<Longrightarrow> 0 < k" if "cf live M H k w" for w
    using that by (auto simp: argtype_def cf_def split: if_splits)
  then show ?thesis using f by (simp add: triple_def run_simps api_simps)
qed

lemma safe_with_curl:
  assumes f: "\<And>p. safe live (insert p M) H k (f p)" and other: "safe live M H k otherwise"
  shows "safe live M H k (with_curl f otherwise)"
  unfolding triple_def
proof (intro allI impI)
  fix w
  assume w: "cf live M H k w"
  have weak: "curl_inv live (insert p M) H t \<Longrightarrow> curl_inv live M H t" for p t
    using curl_inv_mono [of live "insert p M" H t H M] by auto
  show "case with_curl f otherwise w of Ret a t \<Rightarrow> curl_inv live M H t | Throw e t \<Rightarrow> curl_inv live M H t | Undef \<Rightarrow> False"
    using with_curl_cases [OF w, of f otherwise]
  proof (elim disjE exE conjE)
    assume "with_curl f otherwise w = otherwise w"
    then show ?thesis using other w by (simp add: triple_def)
  next
    fix p
    assume "with_curl f otherwise w = f p w" "cf live (insert p M) H k w"
    with f [of p] weak show ?thesis by (cases "f p w") (auto simp: triple_def)
  qed
qed

lemma safe_push: "safe live M H k (andThen (lua_pushboolean b) (ret n))" "safe live M H k (andThen lua_pushnil (ret n))"
  "safe live M H k (andThen (lua_pushlightuserdata p) (ret n))" "safe live M H k (andThen (lua_pushstring x) (ret n))"
  by (intro safe_andThen [OF cf_pushes(1)] safe_andThen [OF cf_pushes(2)] safe_andThen [OF cf_pushes(3)]
      safe_andThen [OF cf_pushes(6)] safe_ret)+

lemma safe_close: "safe live M H k curl_close"
  unfolding curl_close_def
  by (intro safe_type1 safe_if safe_with_curl safe_andThen [OF cf_MakeAwaitDestruction] safe_push insertI1)

lemma safe_escape: "curl_contract lc live \<Longrightarrow> safe live M H k (curl_escape lc)"
  unfolding curl_escape_def Let_def
  by (intro safe_type1 safe_bnd [OF cf_reads(1)] safe_bnd [OF cf_checklstring] safe_bnd [OF cf_escape] safe_if
      safe_with_curl safe_push insertI1) simp_all

lemma safe_strerror: "safe live M H k (curl_strerror lc)"
  unfolding curl_strerror_def Let_def
  by (intro safe_type1 safe_bnd [OF cf_reads(1)] safe_bnd [OF cf_reads(2)] safe_if safe_with_curl safe_push) simp_all

lemma cf_setup_callback:
  assumes "curl_run_ok live run" and "holds live M H (Suc k) setup (Suc k)"
  shows "holds live M H k (setup_callback run f setup) k"
proof -
  have pop: "holds live M H (Suc k) (lua_pop 1) k" using cf_pop [of "Suc k" live M H] by simp
  show ?thesis unfolding setup_callback_def
    by (intro cf_andThen [OF cf_getfield [OF assms(1)]] cf_bnd [OF cf_type_top]
        cf_andThen [OF cf_whenever [OF assms(2)]] cf_andThen [OF pop] cf_ret) simp_all
qed

lemma safe_perform:
  assumes lc: "curl_contract lc live" and run: "curl_run_ok live run"
  shows "safe live M H k (curl_perform lc run)"
proof -
  let ?rest = "\<lambda>p. bnd (setup_callback run ''writefunction'' (setup_writefunction lc p)) (\<lambda>writefunction.
     bnd (setup_callback run ''readfunction'' (setup_readfunction lc p)) (\<lambda>readfunction.
     bnd (setup_callback run ''headerfunction'' (setup_headerfunction lc p)) (\<lambda>headerfunction.
     bnd (perform lc run p) (\<lambda>code.
     andThen (whenever writefunction (clear_writefunction lc p))
    (andThen (whenever readfunction (clear_readfunction lc p))
    (andThen (whenever headerfunction (clear_headerfunction lc p))
    (andThen (lua_pushlightuserdata (nat (to_ulonglong code))) (ret (1 :: int)))))))))"
  have rest: "safe live (insert p M) H k (?rest p)" if "0 < k" for p k
    by (intro safe_bnd [OF cf_setup_callback [OF run cf_callback_options(1) [OF lc]]]
        safe_bnd [OF cf_setup_callback [OF run cf_callback_options(2) [OF lc]]]
        safe_bnd [OF cf_setup_callback [OF run cf_callback_options(3) [OF lc]]]
        safe_bnd [OF cf_perform [OF lc run]]
        safe_andThen [OF cf_whenever [OF cf_callback_options(4) [OF lc]]]
        safe_andThen [OF cf_whenever [OF cf_callback_options(5) [OF lc]]]
        safe_andThen [OF cf_whenever [OF cf_callback_options(6) [OF lc]]] safe_push insertI1 that)
  have "safe live (insert p M) H k (andThen (if b then lua_createtable else luaL_checktype 2 LUA_TTABLE) (?rest p))"
    if "0 < k" for p b
    using that by (cases b) (simp_all, intro safe_andThen [OF cf_createtable] rest, simp,
        intro safe_andThen [OF cf_checktype] rest, simp_all)
  then show ?thesis unfolding curl_perform_def
    by (intro safe_type1 safe_if safe_with_curl safe_bnd [OF cf_reads(1)] safe_push) simp_all
qed

lemma safe_init:
  assumes lc: "curl_contract lc live"
  shows "safe live M H k (curl_init lc)"
proof -
  let ?rest = "\<lambda>p. if p \<noteq> 0 then bnd (get_curl p) (\<lambda>c. andThen (lua_pushlightuserdata (m_pUserData c)) (ret 1))
    else andThen (lua_pushboolean False) (ret (1 :: int))"
  let ?new = "\<lambda>p w. cf live (insert p M) H (Suc k) w \<and> p \<noteq> 0"
  have rest: "triple (?new p) (?rest p) (\<lambda>_. curl_inv live M H) (\<lambda>_. curl_inv live M H)" for p
    unfolding triple_def
  proof (intro allI impI)
    fix w
    assume w: "?new p w"
    then obtain c where "curls w p = Some c" using curl_inv_object by (fastforce simp: cf_def)
    moreover have "curl_inv live M H w" using w curl_inv_mono [of live "insert p M" H w H M] by (auto simp: cf_def)
    ultimately show "case ?rest p w of Ret a t \<Rightarrow> curl_inv live M H t | Throw e t \<Rightarrow> curl_inv live M H t | Undef \<Rightarrow> False"
      using w by (simp add: get_curl_def run_simps api_simps)
  qed
  have create: "triple (cf live M H k) (if t then bnd (luaL_checklstring 1) (\<lambda>url. Create lc (Some url)) else Create lc None)
      ?new (\<lambda>_. curl_inv live M H)" for t
    by (rule triple_if, rule triple_bnd [OF cf_checklstring], simp, rule Create_holds [OF lc], rule Create_holds [OF lc])
  show ?thesis unfolding curl_init_def
    by (intro safe_bnd [OF cf_reads(1)] triple_bnd [OF create] rest) simp
qed

text \<open>\<open>curl_setopt\<close> is defined when the value has the kind the option asks for.\<close>

definition setopt_fits :: "TValue list \<Rightarrow> bool" where
  "setopt_fits args = (case args of
     _ # TLightUserData q # vs \<Rightarrow> (case vs of
       TBoolean b # _ \<Rightarrow> enum_of_ptr q < 10000
     | TNumber d # _ \<Rightarrow> enum_of_ptr q < 10000 \<and> to_c_int d \<noteq> None
     | TString str # _ \<Rightarrow> string_option (enum_of_ptr q)
     | _ \<Rightarrow> False)
   | _ \<Rightarrow> True)"

lemma setopt_code_holds:
  assumes lc: "curl_contract lc live" and "p \<in> M" and w: "cf live M H k w"
    and args: "stack w = u # TLightUserData q # v # vs" and fits: "setopt_fits (stack w)"
  shows "\<exists>a t. setopt_code lc p (enum_of_ptr q) w = Ret a t \<and> cf live M H k t"
proof -
  have at: "argtype w 3 = ttype v" "arg w 3 = v" using args by (simp_all add: argtype_def arg_def)
  have set: "\<exists>a t. easy_setopt lc p opt x w = Ret a t \<and> cf live M H k t" if "arg_fits opt x" for opt x
    by (rule easy_setopt_total [OF lc assms(2) that w])
  show ?thesis
  proof (cases v)
    case (TBoolean b)
    then have "arg_fits (enum_of_ptr q) (LongArg (if b then 1 else 0))" using fits args by (simp add: setopt_fits_def arg_fits_def)
    from set [OF this] TBoolean at show ?thesis
      by (simp add: setopt_code_def run_simps api_simps setopt_boolean_def l_isfalse_def)
  next
    case (TNumber d)
    then obtain n where n: "to_c_int d = Some n" and "arg_fits (enum_of_ptr q) (LongArg n)"
      using fits args by (auto simp: setopt_fits_def arg_fits_def)
    from set [OF this(2)] n TNumber at show ?thesis
      by (simp add: setopt_code_def run_simps api_simps setopt_number_def luaV_tonumber_def)
  next
    case (TString str)
    then have "arg_fits (enum_of_ptr q) (StringArg (Some (c_str str)))" using fits args by (simp add: setopt_fits_def arg_fits_def)
    from set [OF this] TString at show ?thesis
      by (simp add: setopt_code_def run_simps api_simps setopt_string_def)
  qed (use fits args in \<open>simp_all add: setopt_fits_def\<close>)
qed

lemma setopt_safe:
  assumes lc: "curl_contract lc live" and w: "cf live M H k w" and fits: "setopt_fits (stack w)"
  shows "case curl_setopt lc w of Ret a t \<Rightarrow> curl_inv live M H t | Throw e t \<Rightarrow> curl_inv live M H t | Undef \<Rightarrow> False"
proof -
  let ?body = "\<lambda>p. bnd (lua_touserdata 2) (\<lambda>option. bnd (setopt_code lc p (enum_of_ptr option)) (\<lambda>code.
     if code \<noteq> CURLE_OK then andThen (lua_pushlightuserdata (nat (to_ulonglong code))) (ret 1)
     else andThen (lua_pushboolean False) (ret (1 :: int))))"
  let ?no = "andThen (lua_pushboolean False) (ret (1 :: int))"
  have eq: "curl_setopt lc w = (if argtype w 1 = LUA_TLIGHTUSERDATA \<and> argtype w 2 = LUA_TLIGHTUSERDATA
      then with_curl ?body ?no w else ?no w)"
    by (simp add: curl_setopt_def run_simps api_simps)
  have no: "case ?no w of Ret a t \<Rightarrow> curl_inv live M H t | Throw e t \<Rightarrow> curl_inv live M H t | Undef \<Rightarrow> False"
    using w by (simp add: run_simps api_simps cf_def)
  have body: "case ?body p w of Ret a t \<Rightarrow> curl_inv live M H t | Throw e t \<Rightarrow> curl_inv live M H t | Undef \<Rightarrow> False"
    if p: "cf live (insert p M) H k w" and t: "argtype w 2 = LUA_TLIGHTUSERDATA" for p
  proof -
    obtain q where q: "1 < length (stack w)" "stack w ! 1 = TLightUserData q"
      using t by (auto simp: argtype_def arg_def ttype_eq_simps split: if_splits)
    then obtain u vs' where s2: "stack w = u # TLightUserData q # vs'"
      by (cases "stack w"; cases "tl (stack w)") auto
    then obtain v vs where s3: "stack w = u # TLightUserData q # v # vs"
      using fits by (cases vs') (auto simp: setopt_fits_def)
    obtain a t where "setopt_code lc p (enum_of_ptr q) w = Ret a t" "cf live (insert p M) H k t"
      using setopt_code_holds [OF lc insertI1 p s3 fits] by blast
    moreover from this(2) have "curl_inv live M H t"
      using curl_inv_mono [of live "insert p M" H t H M] by (auto simp: cf_def)
    moreover have "arg w 2 = TLightUserData q" using s2 by (simp add: arg_def)
    ultimately show ?thesis by (simp add: run_simps api_simps)
  qed
  show ?thesis
    using with_curl_cases [OF w, of ?body ?no] body no eq by auto
qed

section \<open>Pulses\<close>

lemma curl_inv_delete:
  assumes inv: "curl_inv live {} {} w" and l: "mtacurls w = Some (pre @ p # rest)" and c: "curls w p = Some c"
    and s: "live s = live (cl w) - {m_pCurl c}"
  shows "curl_inv live {} {} (w\<lparr>mtacurls := Some (pre @ rest), cl := s, curls := (curls w)(p := None)\<rparr>)"
proof -
  have dist: "handles_distinct (curls w)" and live: "live (cl w) = m_pCurl ` ran (curls w) - {0}"
    using inv by (auto simp: curl_inv_def)
  have "h \<in> m_pCurl ` ran (curls w) - {0} - {m_pCurl c} \<longleftrightarrow> h \<in> m_pCurl ` ran ((curls w)(p := None)) - {0}" for h
  proof
    assume "h \<in> m_pCurl ` ran (curls w) - {0} - {m_pCurl c}"
    then obtain q d where "curls w q = Some d" "m_pCurl d = h" "h \<noteq> 0" "h \<noteq> m_pCurl c" by (auto simp: ran_def)
    with c show "h \<in> m_pCurl ` ran ((curls w)(p := None)) - {0}" by (cases "q = p") (auto simp: handles_iff intro!: exI [of _ q])
  next
    assume "h \<in> m_pCurl ` ran ((curls w)(p := None)) - {0}"
    then obtain q d where q: "q \<noteq> p" "curls w q = Some d" "m_pCurl d = h" "h \<noteq> 0"
      by (auto simp: ran_def split: if_splits)
    then have "h \<noteq> m_pCurl c" using dist c unfolding handles_distinct_def by metis
    with q show "h \<in> m_pCurl ` ran (curls w) - {0} - {m_pCurl c}" by (auto simp: ran_def)
  qed
  then have "m_pCurl ` ran (curls w) - {0} - {m_pCurl c} = m_pCurl ` ran ((curls w)(p := None)) - {0}"
    by (rule set_eqI)
  with s live have "live s = m_pCurl ` ran ((curls w)(p := None)) - {0}" by simp
  moreover have "handles_distinct ((curls w)(p := None))"
    using dist by (auto simp: handles_distinct_def split: if_splits)
  ultimately show ?thesis using inv l by (auto simp: curl_inv_def)
qed

definition awaiting :: "(ptr \<Rightarrow> Mtacurl option) \<Rightarrow> ptr \<Rightarrow> bool" where
  "awaiting f p = (case f p of Some c \<Rightarrow> m_bAwaitingDestruction c | None \<Rightarrow> False)"

text \<open>The world after the loop has gone through \<open>rest\<close>; \<open>pre\<close> is the part of the vector it had left behind.\<close>

definition after_pulse :: "ptr list \<Rightarrow> ptr list \<Rightarrow> 'c \<Rightarrow> 'c curl_world \<Rightarrow> 'c curl_world" where
  "after_pulse pre rest s w = w\<lparr>mtacurls := Some (pre @ filter (\<lambda>p. \<not> awaiting (curls w) p) rest),
     curls := (\<lambda>p. if p \<in> set rest \<and> awaiting (curls w) p then None else curls w p), cl := s\<rparr>"

lemma after_pulse_Nil: "mtacurls w = Some pre \<Longrightarrow> after_pulse pre [] (cl w) w = w"
  by (simp add: after_pulse_def)

lemma after_pulse_keep:
  assumes "\<not> awaiting (curls w) p"
  shows "after_pulse pre (p # rest) s w = after_pulse (pre @ [p]) rest s w"
proof -
  have "(\<lambda>q. if q \<in> set (p # rest) \<and> awaiting (curls w) q then None else curls w q)
      = (\<lambda>q. if q \<in> set rest \<and> awaiting (curls w) q then None else curls w q)"
    using assms by (intro ext) auto
  then show ?thesis using assms unfolding after_pulse_def by simp
qed

lemma after_pulse_erase:
  assumes "awaiting (curls w) p" and "p \<notin> set rest"
  shows "after_pulse pre (p # rest) s w =
    after_pulse pre rest s (w\<lparr>mtacurls := l, cl := s', curls := (curls w)(p := None)\<rparr>)"
proof -
  have aw: "awaiting ((curls w)(p := None)) q \<longleftrightarrow> q \<noteq> p \<and> awaiting (curls w) q" for q
    by (simp add: awaiting_def)
  have "(\<lambda>q. if q \<in> set (p # rest) \<and> awaiting (curls w) q then None else curls w q)
      = (\<lambda>q. if q \<in> set rest \<and> (q \<noteq> p \<and> awaiting (curls w) q) then None else ((curls w)(p := None)) q)"
    using assms by (intro ext) auto
  moreover have "filter (\<lambda>q. \<not> (q \<noteq> p \<and> awaiting (curls w) q)) rest = filter (\<lambda>q. \<not> awaiting (curls w) q) rest"
    using assms(2) by (intro filter_cong) auto
  ultimately show ?thesis using assms(1) unfolding after_pulse_def by (simp add: aw cong: if_cong)
qed

lemma curl_pulse_loop_result:
  assumes lc: "curl_contract lc live" and inv: "curl_inv live {} {} w"
    and l: "mtacurls w = Some (pre @ rest)" and n: "length rest \<le> n"
  shows "\<exists>s. curl_pulse_loop n lc (length pre) w = Ret () (after_pulse pre rest s w)
    \<and> curl_inv live {} {} (after_pulse pre rest s w)"
  using inv l n
proof (induction rest arbitrary: pre w n)
  case Nil
  then have "curl_pulse_loop n lc (length pre) w = Ret () w"
    by (subst curl_pulse_loop.simps) (simp add: manager_def run_simps)
  with Nil show ?case using after_pulse_Nil [of w pre] by (intro exI [of _ "cl w"]) simp
next
  case (Cons p rest)
  obtain m where n: "n = Suc m" "length rest \<le> m" using Cons.prems(3) by (cases n) auto
  have "p \<in> dom (curls w)" using Cons.prems(1,2) by (auto simp: curl_inv_def)
  then obtain c where c: "curls w p = Some c" by auto
  have p: "p \<noteq> 0" "p \<notin> set rest" using Cons.prems(1,2) by (auto simp: curl_inv_def)
  show ?case
  proof (cases "m_bAwaitingDestruction c")
    case False
    then have aw: "\<not> awaiting (curls w) p" using c by (simp add: awaiting_def)
    have "curl_pulse_loop n lc (length pre) w = curl_pulse_loop m lc (length (pre @ [p])) w"
      by (subst curl_pulse_loop.simps)
        (use Cons.prems(2) n c p False in \<open>simp add: manager_def run_simps get_curl_def Mtacurl_DoPulse_def\<close>)
    then show ?thesis
      using Cons.IH [of w "pre @ [p]" m] Cons.prems n after_pulse_keep [OF aw] by simp
  next
    case True
    then have aw: "awaiting (curls w) p" using c by (simp add: awaiting_def)
    obtain s where s: "curl_easy_cleanup lc (m_pCurl c) (cl w) = Some ((), s)" "live s = live (cl w) - {m_pCurl c}"
      using contractD(4) [OF lc object_handle_valid [OF Cons.prems(1) c]] by blast
    let ?w = "w\<lparr>mtacurls := Some (pre @ rest), cl := s, curls := (curls w)(p := None)\<rparr>"
    have "curl_pulse_loop n lc (length pre) w = curl_pulse_loop m lc (length pre) ?w"
      by (subst curl_pulse_loop.simps)
        (use Cons.prems(2) n c p True s(1) in
          \<open>simp add: manager_def run_simps get_curl_def Mtacurl_delete_def clib_def erase_at_def\<close>)
    moreover have "curl_inv live {} {} ?w" by (rule curl_inv_delete [OF Cons.prems(1,2) c s(2)])
    moreover have "after_pulse pre (p # rest) r w = after_pulse pre rest r ?w" for r
      by (rule after_pulse_erase [OF aw p(2)])
    ultimately show ?thesis using Cons.IH [of ?w pre m] n by simp
  qed
qed

end
