(* ===== verification/CurlSpec.thy ===== *)
theory CurlSpec
  imports CurlSafety
begin

text \<open>
  Properties of the curl module.  Lua code is any sequence of calls of the module's functions that
  may depend on their results and on the whole state (\<open>curl_script\<close>); it runs in the handlers of a
  transfer too, to the depth of nested C calls that Lua allows.  The reachable states are those the
  server gets to by such calls and by pulses after the module was initialised.
\<close>

section \<open>Scripts\<close>

datatype curl_script =
    CFinish "TValue list"
  | CRaise TValue
  | CCall string "TValue list" "TValue list \<Rightarrow> curl_script"

type_synonym 'c curl_server = "'c curl_world \<Rightarrow> ptr \<Rightarrow> curl_script"

definition call_curl ::
  "'c libcurl \<Rightarrow> 'c curl_run \<Rightarrow> string \<Rightarrow> TValue list \<Rightarrow> ('c, TValue list) curlm" where
  "call_curl lc run f args = (\<lambda>w. case curl_function lc run f (w\<lparr>stack := args\<rparr>) of
     Ret n t \<Rightarrow> Ret (drop (length (stack t) - nat n) (stack t)) (t\<lparr>stack := stack w\<rparr>)
   | Throw e t \<Rightarrow> Throw e (t\<lparr>stack := stack w\<rparr>)
   | Undef \<Rightarrow> Undef)"

primrec run_curl_script :: "'c libcurl \<Rightarrow> 'c curl_run \<Rightarrow> curl_script \<Rightarrow> ('c, TValue list) curlm" where
  "run_curl_script lc run (CFinish rs) = ret rs"
| "run_curl_script lc run (CRaise e) = throw e"
| "run_curl_script lc run (CCall f args k) =
     bnd (call_curl lc run f args) (\<lambda>rs. run_curl_script lc run (k rs))"

fun curl_lua :: "nat \<Rightarrow> 'c libcurl \<Rightarrow> 'c curl_server \<Rightarrow> 'c curl_run" where
  "curl_lua 0 lc sv p = lua_raise ''C stack overflow''"
| "curl_lua (Suc d) lc sv p = (\<lambda>w. run_curl_script lc (curl_lua d lc sv) (sv w p) w)"

text \<open>
  The calls that are safe: \<open>curl_cleanup\<close> frees a handle the object keeps, \<open>curl_sleep\<close> prints a null
  string, and \<open>curl_setopt\<close> needs a value of the option's kind.
\<close>

definition allowed_call :: "string \<Rightarrow> TValue list \<Rightarrow> bool" where
  "allowed_call f args \<longleftrightarrow> f \<noteq> ''curl_cleanup'' \<and> f \<noteq> ''curl_sleep'' \<and> (f = ''curl_setopt'' \<longrightarrow> setopt_fits args)"

primrec script_ok :: "curl_script \<Rightarrow> bool" where
  "script_ok (CFinish rs) = True"
| "script_ok (CRaise e) = True"
| "script_ok (CCall f args k) = (allowed_call f args \<and> (\<forall>rs. script_ok (k rs)))"

lemma function_safe:
  assumes lc: "curl_contract lc live" and run: "curl_run_ok live run" and ok: "allowed_call f args"
    and w: "curl_inv live M H w" and st: "stack w = args"
  shows "case curl_function lc run f w of Ret a t \<Rightarrow> curl_inv live M H t | Throw e t \<Rightarrow> curl_inv live M H t | Undef \<Rightarrow> False"
proof -
  have cf: "cf live M H (length args) w" using w st by (simp add: cf_def)
  have run': "case m w of Ret a t \<Rightarrow> curl_inv live M H t | Throw e t \<Rightarrow> curl_inv live M H t | Undef \<Rightarrow> False"
    if "safe live M H (length args) m" for m :: "('a, int) curlm"
    using that cf by (simp add: triple_def)
  show ?thesis
    using ok st run' [OF safe_init [OF lc]] run' [OF safe_close] run' [OF safe_escape [OF lc]]
      run' [OF safe_perform [OF lc run]] run' [OF safe_strerror] setopt_safe [OF lc cf] w
    unfolding curl_function_def allowed_call_def by simp
qed

lemma call_curl_keeps:
  assumes lc: "curl_contract lc live" and run: "curl_run_ok live run" and ok: "allowed_call f args"
  shows "keeps True (curl_inv live M H) (call_curl lc run f args)"
proof (rule keepsI)
  fix w
  assume "curl_inv live M H w"
  then have "curl_inv live M H (w\<lparr>stack := args\<rparr>)" by simp
  from function_safe [OF lc run ok this]
  show "case call_curl lc run f args w of Ret a t \<Rightarrow> curl_inv live M H t | Throw e t \<Rightarrow> True \<and> curl_inv live M H t | Undef \<Rightarrow> False"
    by (cases "curl_function lc run f (w\<lparr>stack := args\<rparr>)") (simp_all add: call_curl_def)
qed

lemma run_curl_script_keeps:
  assumes "curl_contract lc live" and "curl_run_ok live run" and "script_ok sc"
  shows "keeps True (curl_inv live M H) (run_curl_script lc run sc)"
  using assms(3)
  by (induction sc) (auto intro!: keeps_ret keeps_bnd call_curl_keeps [OF assms(1,2)])

lemma curl_lua_ok:
  assumes "curl_contract lc live" and "\<forall>w p. script_ok (sv w p)"
  shows "curl_run_ok live (curl_lua d lc sv)"
proof (induction d)
  case 0
  show ?case by (simp add: curl_run_ok_def keeps_def triple_def)
next
  case (Suc d)
  have "keeps True (curl_inv live M H) (curl_lua (Suc d) lc sv p)" for p M H
  proof (rule keepsI)
    fix w
    assume "curl_inv live M H w"
    from keepsD [OF run_curl_script_keeps [OF assms(1) Suc] this, of "sv w p"] assms(2)
    show "case curl_lua (Suc d) lc sv p w of Ret a t \<Rightarrow> curl_inv live M H t | Throw e t \<Rightarrow> True \<and> curl_inv live M H t | Undef \<Rightarrow> False"
      by simp
  qed
  then show ?case by (simp add: curl_run_ok_def)
qed

section \<open>Reachable states\<close>

inductive curl_reach ::
  "'c libcurl \<Rightarrow> ('c \<Rightarrow> ptr set) \<Rightarrow> nat \<Rightarrow> 'c curl_server \<Rightarrow> 'c curl_world \<Rightarrow> bool" for lc live d sv where
  start: "Curl_InitModule lc w0 = Ret True w \<Longrightarrow> curls w0 = Map.empty \<Longrightarrow> 0 < next_curl w0 \<Longrightarrow> live (cl w) = {} \<Longrightarrow>
    curl_reach lc live d sv w"
| call_ret: "curl_reach lc live d sv w \<Longrightarrow> allowed_call f args \<Longrightarrow>
    call_curl lc (curl_lua d lc sv) f args w = Ret rs w' \<Longrightarrow> curl_reach lc live d sv w'"
| call_throw: "curl_reach lc live d sv w \<Longrightarrow> allowed_call f args \<Longrightarrow>
    call_curl lc (curl_lua d lc sv) f args w = Throw e w' \<Longrightarrow> curl_reach lc live d sv w'"
| pulse: "curl_reach lc live d sv w \<Longrightarrow> Curl_DoPulse lc w = Ret b w' \<Longrightarrow> curl_reach lc live d sv w'"

lemma pulse_result:
  assumes lc: "curl_contract lc live" and inv: "curl_inv live {} {} w" and l: "mtacurls w = Some l"
  shows "\<exists>s. Curl_DoPulse lc w = Ret True (after_pulse [] l s w) \<and> curl_inv live {} {} (after_pulse [] l s w)"
proof -
  obtain s where "curl_pulse_loop (length l) lc 0 w = Ret () (after_pulse [] l s w)"
    "curl_inv live {} {} (after_pulse [] l s w)"
    using curl_pulse_loop_result [OF lc inv, of "[]" l "length l"] l by auto
  then show ?thesis using l
    by (intro exI [of _ s]) (simp add: Curl_DoPulse_def Mtacurls_DoPulse_def manager_def run_simps)
qed

lemma curl_reach_inv:
  assumes lc: "curl_contract lc live" and sv: "\<forall>w p. script_ok (sv w p)" and "curl_reach lc live d sv w"
  shows "curl_inv live {} {} w"
  using assms(3)
proof (induction rule: curl_reach.induct)
  case (start w0 w)
  then show ?case
    by (auto simp: Curl_InitModule_def Mtacurls_new_def clib_def run_simps curl_inv_def handles_distinct_def
        split: option.splits)
next
  case (call_ret w f args rs w')
  from keepsD [OF call_curl_keeps [OF lc curl_lua_ok [OF lc sv] call_ret(2)] call_ret(4), of d] call_ret(3)
  show ?case by simp
next
  case (call_throw w f args e w')
  from keepsD [OF call_curl_keeps [OF lc curl_lua_ok [OF lc sv] call_throw(2)] call_throw(4), of d] call_throw(3)
  show ?case by simp
next
  case (pulse w b w')
  obtain l where "mtacurls w = Some l" using pulse.IH by (auto simp: curl_inv_def)
  from pulse_result [OF lc pulse.IH this] pulse(2) show ?case by auto
qed


text \<open>C17: A pulse of the curl module ends, and destroys exactly the objects whose scripts closed them: they leave
  the vector and the heap and their libcurl handles are cleaned up; the other objects stay, in their order
  and unchanged.\<close>

theorem curl_pulse_destroys_closed:
  assumes "curl_contract lc live" and "\<forall>w p. script_ok (sv w p)" and "curl_reach lc live d sv w"
    and "mtacurls w = Some l"
  shows "\<exists>w'. Curl_DoPulse lc w = Ret True w'
    \<and> mtacurls w' = Some (filter (\<lambda>p. \<not> awaiting (curls w) p) l)
    \<and> curls w' = (\<lambda>p. if awaiting (curls w) p then None else curls w p)
    \<and> live (cl w') = m_pCurl ` ran (curls w') - {0}"
proof -
  have inv: "curl_inv live {} {} w" by (rule curl_reach_inv [OF assms(1-3)])
  obtain s where s: "Curl_DoPulse lc w = Ret True (after_pulse [] l s w)" "curl_inv live {} {} (after_pulse [] l s w)"
    using pulse_result [OF assms(1) inv assms(4)] by blast
  have "dom (curls w) = set l" using inv assms(4) by (auto simp: curl_inv_def)
  then have "p \<in> set l" if "awaiting (curls w) p" for p
    using that by (auto simp: awaiting_def split: option.splits)
  then have heap: "curls (after_pulse [] l s w) = (\<lambda>p. if awaiting (curls w) p then None else curls w p)"
    by (auto simp: after_pulse_def fun_eq_iff)
  have "live (cl (after_pulse [] l s w)) = m_pCurl ` ran (curls (after_pulse [] l s w)) - {0}"
    using s(2) by (simp add: curl_inv_def)
  then show ?thesis using s(1) heap
    by (intro exI [of _ "after_pulse [] l s w"]) (simp add: after_pulse_def)
qed

section \<open>Published constants\<close>

definition plain_globals :: "'z lua_State_scheme \<Rightarrow> bool" where
  "plain_globals w \<longleftrightarrow> (\<exists>h. tables w (globals w) = Some h \<and> metatable h = 0)"

lemma constant_names: "(n, v) \<in> set curl_globals \<Longrightarrow> c_str n = n"
proof -
  have "\<forall>(n, v) \<in> set curl_globals. nul \<notin> set n"
    unfolding curl_globals_def nul_def by code_simp
  then show "(n, v) \<in> set curl_globals \<Longrightarrow> c_str n = n" by auto
qed

lemma metatable_put [simp]: "metatable (table_put k v h) = metatable h"
  by (auto simp: table_put_def luaH_set_def write_slot_def split: sum.split)

lemma registerLuaGlobal_effect:
  assumes "tables w (globals w) = Some h" and "metatable h = 0" and "c_str n = n"
  shows "registerLuaGlobal run n v w =
    Ret () (w\<lparr>tables := (tables w)(globals w \<mapsto> table_put (TString n) (TLightUserData v) h)\<rparr>)"
proof -
  obtain h' where h': "luaH_set h (TString n) = Inr h'"
    using luaH_set_key [of "TString n" h] by (auto simp: table_key_def)
  let ?w = "w\<lparr>stack := stack w @ [TLightUserData v]\<rparr>"
  have "luaV_settable run (TTable (globals w)) (TString n) (TLightUserData v) ?w
      = Ret () (?w\<lparr>tables := (tables ?w)(globals w \<mapsto> write_slot h' (TString n) (TLightUserData v))\<rparr>)"
    using assms h' by (intro luaV_settable_raw) simp_all
  then show ?thesis using assms(3) h'
    by (simp add: registerLuaGlobal_def lua_setglobal_def lua_setfield_def top_value_def drop_top_def
        value_at_globals run_simps api_simps table_put_def)
qed

lemma register_constants:
  assumes "tables w (globals w) = Some h" and "metatable h = 0" and "\<forall>(n, v) \<in> set cs. c_str n = n"
  shows "forEach cs (\<lambda>(n, v). registerLuaGlobal run n v) w = Ret () (w\<lparr>tables := (tables w)(globals w \<mapsto>
    fold (\<lambda>(k, v). table_put k v) (map (\<lambda>(n, v). (TString n, TLightUserData v)) cs) h)\<rparr>)"
  using assms
proof (induction cs arbitrary: w h)
  case Nil
  then show ?case by (simp add: fun_upd_idem)
next
  case (Cons nv cs)
  obtain n v where nv: "nv = (n, v)" by (cases nv)
  with Cons.prems registerLuaGlobal_effect [of w h n run v] Cons.IH [of "w\<lparr>tables := (tables w)(globals w \<mapsto>
      table_put (TString n) (TLightUserData v) h)\<rparr>" "table_put (TString n) (TLightUserData v) h"]
  show ?case by (simp add: run_simps cong: if_cong)
qed

lemma map_of_map_inj: "map_of (map (\<lambda>(n, v). (TString n, f v)) xs) (TString n) = map_option f (map_of xs n)"
  by (induction xs) auto

text \<open>C32: Registration publishes libcurl's constants: in a machine with a plain table of globals it ends without an
  error, and afterwards every constant of \<open>curl.h\<close> the module names is a global that holds its value as a
  light userdata, which \<open>curl_setopt\<close> converts back to the same code when the code fits in 32 bits.\<close>

theorem constants_published:
  assumes "pModuleManager_set w" and "plain_globals w"
    and register: "\<And>f u. plain_globals u \<Longrightarrow> \<exists>t. RegisterFunction f u = Ret () t \<and> plain_globals t"
  shows "\<exists>w'. Curl_RegisterFunctions RegisterFunction run w = Ret () w' \<and>
    (\<forall>n v. map_of (rev curl_globals) n = Some v \<longrightarrow>
       table_get w' (globals w') (TString n) = TLightUserData v \<and> (v < 2 ^ 32 \<longrightarrow> enum_of_ptr v = int v))"
proof -
  have each: "\<exists>t. forEach fs RegisterFunction u = Ret () t \<and> plain_globals t" if "plain_globals u" for fs u
    using that
  proof (induction fs arbitrary: u)
    case (Cons f fs)
    obtain t where "RegisterFunction f u = Ret () t" "plain_globals t" using register [OF Cons.prems] by blast
    with Cons.IH show ?case by (simp add: run_simps)
  qed simp
  have "plain_globals (w\<lparr>gLuaVM_set := True\<rparr>)" using assms(2) by (simp add: plain_globals_def)
  then obtain t where t: "forEach curl_functions RegisterFunction (w\<lparr>gLuaVM_set := True\<rparr>) = Ret () t" "plain_globals t"
    using each by blast
  then obtain h where h: "tables t (globals t) = Some h" "metatable h = 0" by (auto simp: plain_globals_def)
  let ?kvs = "map (\<lambda>(n, v). (TString n, TLightUserData v)) curl_globals"
  let ?h = "fold (\<lambda>(k, v). table_put k v) ?kvs h"
  let ?t = "t\<lparr>tables := (tables t)(globals t \<mapsto> ?h)\<rparr>"
  have "Curl_RegisterFunctions RegisterFunction run w = Ret () ?t"
    using assms(1) t(1) register_constants [OF h, of curl_globals run] constant_names
    by (auto simp: Curl_RegisterFunctions_def saveLuaData_def run_simps)
  moreover have "table_get ?t (globals ?t) (TString n) = TLightUserData v" if "map_of (rev curl_globals) n = Some v" for n v
  proof -
    have "map_of (rev ?kvs) (TString n) = map_option TLightUserData (map_of (rev curl_globals) n)"
      by (simp add: rev_map map_of_map_inj)
    moreover have "\<forall>(k, v) \<in> set ?kvs. table_key k \<and> v \<noteq> TNil" by (auto simp: table_key_def)
    ultimately have "table_lookup (TString n) ?h = Some (TLightUserData v)"
      using luatable.lookup_fold_put [where m = h and kvs = ?kvs and j = "TString n"] that by simp
    then show ?thesis by (auto simp: table_get_def table_lookup_def split: if_splits)
  qed
  moreover have "enum_of_ptr v = int v" if "v < 2 ^ 32" for v
    using that by (simp add: enum_of_ptr_def)
  ultimately show ?thesis by blast
qed

section \<open>Handlers\<close>

text \<open>C33: The write and header handlers hand libcurl's data over unchanged: with the table of functions on top of
  the stack, the function of the field is called once with exactly the bytes of the block, the frame is left as it
  was, and the handler reports all bytes as taken; an error in the Lua function leaves through libcurl.\<close>

theorem data_handler_calls:
  assumes "stack w = st @ [TTable t]" and "table_get w t (TString (c_str field)) = TFunction q"
    and "length d < 2 ^ 31"
  shows "data_handler run field d w =
    (case run q (w\<lparr>stack := [TString d], curr_func := Some q\<rparr>) of
       Ret _ u \<Rightarrow> Ret (int (length d)) (u\<lparr>stack := stack w, curr_func := curr_func w\<rparr>)
     | Throw e u \<Rightarrow> Throw e (u\<lparr>stack := stack w @ [TFunction q, TString d], curr_func := curr_func w\<rparr>)
     | Undef \<Rightarrow> Undef)"
proof -
  have get: "lua_getfield run (- 1) field w = Ret () (w\<lparr>stack := stack w @ [TFunction q]\<rparr>)"
    using assms by (subst lua_getfield_raw [of _ _ t]) (simp_all add: api_simps)
  have "uint_to_int (int (length d)) = int (length d)"
    using assms(3) by (simp add: uint_to_int_def Let_def)
  then show ?thesis
    by (cases "run q (w\<lparr>stack := [TString d], curr_func := Some q\<rparr>)")
      (simp_all add: data_handler_def run_simps get api_simps lua_call_def Let_def call_value_def call_frame_def
        nth_append adjust_results_def)
qed

text \<open>C18: The read handler never gives libcurl more bytes than it has room for: whatever the Lua function returns, if
  the handler returns then the bytes it copied fit into the buffer, the number it reports is their number, and the
  height of the frame is what it was.\<close>

theorem read_handler_bounds:
  assumes "read_handler run room w = Ret (str, n) w'" and "room < 2 ^ 31"
  shows "length str \<le> room \<and> n = int (length str) \<and> length (stack w') = length (stack w)"
proof -
  have "\<exists>t. \<not> length str > room \<and> lua_settop (int (length (stack w))) t = Ret () w' \<and> n = uint_to_int (int (length str))"
    using assms(1) unfolding read_handler_def
    by (auto simp: run_simps lua_gettop_def luaL_error_throws Let_def split: outcome.splits if_splits option.splits)
  then obtain t where t: "length str \<le> room" "lua_settop (int (length (stack w))) t = Ret () w'"
    "n = uint_to_int (int (length str))" by auto
  from t(2) have "length (stack w') = length (stack w)" by (auto simp: lua_settop_def)
  with t assms(2) show ?thesis by (simp add: uint_to_int_def Let_def)
qed

section \<open>Cleaning up twice\<close>

lemma pulse_skips:
  assumes "mtacurls w = Some (pre @ xs @ rest)" and "\<forall>p \<in> set xs. p \<noteq> 0 \<and> p \<in> dom (curls w) \<and> \<not> awaiting (curls w) p"
  shows "curl_pulse_loop (length xs + n) lc (length pre) w = curl_pulse_loop n lc (length (pre @ xs)) w"
  using assms
proof (induction xs arbitrary: pre)
  case (Cons p xs)
  then obtain c where c: "curls w p = Some c" "\<not> m_bAwaitingDestruction c" "p \<noteq> 0"
    by (auto simp: awaiting_def)
  have "curl_pulse_loop (length (p # xs) + n) lc (length pre) w = curl_pulse_loop (length xs + n) lc (length (pre @ [p])) w"
    by (subst curl_pulse_loop.simps) (use Cons.prems(1) c in
      \<open>simp add: manager_def run_simps get_curl_def Mtacurl_DoPulse_def nth_append\<close>)
  then show ?case using Cons.IH [of "pre @ [p]"] Cons.prems by simp
qed simp

lemma find_curl_same:
  "find_curl u ps w = Ret r w \<Longrightarrow>
   (\<And>p. p \<in> set ps \<Longrightarrow> map_option m_pUserData (curls w' p) = map_option m_pUserData (curls w p)) \<Longrightarrow>
   find_curl u ps w' = Ret r w'"
proof (induction ps)
  case (Cons p ps)
  obtain c where c: "curls w p = Some c" using Cons.prems(1)
    by (auto simp: get_curl_def run_simps split: option.splits)
  moreover have "map_option m_pUserData (curls w' p) = map_option m_pUserData (curls w p)" using Cons.prems(2) by simp
  ultimately obtain d where "curls w' p = Some d" "m_pUserData d = m_pUserData c" by auto
  with c Cons show ?case by (auto simp: get_curl_def run_simps split: if_splits)
qed simp

lemma with_curl_found:
  assumes "mtacurls w = Some l" and "find_curl u l w = Ret (Some p) w" and "stack w = [TLightUserData u]"
  shows "with_curl f otherwise w = f p w"
  using assms by (simp add: with_curl_def Get_def manager_def run_simps api_simps arg_def)

text \<open>C40: \<open>curl_cleanup\<close> leaves the object with a handle that is gone: when a script cleans a transfer up and then
  closes it, both calls report success, and the next pulse passes the same handle to \<open>curl_easy_cleanup\<close> again, which
  libcurl does not allow.\<close>

theorem cleanup_then_close_frees_twice:
  assumes lc: "curl_contract lc live" and closed: "\<forall>h s. h \<noteq> 0 \<and> h \<notin> live s \<longrightarrow> curl_easy_cleanup lc h s = None"
    and inv: "curl_inv live {} {} w" and l: "mtacurls w = Some l" and found: "find_curl u l w = Ret (Some p) w"
    and c: "curls w p = Some c" and h: "m_pCurl c \<noteq> 0" and others: "\<forall>q \<in> set l. \<not> awaiting (curls w) q"
  shows "\<exists>w1 w2. call_curl lc run ''curl_cleanup'' [TLightUserData u] w = Ret [TBoolean True] w1
    \<and> call_curl lc run ''curl_close'' [TLightUserData u] w1 = Ret [TBoolean True] w2
    \<and> Curl_DoPulse lc w2 = Undef"
proof -
  obtain s where s: "curl_easy_cleanup lc (m_pCurl c) (cl w) = Some ((), s)" "live s = live (cl w) - {m_pCurl c}"
    using contractD(4) [OF lc object_handle_valid [OF inv c]] by blast
  let ?w1 = "w\<lparr>cl := s\<rparr>"
  let ?w2 = "?w1\<lparr>curls := (curls w)(p \<mapsto> c\<lparr>m_bAwaitingDestruction := True\<rparr>)\<rparr>"
  have at: "argtype (v\<lparr>stack := [TLightUserData u]\<rparr>) 1 = LUA_TLIGHTUSERDATA" for v :: "'a curl_world"
    by (simp add: argtype_def arg_def)
  have same: "find_curl u l v = Ret (Some p) v" if "curls v = curls w" for v
    by (rule find_curl_same [OF found]) (simp add: that)
  have one: "call_curl lc run ''curl_cleanup'' [TLightUserData u] w = Ret [TBoolean True] ?w1"
    using l c s(1) at [of w]
    by (simp add: call_curl_def curl_function_def curl_cleanup_def run_simps api_simps
        with_curl_found [OF _ same] Mtacurl_cleanup_def get_curl_def clib_def)
  have two: "call_curl lc run ''curl_close'' [TLightUserData u] ?w1 = Ret [TBoolean True] ?w2"
    using l c at [of ?w1]
    by (simp add: call_curl_def curl_function_def curl_close_def run_simps api_simps
        with_curl_found [OF _ same] MakeAwaitDestruction_def set_curl_def get_curl_def)
  have dom: "dom (curls w) = set l" "distinct l" "0 \<notin> set l" using inv l by (auto simp: curl_inv_def)
  then have "p \<in> set l" using c by auto
  then obtain pre rest where pr: "l = pre @ p # rest" by (auto simp: in_set_conv_decomp)
  let ?d = "c\<lparr>m_bAwaitingDestruction := True\<rparr>"
  have aw: "awaiting ((curls w)(p \<mapsto> ?d)) q \<longleftrightarrow> q = p \<or> awaiting (curls w) q" for q
    by (simp add: awaiting_def)
  have "\<forall>q \<in> set pre. q \<noteq> 0 \<and> q \<in> dom (curls ?w2) \<and> \<not> awaiting (curls ?w2) q"
  proof
    fix q
    assume "q \<in> set pre"
    then have "q \<in> set l" "q \<noteq> p" using pr dom(2) by auto
    with dom others show "q \<noteq> 0 \<and> q \<in> dom (curls ?w2) \<and> \<not> awaiting (curls ?w2) q" by (auto simp: aw)
  qed
  then have "curl_pulse_loop (length l) lc 0 ?w2 = curl_pulse_loop (Suc (length rest)) lc (length pre) ?w2"
    using pulse_skips [of ?w2 "[]" pre "p # rest" "Suc (length rest)" lc] l pr by simp
  also have "\<dots> = Undef"
  proof -
    have "curl_easy_cleanup lc (m_pCurl c) s = None" using closed h s(2) by simp
    moreover have "p \<noteq> 0" using dom(3) pr by auto
    ultimately show ?thesis
      by (subst curl_pulse_loop.simps)
        (use l pr in \<open>simp add: manager_def run_simps get_curl_def Mtacurl_delete_def clib_def\<close>)
  qed
  finally have "Curl_DoPulse lc ?w2 = Undef"
    using l by (simp add: Curl_DoPulse_def Mtacurls_DoPulse_def manager_def run_simps)
  with one two show ?thesis by blast
qed

section \<open>A small library\<close>

text \<open>A library whose state is the list of its open handles; a transfer delivers one block of data.\<close>

definition demo_curl :: "ptr list libcurl" where
  "demo_curl = \<lparr>
     curl_global_init = (\<lambda>flags hs. Some (0, hs)),
     curl_global_cleanup = (\<lambda>hs. Some ((), hs)),
     curl_easy_init = (\<lambda>hs. Some (Suc (sum_list hs), Suc (sum_list hs) # hs)),
     curl_easy_cleanup = (\<lambda>h hs. if h = 0 \<or> h \<in> set hs then Some ((), removeAll h hs) else None),
     curl_easy_escape = (\<lambda>h u n hs. Some (Some u, hs)),
     curl_easy_setopt = (\<lambda>h opt v hs. if h = 0 then Some (43, hs) else if h \<in> set hs then Some (0, hs) else None),
     curl_easy_perform = (\<lambda>h hs. if h = 0 then Some (Finished 43 hs)
        else if h \<in> set hs then Some (Callback hs (WriteData ''body'') (\<lambda>(b, n, c). Finished 0 c)) else None),
     curl_easy_send = (\<lambda>h n b hs. Some (0, hs)),
     curl_easy_strerror = (\<lambda>code. ''error'')\<rparr>"

lemma demo_curl_contract: "curl_contract demo_curl set"
proof -
  have "Suc (sum_list hs) \<notin> set hs" for hs :: "nat list"
    using member_le_sum_list [of "Suc (sum_list hs)" hs] by auto
  then show ?thesis
    by (auto simp: curl_contract_def demo_curl_def valid_handle_def)
qed

definition demo_curl_world :: "(string \<times> ptr) list \<Rightarrow> ptr list option \<Rightarrow> (ptr \<Rightarrow> Mtacurl option) \<Rightarrow> ptr list \<Rightarrow>
    ptr list curl_world" where
  "demo_curl_world fs l objs hs = lua_State.extend (new_state fs []) (curl_world.fields objs 10 l True True hs [])"

lemma demo_curl_fields [simp]:
  "curls (demo_curl_world fs l objs hs) = objs" "next_curl (demo_curl_world fs l objs hs) = 10"
  "mtacurls (demo_curl_world fs l objs hs) = l" "cl (demo_curl_world fs l objs hs) = hs"
  "pModuleManager_set (demo_curl_world fs l objs hs)" "stack (demo_curl_world fs l objs hs) = []"
  "globals (demo_curl_world fs l objs hs) = 2" "curr_func (demo_curl_world fs l objs hs) = None"
  "tables (demo_curl_world fs l objs hs) 2 =
     Some \<lparr>entries = map (\<lambda>(n, p). (TString n, TFunction p)) fs, metatable = 0\<rparr>"
  by (simp_all add: demo_curl_world_def lua_State.extend_def curl_world.fields_def new_state_def)

definition demo_curl_object :: Mtacurl where
  "demo_curl_object = \<lparr>m_pUserData = 1000, m_pConnected = True, m_pCurl = 7, m_bAwaitingDestruction = False,
     m_pBuflen = None, m_pBufsize = None\<rparr>"

lemma demo_curl_start:
  "curl_reach demo_curl set 5 (\<lambda>w p. CFinish []) (demo_curl_world [] (Some []) Map.empty [])"
proof (rule start)
  show "Curl_InitModule demo_curl (demo_curl_world [] None Map.empty []) = Ret True (demo_curl_world [] (Some []) Map.empty [])"
    by (simp add: Curl_InitModule_def Mtacurls_new_def clib_def run_simps demo_curl_def)
      (simp add: demo_curl_world_def lua_State.extend_def curl_world.fields_def)
qed simp_all


theorem curl_pulse_destroys_closed_witness:
  "\<exists>w'. Curl_DoPulse demo_curl (demo_curl_world [] (Some []) Map.empty []) = Ret True w' \<and> mtacurls w' = Some []"
  using curl_pulse_destroys_closed [OF demo_curl_contract _ demo_curl_start, of "[]"] by auto

theorem constants_published_witness:
  "\<exists>w'. Curl_RegisterFunctions (\<lambda>f. ret ()) (\<lambda>p. ret []) (demo_curl_world [] (Some []) Map.empty []) = Ret () w'
     \<and> table_get w' (globals w') (TString ''CURLOPT_URL'') = TLightUserData 10002 \<and> enum_of_ptr 10002 = 10002"
proof -
  have "plain_globals (demo_curl_world [] (Some []) Map.empty [])" by (simp add: plain_globals_def)
  moreover have "map_of (rev curl_globals) ''CURLOPT_URL'' = Some 10002" unfolding curl_globals_def by simp
  ultimately show ?thesis
    using constants_published [of "demo_curl_world [] (Some []) Map.empty []" "\<lambda>f. ret ()" "\<lambda>p. ret []"] by fastforce
qed

definition demo_callbacks :: "ptr list curl_world" where
  "demo_callbacks = (demo_curl_world [(''writefunction'', 5)] (Some []) Map.empty [])\<lparr>stack := [TTable 2]\<rparr>"

lemma demo_callbacks_field: "table_get demo_callbacks 2 (TString (c_str ''writefunction'')) = TFunction 5"
proof -
  have "c_str ''writefunction'' = ''writefunction''" by (simp add: c_str_def nul_def)
  then show ?thesis by (simp add: demo_callbacks_def table_get_def luaH_get_def slot_def rawequal_iff)
qed

theorem data_handler_calls_witness:
  "data_handler (\<lambda>p. ret []) ''writefunction'' ''body'' demo_callbacks = Ret 4 demo_callbacks"
proof -
  have "stack demo_callbacks = [] @ [TTable 2]" by (simp add: demo_callbacks_def)
  from data_handler_calls [OF this demo_callbacks_field, of "''body''" "\<lambda>p. ret []"] show ?thesis by simp
qed

theorem read_handler_bounds_witness:
  "\<exists>n w'. read_handler (\<lambda>p. ret [TString ''abc'']) 8
      ((demo_curl_world [(''readfunction'', 5)] (Some []) Map.empty [])\<lparr>stack := [TTable 2]\<rparr>) = Ret (''abc'', n) w'
    \<and> length ''abc'' \<le> (8 :: nat) \<and> n = 3 \<and> length (stack w') = 1"
proof -
  let ?w = "(demo_curl_world [(''readfunction'', 5)] (Some []) Map.empty [])\<lparr>stack := [TTable 2]\<rparr>"
  have "c_str ''readfunction'' = ''readfunction''" by (simp add: c_str_def nul_def)
  then have f: "table_get ?w 2 (TString (c_str ''readfunction'')) = TFunction 5"
    by (simp add: table_get_def luaH_get_def slot_def rawequal_iff)
  have get: "lua_getfield run (- 1) ''readfunction'' ?w = Ret () (?w\<lparr>stack := stack ?w @ [TFunction 5]\<rparr>)" for run
    using f by (subst lua_getfield_raw [of _ _ 2]) (simp_all add: api_simps)
  have "\<exists>n w'. read_handler (\<lambda>p. ret [TString ''abc'']) 8 ?w = Ret (''abc'', n) w'"
    by (simp add: read_handler_def run_simps lua_gettop_def get api_simps lua_call_def call_value_def call_frame_def
        Let_def adjust_results_def lua_tolstring_def adr_of_def index2adr_def deref_def lua_settop_def)
  then obtain n w' where r: "read_handler (\<lambda>p. ret [TString ''abc'']) 8 ?w = Ret (''abc'', n) w'" by blast
  from read_handler_bounds [OF this] r show ?thesis by fastforce
qed

theorem cleanup_then_close_frees_twice_witness:
  "\<exists>w1 w2. call_curl demo_curl (\<lambda>p. ret []) ''curl_cleanup'' [TLightUserData 1000]
        (demo_curl_world [] (Some [3]) [3 \<mapsto> demo_curl_object] [7]) = Ret [TBoolean True] w1
    \<and> call_curl demo_curl (\<lambda>p. ret []) ''curl_close'' [TLightUserData 1000] w1 = Ret [TBoolean True] w2
    \<and> Curl_DoPulse demo_curl w2 = Undef"
proof -
  let ?w = "demo_curl_world [] (Some [3]) [3 \<mapsto> demo_curl_object] [7]"
  have "curl_inv set {} {} ?w"
    by (auto simp: curl_inv_def handles_distinct_def demo_curl_object_def split: if_splits)
  moreover have "find_curl 1000 [3] ?w = Ret (Some 3) ?w"
    by (simp add: get_curl_def run_simps demo_curl_object_def)
  ultimately show ?thesis
    by (intro cleanup_then_close_frees_twice [OF demo_curl_contract, where l = "[3]" and p = 3 and c = demo_curl_object])
      (simp_all add: demo_curl_def demo_curl_object_def awaiting_def)
qed

section \<open>Calls that go wrong\<close>

text \<open>\<open>curl_sleep\<close> formats the null pointer \<open>lua_tostring\<close> gives for the table of globals.\<close>

lemma curl_sleep_undefined: "curl_func_register w = Undef"
  by (simp add: curl_func_register_def lua_tolstring_def adr_of_def index2adr_def deref_def run_simps luaV_tostring_def)

text \<open>\<open>send\<close> passes a pointer that no constructor sets.\<close>

lemma send_undefined:
  assumes "Mtacurl_new lc w = Ret p w'"
  shows "send lc p w' = Undef"
proof -
  have "\<exists>c. curls w' p = Some c \<and> m_pBufsize c = None"
    using assms by (auto simp: Mtacurl_new_def alloc_curl_def run_simps Let_def clib_def
        split: outcome.splits option.splits)
  then show ?thesis by (auto simp: send_def set_curl_def get_curl_def run_simps)
qed

text \<open>\<open>curl_setopt\<close> reports success, the code \<open>CURLE_OK\<close>, as \<open>false\<close>.\<close>

lemma setopt_success_is_false:
  assumes "mtacurls w = Some l" and "stack w = [TLightUserData u, TLightUserData q, v]"
    and "find_curl u l w = Ret (Some p) w" and "setopt_code lc p (enum_of_ptr q) w = Ret CURLE_OK w'"
  shows "curl_setopt lc w = Ret 1 (w'\<lparr>stack := stack w' @ [TBoolean False]\<rparr>)"
  using assms by (simp add: curl_setopt_def with_curl_def Get_def manager_def run_simps api_simps argtype_def arg_def)

text \<open>With \<open>nil\<close> as its second argument \<open>curl_perform\<close> makes a table at index 3 and indexes the \<open>nil\<close>.\<close>

lemma perform_nil_raises:
  assumes "mtacurls w = Some l" and "stack w = [TLightUserData u, TNil]" and "find_curl u l w = Ret (Some p) w"
    and "typemt w 0 = 0"
  shows "\<exists>e t. curl_perform lc run w = Throw e t"
proof -
  let ?v = "w\<lparr>stack := [TLightUserData u, TNil, TTable (next_obj w)],
     tables := (tables w)(next_obj w \<mapsto> new_table), next_obj := next_obj w + 1\<rparr>"
  have "\<exists>e t. lua_getfield run 2 ''writefunction'' ?v = Throw e t"
    using assms(4)
    by (simp add: lua_getfield_def run_simps api_simps arg_def luaV_gettable_def)
      (subst unroll_100, subst gettable_loop.simps, simp add: run_simps luaT_gettmbyobj_def getmt_def Let_def)
  then obtain e t where get: "lua_getfield run 2 ''writefunction'' ?v = Throw e t" by blast
  show ?thesis using assms(1-3) get
    by (simp add: curl_perform_def with_curl_def Get_def manager_def run_simps api_simps argtype_def arg_def
        lua_createtable_def setup_callback_def Let_def)
qed

end
