(* ===== verification/LuaObject.thy ===== *)
theory LuaObject
  imports LuaState
begin

text \<open>
  The stand-alone functions of \<open>lobject.c\<close>: the one-byte floating point sizes of tables, the binary
  logarithm by table, formatted strings and the printable name of a chunk.  Machine integers keep their
  width; a shift that leaves \<open>int\<close> is \<open>None\<close>, as is a read beyond the end of a string or of the
  arguments of a format.
\<close>

unbundle bit_operations_syntax

section \<open>Floating point bytes\<close>

function int2fb_loop :: "32 word \<Rightarrow> nat \<Rightarrow> 32 word \<times> nat" where
  "int2fb_loop x e = (if 16 \<le> x then int2fb_loop (drop_bit 1 (x + 1)) (Suc e) else (x, e))"
  by auto

lemma unat_less: "x \<noteq> - 1 \<Longrightarrow> unat x + 1 < 2 ^ 32" for x :: "32 word"
proof -
  assume "x \<noteq> - 1"
  moreover have "unat (- 1 :: 32 word) = 2 ^ 32 - 1" by (simp add: unsigned_minus_1_eq_mask mask_eq_exp_minus_1)
  ultimately have "unat x \<noteq> 2 ^ 32 - 1" using word_unat_eq_iff by metis
  moreover have "unat x < 2 ^ 32" using unsigned_less [of x] by simp
  ultimately show "unat x + 1 < 2 ^ 32" by linarith
qed

lemma half_up: "x \<noteq> - 1 \<Longrightarrow> unat (drop_bit 1 (x + 1)) = (unat x + 1) div 2" for x :: "32 word"
proof -
  assume "x \<noteq> - 1"
  then have "unat (x + 1) = unat x + 1"
    using unat_less [of x] by (simp add: unat_word_ariths)
  then show "unat (drop_bit 1 (x + 1)) = (unat x + 1) div 2"
    by (simp add: drop_bit_eq_div unat_div)
qed

lemma half_up_max: "unat (drop_bit 1 (- 1 + 1 :: 32 word)) = 0"
  by simp

termination int2fb_loop
proof (relation "measure (\<lambda>(x, e). unat x)")
  fix x :: "32 word" and e :: nat
  assume x: "16 \<le> x"
  then have "16 \<le> unat x" by (simp add: word_le_nat_alt)
  then have "unat (drop_bit 1 (x + 1)) < unat x"
    using half_up [of x] half_up_max by (cases "x = - 1") auto
  then show "((drop_bit 1 (x + 1), Suc e), (x, e)) \<in> measure (\<lambda>(x, e). unat x)" by simp
qed simp

declare int2fb_loop.simps [simp del]

definition luaO_int2fb :: "32 word \<Rightarrow> int" where
  "luaO_int2fb x = (let (y, e) = int2fb_loop x 0 in
     if y < 8 then uint y else push_bit 3 (int e + 1) OR (uint y - 8))"

definition luaO_fb2int :: "int \<Rightarrow> int option" where
  "luaO_fb2int x = (let e = drop_bit 3 x AND 31 in
     if e = 0 then Some x
     else (let r = push_bit (nat (e - 1)) ((x AND 7) + 8) in if r < 2 ^ 31 then Some r else None))"

lemma int2fb_loop_result:
  "int2fb_loop x e = (y, e') \<Longrightarrow> x \<noteq> - 1 \<Longrightarrow>
   \<exists>k. e' = e + k \<and> unat y < 16 \<and> (0 < k \<longrightarrow> 8 \<le> unat y) \<and> (k = 0 \<longrightarrow> y = x)
     \<and> unat x \<le> unat y * 2 ^ k \<and> unat y * 2 ^ k < unat x + 2 ^ k \<and> (0 < k \<longrightarrow> 15 * 2 ^ (k - 1) < unat x)"
proof (induction x e rule: int2fb_loop.induct)
  case (1 x e)
  show ?case
  proof (cases "16 \<le> x")
    case True
    let ?h = "drop_bit 1 (x + 1)"
    have h: "unat ?h = (unat x + 1) div 2" using half_up 1(3) by simp
    have x: "16 \<le> unat x" using True by (simp add: word_le_nat_alt)
    have "unat ?h < 2 ^ 32 - 1" using h unat_less [OF 1(3)] by linarith
    moreover have "unat (- 1 :: 32 word) = 2 ^ 32 - 1" by (simp add: unsigned_minus_1_eq_mask mask_eq_exp_minus_1)
    ultimately have "?h \<noteq> - 1" by (metis nat_neq_iff)
    moreover have "int2fb_loop ?h (Suc e) = (y, e')" using 1(2) True by (simp add: int2fb_loop.simps [of x])
    ultimately obtain k where k: "e' = Suc e + k" "unat y < 16" "0 < k \<longrightarrow> 8 \<le> unat y" "k = 0 \<longrightarrow> y = ?h"
      "unat ?h \<le> unat y * 2 ^ k" "unat y * 2 ^ k < unat ?h + 2 ^ k" "0 < k \<longrightarrow> 15 * 2 ^ (k - 1) < unat ?h"
      using 1(1) [OF True] by blast
    have "8 \<le> unat y" using k(3,4) h x by (cases "k = 0") auto
    moreover have "unat x \<le> unat y * 2 ^ Suc k" using k(5) h by simp
    moreover have "unat y * 2 ^ Suc k < unat x + 2 ^ Suc k" using k(6) h by simp
    moreover have "15 * 2 ^ k < unat x" using k(7) h x by (cases k) auto
    ultimately show ?thesis using k by (intro exI [of _ "Suc k"]) simp
  next
    case False
    then have "unat x < 16" by (simp add: word_le_nat_alt)
    then show ?thesis using 1(2) False by (intro exI [of _ 0]) (simp add: int2fb_loop.simps [of x])
  qed
qed

lemma fb_bits:
  assumes "0 \<le> y" and "y < 8" and "e < 31"
  shows "push_bit 3 (int e + 1) OR y = 8 * (int e + 1) + y"
    and "drop_bit 3 (8 * (int e + 1) + y) AND 31 = int e + 1" and "(8 * (int e + 1) + y) AND 7 = y"
proof -
  have "take_bit 3 y = y" using assms by (simp add: take_bit_int_eq_self)
  then have low: "bit y n \<Longrightarrow> n < 3" for n using bit_take_bit_iff [of 3 y n] by simp
  have "push_bit 3 (int e + 1) OR y = push_bit 3 (int e + 1) + y"
    by (intro disjunctive_add [symmetric]) (auto simp: bit_push_bit_iff dest!: low)
  then show "push_bit 3 (int e + 1) OR y = 8 * (int e + 1) + y" by (simp add: push_bit_eq_mult)
  have "(8 * (int e + 1) + y) div 8 = int e + 1" using assms by simp
  then have d: "drop_bit 3 (8 * (int e + 1) + y) = int e + 1" by (simp add: drop_bit_eq_div)
  have m: "x AND 31 = x mod 32" "x AND 7 = x mod 8" for x :: int
    using take_bit_eq_mask [of 5 x] take_bit_eq_mask [of 3 x] by (simp_all add: take_bit_eq_mod mask_eq_exp_minus_1)
  show "drop_bit 3 (8 * (int e + 1) + y) AND 31 = int e + 1" using assms unfolding d m by simp
  show "(8 * (int e + 1) + y) AND 7 = y" using assms unfolding m by presburger
qed

lemma gap_int:
  fixes a n :: nat
  assumes "a \<le> n" and "7 * (n - a) \<le> a" and "a < 16 \<Longrightarrow> n = a"
  shows "int a \<le> int n \<and> 7 * (int n - int a) \<le> int a \<and> (a < 16 \<longrightarrow> int n = int a)"
  using assms by auto

text \<open>C34: The size of a table survives the one-byte encoding of the virtual machine's \<open>NEWTABLE\<close> instruction: for every
  size up to the largest one that fits, the decoded number is at least the size, at most a seventh larger, and
  equal to it below 16.\<close>

theorem fb_round_trip:
  assumes "unat x \<le> 15 * 2 ^ 27"
  shows "\<exists>r. luaO_fb2int (luaO_int2fb x) = Some r \<and> uint x \<le> r \<and> 7 * (r - uint x) \<le> uint x
    \<and> (unat x < 16 \<longrightarrow> r = uint x)"
proof -
  have max: "x \<noteq> - 1" using assms by (auto simp: unsigned_minus_1_eq_mask mask_eq_exp_minus_1)
  obtain y k where loop: "int2fb_loop x 0 = (y, k)" by (cases "int2fb_loop x 0")
  have y: "unat y < 16" "0 < k \<longrightarrow> 8 \<le> unat y" "k = 0 \<longrightarrow> y = x"
    "unat x \<le> unat y * 2 ^ k" "unat y * 2 ^ k < unat x + 2 ^ k" "0 < k \<longrightarrow> 15 * 2 ^ (k - 1) < unat x"
    using int2fb_loop_result [OF loop max] by auto
  show ?thesis
  proof (cases "y < 8")
    case True
    then have "unat y < 8" by (simp add: word_less_nat_alt)
    then have "k = 0" "y = x" using y by auto
    moreover have "drop_bit 3 (uint x) = 0"
    proof -
      have "unat x < 8" using \<open>unat y < 8\<close> \<open>y = x\<close> by simp
      then have "int (unat x) < 8" by linarith
      then show ?thesis by (simp add: drop_bit_eq_div)
    qed
    ultimately show ?thesis using True loop by (simp add: luaO_int2fb_def luaO_fb2int_def)
  next
    case False
    then have y8: "8 \<le> unat y" by (simp add: word_less_nat_alt)
    have "8 * 2 ^ k \<le> unat y * 2 ^ k" using y8 by simp
    then have k7: "7 * 2 ^ k < unat x" using y(5) by linarith
    have k: "k \<le> 27"
    proof (rule ccontr)
      assume "\<not> k \<le> 27"
      then have "(2 :: nat) ^ 27 \<le> 2 ^ (k - 1)" by (intro power_increasing) auto
      then show False using y(6) assms \<open>\<not> k \<le> 27\<close> by simp
    qed
    have "unat y * 2 ^ k \<le> 15 * 2 ^ 27"
      using y(1) k by (intro mult_mono power_increasing) auto
    then have bound: "unat y * 2 ^ k < 2 ^ 31" by simp
    let ?z = "uint y - 8"
    have u: "uint y = int (unat y)" "uint x = int (unat x)" by simp_all
    have z: "0 \<le> ?z" "?z < 8" "k < 31" unfolding u using y8 y(1) k by linarith+
    have fb: "luaO_int2fb x = 8 * (int k + 1) + ?z"
      using False loop fb_bits(1) [OF z] by (simp add: luaO_int2fb_def)
    have r: "push_bit k (uint y) = int (unat y * 2 ^ k)" by (simp add: push_bit_eq_mult)
    have "int (unat y * 2 ^ k) < int (2 ^ 31)" using bound by (simp only: of_nat_less_iff)
    then have lt: "int (unat y * 2 ^ k) < 2 ^ 31" by (simp only: of_nat_power of_nat_numeral)
    have dec: "luaO_fb2int (luaO_int2fb x) = Some (int (unat y * 2 ^ k))"
      unfolding fb luaO_fb2int_def using fb_bits(2,3) [OF z] r lt by (simp add: Let_def)
    have "7 * (unat y * 2 ^ k - unat x) \<le> unat x" using k7 y(5) by linarith
    moreover have "k = 0" if "unat x < 16"
    proof (rule ccontr)
      assume "k \<noteq> 0"
      then have "15 * 2 ^ (k - 1) < unat x" using y(6) by simp
      moreover have "(1 :: nat) \<le> 2 ^ (k - 1)" by simp
      ultimately show False using that by linarith
    qed
    ultimately have n: "7 * (unat y * 2 ^ k - unat x) \<le> unat x" "unat x < 16 \<Longrightarrow> unat y * 2 ^ k = unat x"
      using y(3) by auto
    define n where "n = unat y * 2 ^ k"
    have "unat x \<le> n" "7 * (n - unat x) \<le> unat x" "unat x < 16 \<Longrightarrow> n = unat x"
      using n y(4) by (simp_all add: n_def)
    then have "int (unat x) \<le> int n \<and> 7 * (int n - int (unat x)) \<le> int (unat x) \<and> (unat x < 16 \<longrightarrow> int n = int (unat x))"
      by (intro gap_int)
    then show ?thesis using dec unfolding u(2) n_def [symmetric] by blast
  qed
qed

theorem fb_round_trip_witness:
  "\<exists>r. luaO_fb2int (luaO_int2fb 1000) = Some r \<and> 1000 \<le> r \<and> 7 * (r - 1000) \<le> 1000"
  using fb_round_trip [of 1000] by auto

section \<open>Binary logarithm\<close>

definition log_2 :: "nat list" where
  "log_2 = [
    0,1,2,2,3,3,3,3,4,4,4,4,4,4,4,4,5,5,5,5,5,5,5,5,5,5,5,5,5,5,5,5,
    6,6,6,6,6,6,6,6,6,6,6,6,6,6,6,6,6,6,6,6,6,6,6,6,6,6,6,6,6,6,6,6,
    7,7,7,7,7,7,7,7,7,7,7,7,7,7,7,7,7,7,7,7,7,7,7,7,7,7,7,7,7,7,7,7,
    7,7,7,7,7,7,7,7,7,7,7,7,7,7,7,7,7,7,7,7,7,7,7,7,7,7,7,7,7,7,7,7,
    8,8,8,8,8,8,8,8,8,8,8,8,8,8,8,8,8,8,8,8,8,8,8,8,8,8,8,8,8,8,8,8,
    8,8,8,8,8,8,8,8,8,8,8,8,8,8,8,8,8,8,8,8,8,8,8,8,8,8,8,8,8,8,8,8,
    8,8,8,8,8,8,8,8,8,8,8,8,8,8,8,8,8,8,8,8,8,8,8,8,8,8,8,8,8,8,8,8,
    8,8,8,8,8,8,8,8,8,8,8,8,8,8,8,8,8,8,8,8,8,8,8,8,8,8,8,8,8,8,8,8]"

text \<open>\<open>unsigned int\<close> is read as a number below \<open>2 ^ 32\<close>; shifting right never leaves it.\<close>

fun log2_loop :: "int \<Rightarrow> nat \<Rightarrow> int" where
  "log2_loop l x = (if 256 \<le> x then log2_loop (l + 8) (x div 256) else l + int (log_2 ! x))"

declare log2_loop.simps [simp del]

definition luaO_log2 :: "32 word \<Rightarrow> int" where
  "luaO_log2 x = log2_loop (- 1) (unat x)"

definition ceillog2 :: "32 word \<Rightarrow> int" where
  "ceillog2 x = luaO_log2 (x - 1) + 1"

lemma log_2_blocks: "log_2 = [0, 1] @ replicate 2 2 @ replicate 4 3 @ replicate 8 4 @ replicate 16 5
    @ replicate 32 6 @ replicate 64 7 @ replicate 128 8"
  by (simp add: log_2_def numeral_eq_Suc)

lemma log_2_table: "0 < x \<Longrightarrow> x < 256 \<Longrightarrow> 1 \<le> log_2 ! x \<and> 2 ^ (log_2 ! x - 1) \<le> x \<and> x < 2 ^ (log_2 ! x)"
  unfolding log_2_blocks by (auto simp: nth_append nth_Cons split: nat.split)

lemma log2_loop_floor:
  "0 < x \<Longrightarrow> \<exists>k. log2_loop l x = l + 1 + int k \<and> 2 ^ k \<le> x \<and> x < 2 ^ Suc k"
proof (induction l x rule: log2_loop.induct)
  case (1 l x)
  show ?case
  proof (cases "256 \<le> x")
    case True
    then have "0 < x div 256" by auto
    from 1(1) [OF True this] obtain k where k: "log2_loop (l + 8) (x div 256) = l + 8 + 1 + int k"
      "2 ^ k \<le> x div 256" "x div 256 < 2 ^ Suc k" by blast
    have "256 * 2 ^ k \<le> x" using k(2) by (metis less_eq_div_iff_mult_less_eq mult.commute zero_less_numeral)
    moreover have "x < 256 * 2 ^ Suc k" using k(3) by (simp add: div_less_iff_less_mult mult.commute)
    ultimately show ?thesis using True k(1)
      by (intro exI [of _ "k + 8"]) (simp add: log2_loop.simps [of l x] power_add mult.commute)
  next
    case False
    then obtain m where "log_2 ! x = Suc m" "2 ^ m \<le> x" "x < 2 ^ Suc m"
      using log_2_table [of x] 1(2) by (cases "log_2 ! x") auto
    then show ?thesis using False by (intro exI [of _ m]) (simp add: log2_loop.simps [of l x])
  qed
qed

text \<open>The logarithm of the table is the integer part of the logarithm to base 2; for 0 it is -1.\<close>

theorem luaO_log2_floor: "x \<noteq> 0 \<Longrightarrow> 0 \<le> luaO_log2 x \<and> 2 ^ nat (luaO_log2 x) \<le> unat x \<and> unat x < 2 ^ Suc (nat (luaO_log2 x))"
  using log2_loop_floor [of "unat x" "- 1"] by (auto simp: luaO_log2_def unat_gt_0)

section \<open>Formatted strings\<close>

text \<open>
  The arguments of a format are a list; a conversion that finds no argument, or one of another type,
  reads memory that is none.  What \<open>sprintf\<close> makes of a pointer is the parameter \<open>ptr_str\<close>.  A format
  that ends with a lone percent sign is scanned beyond its end.
\<close>

datatype fmt_arg = ArgString "string option" | ArgInt int | ArgNumber double | ArgPointer ptr

fun luaO_pushvfstring :: "(ptr \<Rightarrow> string) \<Rightarrow> string \<Rightarrow> fmt_arg list \<Rightarrow> string option" where
  "luaO_pushvfstring ptr_str [] args = Some []"
| "luaO_pushvfstring ptr_str (c # cs) args =
    (if c \<noteq> CHR 0x25 then map_option (\<lambda>r. c # r) (luaO_pushvfstring ptr_str cs args)
     else (case cs of [] \<Rightarrow> None | d # ds \<Rightarrow>
       if d = CHR ''s'' then (case args of
           ArgString x # as \<Rightarrow> map_option (\<lambda>r. (case x of None \<Rightarrow> ''(null)'' | Some str \<Rightarrow> c_str str) @ r)
             (luaO_pushvfstring ptr_str ds as)
         | _ \<Rightarrow> None)
       else if d = CHR ''c'' then (case args of
           ArgInt n # as \<Rightarrow> map_option (\<lambda>r. c_str [char_of n] @ r) (luaO_pushvfstring ptr_str ds as)
         | _ \<Rightarrow> None)
       else if d = CHR ''d'' then (case args of
           ArgInt n # as \<Rightarrow> map_option (\<lambda>r. c_str (lua_number2str (Fin (of_int n))) @ r)
             (luaO_pushvfstring ptr_str ds as)
         | _ \<Rightarrow> None)
       else if d = CHR ''f'' then (case args of
           ArgNumber x # as \<Rightarrow> map_option (\<lambda>r. c_str (lua_number2str x) @ r) (luaO_pushvfstring ptr_str ds as)
         | _ \<Rightarrow> None)
       else if d = CHR ''p'' then (case args of
           ArgPointer p # as \<Rightarrow> map_option (\<lambda>r. c_str (ptr_str p) @ r) (luaO_pushvfstring ptr_str ds as)
         | _ \<Rightarrow> None)
       else if d = CHR 0x25 then map_option (\<lambda>r. CHR 0x25 # r) (luaO_pushvfstring ptr_str ds args)
       else map_option (\<lambda>r. CHR 0x25 # d # r) (luaO_pushvfstring ptr_str ds args)))"

lemma pushvfstring_text: "CHR 0x25 \<notin> set t \<Longrightarrow> luaO_pushvfstring ps (t @ f) args = map_option (\<lambda>r. t @ r) (luaO_pushvfstring ps f args)"
  by (induction t; cases "luaO_pushvfstring ps f args") auto

lemma pushvfstring_plain: "CHR 0x25 \<notin> set t \<Longrightarrow> luaO_pushvfstring ps t args = Some t"
  using pushvfstring_text [of t ps "[]" args] by simp

lemma pushvfstring_missing:
  "d \<in> {CHR ''s'', CHR ''c'', CHR ''d'', CHR ''f'', CHR ''p''} \<Longrightarrow> CHR 0x25 \<notin> set t \<Longrightarrow>
   luaO_pushvfstring ps (t @ CHR 0x25 # d # f) [] = None"
  by (subst pushvfstring_text) auto

section \<open>Names of chunks\<close>

text \<open>
  \<open>out\<close> has room for \<open>bufflen\<close> bytes with the terminator.  \<open>strcspn\<close> ends at a newline, a carriage return
  or the end of the source.
\<close>

definition luaO_chunkid :: "string \<Rightarrow> nat \<Rightarrow> string" where
  "luaO_chunkid source bufflen = (let src = c_str source in
     if src \<noteq> [] \<and> hd src = CHR ''='' then take (bufflen - 1) (tl src)
     else if src \<noteq> [] \<and> hd src = CHR ''@'' then
       (let n = bufflen - 8; l = length (tl src) in if l > n then ''...'' @ drop (l - n) (tl src) else tl src)
     else (let line = takeWhile (\<lambda>c. c \<noteq> CHR 0x0A \<and> c \<noteq> CHR 0x0D) src;
               len = min (length line) (bufflen - 17) in
       ''[string '' @ [CHR 0x22] @ (if len < length src then take len src @ ''...'' else src) @ [CHR 0x22, CHR '']'']))"

lemma chunkid_string_fits:
  fixes src :: string
  assumes "17 \<le> n"
  shows "length (''[string '' @ [CHR 0x22] @ (if min (length (takeWhile P src)) (n - 17) < length src
      then take (min (length (takeWhile P src)) (n - 17)) src @ ''...'' else src) @ [CHR 0x22, CHR '']'']) < n"
  using assms by (auto simp: min_def)

text \<open>C35: The printable name of a chunk always fits: for every source text and every buffer of at least 17 bytes
  the name and its terminator fit into the buffer, and the name is cut nowhere by a zero byte.\<close>

theorem chunkid_fits:
  assumes "17 \<le> bufflen"
  shows "length (luaO_chunkid source bufflen) < bufflen \<and> nul \<notin> set (luaO_chunkid source bufflen)"
proof -
  have nul: "nul \<notin> set (c_str source)" by simp
  have lit: "nul \<notin> set ''...''" "nul \<notin> set ''[string ''" "nul \<notin> set [CHR 0x22]" "nul \<notin> set [CHR 0x22, CHR '']'']"
    by (simp_all add: nul_def)
  let ?src = "c_str source"
  let ?line = "takeWhile (\<lambda>c. c \<noteq> CHR 0x0A \<and> c \<noteq> CHR 0x0D) ?src"
  let ?len = "min (length ?line) (bufflen - 17)"
  let ?text = "''[string '' @ [CHR 0x22] @ (if ?len < length ?src then take ?len ?src @ ''...'' else ?src)
      @ [CHR 0x22, CHR '']'']"
  have body: "length ?text < bufflen \<and> nul \<notin> set ?text"
    using chunkid_string_fits [OF assms] nul lit by (auto dest: in_set_takeD)
  have "nul \<notin> set (tl ?src)" using nul by (cases ?src) auto
  then have tail: "nul \<notin> set (take n (tl ?src))" "nul \<notin> set (drop n (tl ?src))" for n
    by (auto dest: in_set_takeD in_set_dropD)
  show ?thesis
    unfolding luaO_chunkid_def Let_def using body tail lit(1) assms \<open>nul \<notin> set (tl ?src)\<close>
    by (auto split: if_split)
qed

theorem chunkid_fits_witness:
  "length (luaO_chunkid ''@/srv/mods/deathmatch/resources/a-resource-with-a-long-name/server/main.lua'' 60) < 60
   \<and> nul \<notin> set (luaO_chunkid ''@/srv/mods/deathmatch/resources/a-resource-with-a-long-name/server/main.lua'' 60)"
  by (rule chunkid_fits) simp

end
