(* ===== verification/LuaTable.thy ===== *)
theory LuaTable
  imports LuaObject "HOL-Library.Monad_Syntax"
begin

text \<open>
  The representation of Lua tables (\<open>ltable.c\<close>): an array part for the keys 1 to \<open>sizearray\<close> and a
  vector of nodes, a scatter table with chains in the nodes themselves and Brent's variation: a node
  that is not in its main position gives way to a key that is.  A node is its index in the vector,
  \<open>NULL\<close> is \<open>None\<close>; the shared \<open>dummynode\<close> is a vector of one empty node with \<open>isdummy\<close> set.
  A pointer to a value of the table is a \<open>tslot\<close>.  Strings are interned, so equal contents are equal
  pointers; dead keys are made by the collector only and do not occur here.  A function that runs into
  a null pointer or does not return is \<open>None\<close> or \<open>Undef\<close>.
\<close>

section \<open>Nodes and tables\<close>

record Node =
  i_val :: TValue
  i_key :: TValue
  i_next :: "nat option"

record TableRep =
  flags :: nat
  tmetatable :: ptr
  array :: "TValue list"
  node :: "Node list"
  isdummy :: bool
  lastfree :: int

datatype tslot = ArraySlot nat | NodeSlot nat

type_synonym 'a tprog = "(string, TableRep, 'a) prog"

abbreviation sizearray :: "TableRep \<Rightarrow> nat" where "sizearray t \<equiv> length (array t)"
abbreviation sizenode :: "TableRep \<Rightarrow> nat" where "sizenode t \<equiv> length (node t)"

definition MAXBITS :: nat where "MAXBITS = 26"
definition MAXASIZE :: nat where "MAXASIZE = 2 ^ MAXBITS"

definition empty_node :: Node where
  "empty_node = \<lparr>i_val = TNil, i_key = TNil, i_next = None\<rparr>"

section \<open>Main positions\<close>

text \<open>
  The bits of a \<open>double\<close> in the interchange format of IEEE 754.  The collector and the functions
  above the tables only ever see the addresses of objects, which are the pointers of the model.
\<close>

definition double_bits :: "double \<Rightarrow> nat" where
  "double_bits d = (case d of
     PosInf \<Rightarrow> 0x7FF0000000000000
   | NegInf \<Rightarrow> 0xFFF0000000000000
   | NaN \<Rightarrow> 0x7FF8000000000000
   | Fin r \<Rightarrow> (let a = \<bar>r\<bar>; e = rat_exp 2 a; sgnbit = (if r < 0 then 2 ^ 63 else 0) in
       if r = 0 then 0
       else if e < - 1022 then sgnbit + nat \<lfloor>a * 2 ^ 1074\<rfloor>
       else sgnbit + nat (e + 1023) * 2 ^ 52 + nat \<lfloor>(a / pow_int 2 e - 1) * 2 ^ 52\<rfloor>))"

function hash_loop :: "string \<Rightarrow> nat \<Rightarrow> nat \<Rightarrow> 32 word \<Rightarrow> 32 word" where
  "hash_loop str step l1 h = (if 0 < step \<and> step \<le> l1 then
     hash_loop str step (l1 - step)
       (h XOR (push_bit 5 h + drop_bit 2 h + of_nat (of_char (str ! (l1 - 1)) :: nat)))
   else h)"
  by auto
termination by (relation "measure (\<lambda>(str, step, l1, h). l1)") auto

declare hash_loop.simps [simp del]

definition str_hash :: "string \<Rightarrow> 32 word" where
  "str_hash str = (let l = length str in hash_loop str (drop_bit 5 l + 1) l (of_nat l))"

definition hashpow2 :: "nat \<Rightarrow> nat \<Rightarrow> nat" where
  "hashpow2 sz n = n AND (sz - 1)"

definition hashmod :: "nat \<Rightarrow> nat \<Rightarrow> nat" where
  "hashmod sz n = n mod ((sz - 1) OR 1)"

definition hashpointer :: "nat \<Rightarrow> ptr \<Rightarrow> nat" where
  "hashpointer sz p = hashmod sz (p mod 2 ^ 32)"

definition hashnum :: "nat \<Rightarrow> double \<Rightarrow> nat" where
  "hashnum sz n = (if luai_numeq n (Fin 0) then 0
     else (let b = double_bits n in hashmod sz ((b mod 2 ^ 32 + b div 2 ^ 32) mod 2 ^ 32)))"

definition mainposition :: "nat \<Rightarrow> TValue \<Rightarrow> nat" where
  "mainposition sz key = (case key of
     TNumber n \<Rightarrow> hashnum sz n
   | TString str \<Rightarrow> hashpow2 sz (unat (str_hash str))
   | TBoolean b \<Rightarrow> hashpow2 sz (of_bool b)
   | TLightUserData p \<Rightarrow> hashpointer sz p
   | TTable p \<Rightarrow> hashpointer sz p
   | TFunction p \<Rightarrow> hashpointer sz p
   | TUserData p \<Rightarrow> hashpointer sz p
   | TThread p \<Rightarrow> hashpointer sz p
   | TNil \<Rightarrow> hashpointer sz 0)"

text \<open>
  \<open>lua_number2int\<close>: the conversion instruction of the processor answers \<open>INT_MIN\<close> for a number that
  does not fit, so that the comparison that follows fails.
\<close>

definition lua_number2int :: "double \<Rightarrow> int" where
  "lua_number2int n = (case to_c_int n of Some k \<Rightarrow> k | None \<Rightarrow> - (2 ^ 31))"

definition cast_num :: "int \<Rightarrow> double" where
  "cast_num k = Fin (of_int k)"

definition arrayindex :: "TValue \<Rightarrow> int" where
  "arrayindex key = (case key of
     TNumber n \<Rightarrow> (let k = lua_number2int n in if luai_numeq (cast_num k) n then k else - 1)
   | _ \<Rightarrow> - 1)"

section \<open>Lookup\<close>

partial_function (option) chain_find :: "(Node \<Rightarrow> bool) \<Rightarrow> Node list \<Rightarrow> nat \<Rightarrow> nat option option" where
  "chain_find P ns i = (if i \<ge> length ns then None
     else if P (ns ! i) then Some (Some i)
     else (case i_next (ns ! i) of None \<Rightarrow> Some None | Some j \<Rightarrow> chain_find P ns j))"

declare chain_find.simps [code]

definition luaH_getnum :: "TableRep \<Rightarrow> int \<Rightarrow> tslot option option" where
  "luaH_getnum t key = (if (key - 1) mod 2 ^ 32 < int (sizearray t) then Some (Some (ArraySlot (nat (key - 1))))
     else map_option (map_option NodeSlot)
       (chain_find (\<lambda>n. case i_key n of TNumber x \<Rightarrow> luai_numeq x (cast_num key) | _ \<Rightarrow> False)
          (node t) (hashnum (sizenode t) (cast_num key))))"

definition luaH_getstr :: "TableRep \<Rightarrow> string \<Rightarrow> tslot option option" where
  "luaH_getstr t str = map_option (map_option NodeSlot)
     (chain_find (\<lambda>n. i_key n = TString str) (node t) (hashpow2 (sizenode t) (unat (str_hash str))))"

definition get_any :: "TableRep \<Rightarrow> TValue \<Rightarrow> tslot option option" where
  "get_any t key = map_option (map_option NodeSlot)
     (chain_find (\<lambda>n. luaO_rawequalObj (i_key n) key) (node t) (mainposition (sizenode t) key))"

definition tbl_get :: "TableRep \<Rightarrow> TValue \<Rightarrow> tslot option option" where
  "tbl_get t key = (case key of
     TNil \<Rightarrow> Some None
   | TString str \<Rightarrow> luaH_getstr t str
   | TNumber n \<Rightarrow> (let k = lua_number2int n in
       if luai_numeq (cast_num k) n then luaH_getnum t k else get_any t key)
   | _ \<Rightarrow> get_any t key)"

definition slot_val :: "TableRep \<Rightarrow> tslot \<Rightarrow> TValue" where
  "slot_val t a = (case a of ArraySlot i \<Rightarrow> array t ! i | NodeSlot i \<Rightarrow> i_val (node t ! i))"

definition read_slot :: "TableRep \<Rightarrow> tslot option \<Rightarrow> TValue" where
  "read_slot t p = (case p of None \<Rightarrow> TNil | Some a \<Rightarrow> slot_val t a)"

definition write_val :: "tslot \<Rightarrow> TValue \<Rightarrow> unit tprog" where
  [prog_defs]: "write_val a v = modify (\<lambda>t. case a of
     ArraySlot i \<Rightarrow> t\<lparr>array := (array t)[i := v]\<rparr>
   | NodeSlot i \<Rightarrow> t\<lparr>node := (node t)[i := (node t ! i)\<lparr>i_val := v\<rparr>]\<rparr>)"

section \<open>Counting keys\<close>

text \<open>The array \<open>nums\<close> counts, for each exponent, the integer keys above the half of that power of two.\<close>

definition countint :: "TValue \<Rightarrow> nat list \<Rightarrow> nat \<times> nat list" where
  "countint key nums = (let k = arrayindex key in
     if 0 < k \<and> k \<le> int MAXASIZE then
       (let b = nat (ceillog2 (of_int k)) in (1, nums[b := nums ! b + 1]))
     else (0, nums))"

function count_slice :: "TValue list \<Rightarrow> nat \<Rightarrow> nat \<Rightarrow> nat \<Rightarrow> nat" where
  "count_slice arr i limit lc = (if i \<le> limit then
     count_slice arr (i + 1) limit (if arr ! (i - 1) \<noteq> TNil then lc + 1 else lc) else lc)"
  by auto
termination by (relation "measure (\<lambda>(arr, i, limit, lc). limit + 1 - i)") auto

declare count_slice.simps [simp del]

function numusearray_loop :: "TValue list \<Rightarrow> nat \<Rightarrow> nat \<Rightarrow> nat \<Rightarrow> nat list \<Rightarrow> nat \<times> nat list" where
  "numusearray_loop arr lg i ause nums = (if lg \<le> MAXBITS then
     (let ttlg = 2 ^ lg; limit = (if ttlg > length arr then length arr else ttlg) in
      if ttlg > length arr \<and> i > limit then (ause, nums)
      else (let lc = count_slice arr i limit 0 in
        numusearray_loop arr (lg + 1) (max i (limit + 1)) (ause + lc) (nums[lg := nums ! lg + lc])))
   else (ause, nums))"
  by auto
termination by (relation "measure (\<lambda>(arr, lg, i, ause, nums). Suc MAXBITS - lg)") auto

declare numusearray_loop.simps [simp del]

definition numusearray :: "TableRep \<Rightarrow> nat list \<Rightarrow> nat \<times> nat list" where
  "numusearray t nums = numusearray_loop (array t) 0 1 0 nums"

primrec numusehash_loop :: "Node list \<Rightarrow> nat \<Rightarrow> nat \<Rightarrow> nat \<Rightarrow> nat list \<Rightarrow> nat \<times> nat \<times> nat list" where
  "numusehash_loop ns 0 totaluse ause nums = (totaluse, ause, nums)"
| "numusehash_loop ns (Suc i) totaluse ause nums =
     (if i_val (ns ! i) \<noteq> TNil then
        (case countint (i_key (ns ! i)) nums of (c, nums') \<Rightarrow> numusehash_loop ns i (totaluse + 1) (ause + c) nums')
      else numusehash_loop ns i totaluse ause nums)"

definition numusehash :: "TableRep \<Rightarrow> nat list \<Rightarrow> nat \<times> nat \<times> nat list" where
  "numusehash t nums = numusehash_loop (node t) (sizenode t) 0 0 nums"

text \<open>\<open>computesizes\<close> returns \<open>na\<close> and the new \<open>narray\<close>; \<open>twotoi\<close> is \<open>2 ^ i\<close>.\<close>

function computesizes_loop :: "nat list \<Rightarrow> nat \<Rightarrow> nat \<Rightarrow> nat \<Rightarrow> nat \<Rightarrow> nat \<Rightarrow> (nat \<times> nat) option" where
  "computesizes_loop nums narray i a na n = (if 2 ^ i div 2 < narray then
     (if i \<ge> length nums then None
      else (let a' = (if nums ! i > 0 then a + nums ! i else a);
                better = nums ! i > 0 \<and> a' > 2 ^ i div 2;
                na' = (if better then a' else na); n' = (if better then 2 ^ i else n) in
        if a' = narray then Some (na', n') else computesizes_loop nums narray (i + 1) a' na' n'))
   else Some (na, n))"
  by auto
termination by (relation "measure (\<lambda>(nums, narray, i, a, na, n). length nums - i)") auto

declare computesizes_loop.simps [simp del]

definition computesizes :: "nat list \<Rightarrow> nat \<Rightarrow> (nat \<times> nat) option" where
  "computesizes nums narray = computesizes_loop nums narray 0 0 0 0"

definition rehash_sizes :: "TValue \<Rightarrow> TableRep \<Rightarrow> (nat \<times> nat) option" where
  "rehash_sizes ek t = (
     let (ause, nums1) = numusearray t (replicate (MAXBITS + 1) 0);
         (hashuse, hause, nums2) = numusehash t nums1;
         (c, nums3) = countint ek nums2;
         totaluse = ause + hashuse + 1
     in map_option (\<lambda>(na, nasize). (nasize, totaluse - na)) (computesizes nums3 (ause + hause + c)))"

section \<open>Sizes\<close>

definition setarrayvector :: "nat \<Rightarrow> unit tprog" where
  [prog_defs]: "setarrayvector sz = modify (\<lambda>t. t\<lparr>array := take sz (array t) @ replicate (sz - sizearray t) TNil\<rparr>)"

definition setnodevector :: "nat \<Rightarrow> unit tprog" where
  [prog_defs]: "setnodevector sz = (
     if sz = 0 then modify (\<lambda>t. t\<lparr>node := [empty_node], isdummy := True, lastfree := 0\<rparr>)
     else (let lsize = ceillog2 (of_nat sz) in
       if lsize > int MAXBITS then throw ''table overflow''
       else modify (\<lambda>t. t\<lparr>node := replicate (2 ^ nat lsize) empty_node, isdummy := False,
                          lastfree := 2 ^ nat lsize\<rparr>)))"

section \<open>Insertion\<close>

text \<open>
  \<open>newkey\<close> calls \<open>rehash\<close>, which inserts all keys again with \<open>luaH_set\<close>, which calls \<open>newkey\<close>: the
  functions between take the \<open>newkey\<close> they call as an argument, and \<open>newkey\<close> counts the depth of the
  recursion down.  Depth 2 is enough, for a table that has just been resized has room.
\<close>

definition tbl_set_by :: "(TValue \<Rightarrow> tslot tprog) \<Rightarrow> TValue \<Rightarrow> tslot tprog" where
  "tbl_set_by nk key = bnd (gets (\<lambda>t. tbl_get t key)) (\<lambda>r. bnd (defined r) (\<lambda>p.
     andThen (modify (\<lambda>t. t\<lparr>flags := 0\<rparr>))
     (case p of Some a \<Rightarrow> ret a
      | None \<Rightarrow> if key = TNil then throw ''table index is nil''
          else if key = TNumber NaN then throw ''table index is NaN''
          else nk key)))"

definition luaH_setnum_by :: "(TValue \<Rightarrow> tslot tprog) \<Rightarrow> int \<Rightarrow> tslot tprog" where
  "luaH_setnum_by nk key = bnd (gets (\<lambda>t. luaH_getnum t key)) (\<lambda>r. bnd (defined r) (\<lambda>p.
     case p of Some a \<Rightarrow> ret a | None \<Rightarrow> nk (TNumber (cast_num key))))"

definition resize :: "(TValue \<Rightarrow> tslot tprog) \<Rightarrow> nat \<Rightarrow> nat \<Rightarrow> unit tprog" where
  "resize nk nasize nhsize = bnd (gets (\<lambda>t. (array t, node t))) (\<lambda>(arr, nold).
     andThen (whenever (length arr < nasize) (setarrayvector nasize))
    (andThen (setnodevector nhsize)
    (andThen (whenever (nasize < length arr)
       (andThen (modify (\<lambda>t. t\<lparr>array := take nasize (array t)\<rparr>))
         (forEach [nasize..<length arr] (\<lambda>i. whenever (arr ! i \<noteq> TNil)
            (bnd (luaH_setnum_by nk (int i + 1)) (\<lambda>a. write_val a (arr ! i)))))))
    (forEach (rev [0..<length nold]) (\<lambda>i. whenever (i_val (nold ! i) \<noteq> TNil)
       (bnd (tbl_set_by nk (i_key (nold ! i))) (\<lambda>a. write_val a (i_val (nold ! i)))))))))"

definition rehash :: "(TValue \<Rightarrow> tslot tprog) \<Rightarrow> TValue \<Rightarrow> unit tprog" where
  "rehash nk ek = bnd (gets (rehash_sizes ek)) (\<lambda>r. bnd (defined r) (\<lambda>(nasize, nhsize). resize nk nasize nhsize))"

function free_loop :: "Node list \<Rightarrow> int \<Rightarrow> nat option \<times> int" where
  "free_loop ns l = (if l > 0 then
     (if i_key (ns ! nat (l - 1)) = TNil then (Some (nat (l - 1)), l - 1) else free_loop ns (l - 1))
   else (None, l - 1))"
  by auto
termination by (relation "measure (\<lambda>(ns, l). nat l)") auto

declare free_loop.simps [simp del]

definition getfreepos :: "nat option tprog" where
  "getfreepos = bnd (gets (\<lambda>t. free_loop (node t) (lastfree t))) (\<lambda>(r, l).
     andThen (modify (\<lambda>t. t\<lparr>lastfree := l\<rparr>)) (ret r))"

partial_function (option) find_previous :: "Node list \<Rightarrow> nat \<Rightarrow> nat \<Rightarrow> nat option" where
  "find_previous ns mp othern = (if othern \<ge> length ns then None
     else (case i_next (ns ! othern) of None \<Rightarrow> None
       | Some j \<Rightarrow> if j = mp then Some othern else find_previous ns mp j))"

declare find_previous.simps [code]

definition set_key :: "nat \<Rightarrow> TValue \<Rightarrow> Node list \<Rightarrow> Node list" where
  "set_key i key ns = ns[i := (ns ! i)\<lparr>i_key := key\<rparr>]"

definition set_next :: "nat \<Rightarrow> nat option \<Rightarrow> Node list \<Rightarrow> Node list" where
  "set_next i p ns = ns[i := (ns ! i)\<lparr>i_next := p\<rparr>]"

definition move_node :: "nat \<Rightarrow> nat \<Rightarrow> nat \<Rightarrow> Node list \<Rightarrow> Node list" where
  "move_node prev mp n ns = (let ns1 = set_next prev (Some n) ns; ns2 = ns1[n := ns1 ! mp];
     ns3 = set_next mp None ns2 in ns3[mp := (ns3 ! mp)\<lparr>i_val := TNil\<rparr>])"

definition chain_node :: "nat \<Rightarrow> nat \<Rightarrow> Node list \<Rightarrow> Node list" where
  "chain_node mp n ns = (let ns1 = set_next n (i_next (ns ! mp)) ns in set_next mp (Some n) ns1)"

definition put_key :: "nat \<Rightarrow> TValue \<Rightarrow> tslot tprog" where
  "put_key i key = andThen (modify (\<lambda>t. t\<lparr>node := set_key i key (node t)\<rparr>)) (ret (NodeSlot i))"

primrec newkey :: "nat \<Rightarrow> TValue \<Rightarrow> tslot tprog" where
  "newkey 0 key = undef"
| "newkey (Suc depth) key = bnd (gets (\<lambda>t. mainposition (sizenode t) key)) (\<lambda>mp.
     bnd (gets (\<lambda>t. i_val (node t ! mp) \<noteq> TNil \<or> isdummy t)) (\<lambda>taken.
     if taken then bnd getfreepos (\<lambda>free. case free of
         None \<Rightarrow> andThen (rehash (newkey depth) key) (tbl_set_by (newkey depth) key)
       | Some n \<Rightarrow> bnd (gets (\<lambda>t. mainposition (sizenode t) (i_key (node t ! mp)))) (\<lambda>othern.
           if othern \<noteq> mp then
             bnd (gets (\<lambda>t. find_previous (node t) mp othern)) (\<lambda>r. bnd (defined r) (\<lambda>prev.
               andThen (modify (\<lambda>t. t\<lparr>node := move_node prev mp n (node t)\<rparr>)) (put_key mp key)))
           else andThen (modify (\<lambda>t. t\<lparr>node := chain_node mp n (node t)\<rparr>)) (put_key n key)))
     else put_key mp key))"

definition tbl_set :: "TValue \<Rightarrow> tslot tprog" where
  "tbl_set = tbl_set_by (newkey 2)"

definition luaH_setnum :: "int \<Rightarrow> tslot tprog" where
  "luaH_setnum = luaH_setnum_by (newkey 2)"

definition luaH_setstr :: "string \<Rightarrow> tslot tprog" where
  "luaH_setstr str = bnd (gets (\<lambda>t. luaH_getstr t str)) (\<lambda>r. bnd (defined r) (\<lambda>p.
     case p of Some a \<Rightarrow> ret a | None \<Rightarrow> newkey 2 (TString str)))"

definition luaH_resizearray :: "nat \<Rightarrow> unit tprog" where
  "luaH_resizearray nasize = bnd (gets (\<lambda>t. if isdummy t then 0 else sizenode t)) (resize (newkey 2) nasize)"

definition luaH_new :: "nat \<Rightarrow> nat \<Rightarrow> (string, unit, TableRep) outcome" where
  "luaH_new narray nhash = andThen (setarrayvector narray) (setnodevector nhash)
     \<lparr>flags = 255, tmetatable = 0, array = [], node = [empty_node], isdummy = True, lastfree = 0\<rparr>"

section \<open>Traversal\<close>

definition tbl_findindex :: "TableRep \<Rightarrow> TValue \<Rightarrow> (string + int) option" where
  "tbl_findindex t key = (if key = TNil then Some (Inr (- 1))
     else (let i = arrayindex key in
       if 0 < i \<and> i \<le> int (sizearray t) then Some (Inr (i - 1))
       else map_option (\<lambda>r. case r of Some n \<Rightarrow> Inr (int n + int (sizearray t))
              | None \<Rightarrow> Inl (''invalid key to '' @ quoted ''next''))
         (chain_find (\<lambda>n. luaO_rawequalObj (i_key n) key) (node t) (mainposition (sizenode t) key))))"

function next_array :: "TValue list \<Rightarrow> nat \<Rightarrow> nat + (TValue \<times> TValue)" where
  "next_array arr i = (if i < length arr then
     (if arr ! i \<noteq> TNil then Inr (TNumber (cast_num (int i + 1)), arr ! i) else next_array arr (i + 1))
   else Inl i)"
  by auto
termination by (relation "measure (\<lambda>(arr, i). length arr - i)") auto

declare next_array.simps [simp del]

function next_node :: "Node list \<Rightarrow> nat \<Rightarrow> (TValue \<times> TValue) option" where
  "next_node ns i = (if i < length ns then
     (if i_val (ns ! i) \<noteq> TNil then Some (i_key (ns ! i), i_val (ns ! i)) else next_node ns (i + 1))
   else None)"
  by auto
termination by (relation "measure (\<lambda>(ns, i). length ns - i)") auto

declare next_node.simps [simp del]

definition tbl_next :: "TableRep \<Rightarrow> TValue \<Rightarrow> (string + (TValue \<times> TValue) option) option" where
  "tbl_next t key = map_option (\<lambda>r. case r of Inl e \<Rightarrow> Inl e
     | Inr i \<Rightarrow> Inr (case next_array (array t) (nat (i + 1)) of
         Inr e \<Rightarrow> Some e | Inl j \<Rightarrow> next_node (node t) (j - sizearray t))) (tbl_findindex t key)"

section \<open>Borders\<close>

function array_border :: "TValue list \<Rightarrow> nat \<Rightarrow> nat \<Rightarrow> nat" where
  "array_border arr i j = (if j - i > 1 then
     (let m = (i + j) div 2 in if arr ! (m - 1) = TNil then array_border arr i m else array_border arr m j)
   else i)"
  by auto
termination by (relation "measure (\<lambda>(arr, i, j). j - i)") auto

declare array_border.simps [simp del]

definition num_value :: "TableRep \<Rightarrow> nat \<Rightarrow> TValue option" where
  "num_value t j = map_option (read_slot t) (luaH_getnum t (int j))"

partial_function (option) linear_search :: "TableRep \<Rightarrow> nat \<Rightarrow> nat option" where
  "linear_search t i = (case num_value t i of None \<Rightarrow> None
     | Some v \<Rightarrow> if v = TNil then Some (i - 1) else linear_search t (i + 1))"

declare linear_search.simps [code]

partial_function (option) binary_search :: "TableRep \<Rightarrow> nat \<Rightarrow> nat \<Rightarrow> nat option" where
  "binary_search t i j = (if j - i > 1 then
     (case num_value t ((i + j) div 2) of None \<Rightarrow> None
      | Some v \<Rightarrow> if v = TNil then binary_search t i ((i + j) div 2) else binary_search t ((i + j) div 2) j)
   else Some i)"

declare binary_search.simps [code]

partial_function (option) unbound_loop :: "TableRep \<Rightarrow> nat \<Rightarrow> nat \<Rightarrow> nat option" where
  "unbound_loop t i j = (case num_value t j of None \<Rightarrow> None
     | Some v \<Rightarrow> if v = TNil then binary_search t i j
         else if j * 2 > 2 ^ 31 - 1 then linear_search t 1 else unbound_loop t j (j * 2))"

declare unbound_loop.simps [code]

definition unbound_search :: "TableRep \<Rightarrow> nat \<Rightarrow> nat option" where
  "unbound_search t j = unbound_loop t j (j + 1)"

definition tbl_getn :: "TableRep \<Rightarrow> nat option" where
  "tbl_getn t = (let j = sizearray t in
     if j > 0 \<and> array t ! (j - 1) = TNil then Some (array_border (array t) 0 j)
     else if isdummy t then Some j
     else unbound_search t j)"

end
