(* ===== verification/LuaNodes.thy ===== *)
theory LuaNodes
  imports LuaTable
begin

text \<open>
  The node vector of a table on its own: chains of nodes, the invariant that keeps every key on the chain
  of its main position, and that each of the three ways of \<open>newkey\<close> to make room for a key (an empty main
  position, a free node chained behind it, the colliding node moved away) preserves the invariant and
  the pairs of the table.  Nothing here depends on the hash function: the position of a key is the
  argument \<open>pos\<close>.
\<close>

section \<open>Chains\<close>

fun chain :: "nat option list \<Rightarrow> nat option \<Rightarrow> nat list \<Rightarrow> bool" where
  "chain nx p [] \<longleftrightarrow> p = None"
| "chain nx p (i # is) \<longleftrightarrow> p = Some i \<and> i < length nx \<and> chain nx (nx ! i) is"

lemma chain_None [simp]: "chain nx None xs \<longleftrightarrow> xs = []"
  by (cases xs) auto

lemma chain_Some: "chain nx (Some i) xs \<longleftrightarrow> (\<exists>ys. xs = i # ys \<and> i < length nx \<and> chain nx (nx ! i) ys)"
  by (cases xs) auto

lemma chain_unique: "chain nx p xs \<Longrightarrow> chain nx p ys \<Longrightarrow> xs = ys"
  by (induction xs arbitrary: p ys) (auto simp: chain_Some)

lemma chain_suffix: "chain nx p (xs @ i # ys) \<Longrightarrow> chain nx (Some i) (i # ys)"
  by (induction xs arbitrary: p) auto

lemma chain_distinct: "chain nx p xs \<Longrightarrow> distinct xs"
proof (induction xs arbitrary: p)
  case (Cons i xs)
  have "i \<notin> set xs"
  proof
    assume "i \<in> set xs"
    then obtain us vs where "xs = us @ i # vs" by (meson split_list)
    with Cons.prems have "chain nx (Some i) (i # vs)" and "chain nx (Some i) (i # us @ i # vs)"
      using chain_suffix [of nx p "i # us" i vs] by auto
    then have "i # vs = i # us @ i # vs" by (rule chain_unique)
    then show False by simp
  qed
  with Cons show ?case by auto
qed simp

lemma chain_less: "chain nx p xs \<Longrightarrow> i \<in> set xs \<Longrightarrow> i < length nx"
  by (induction xs arbitrary: p) auto

text \<open>A node is chained behind another, or takes the place of another.\<close>

definition behind :: "nat \<Rightarrow> nat \<Rightarrow> nat list \<Rightarrow> nat list" where
  "behind mp n xs = concat (map (\<lambda>x. if x = mp then [mp, n] else [x]) xs)"

lemma set_behind: "set xs \<subseteq> set (behind mp n xs)" "mp \<in> set xs \<Longrightarrow> n \<in> set (behind mp n xs)"
  by (auto simp: behind_def)

lemma chain_behind:
  "chain nx p xs \<Longrightarrow> n < length nx \<Longrightarrow> mp < length nx \<Longrightarrow> n \<noteq> mp \<Longrightarrow> n \<notin> set xs \<Longrightarrow>
   chain (nx[n := nx ! mp, mp := Some n]) p (behind mp n xs)"
  by (induction xs arbitrary: p) (auto simp: behind_def nth_list_update)

definition instead :: "nat \<Rightarrow> nat \<Rightarrow> nat \<Rightarrow> nat" where
  "instead mp n x = (if x = mp then n else x)"

lemma chain_instead:
  assumes "prev < length nx" "n < length nx" "mp < length nx" "nx ! prev = Some mp"
    and only: "\<forall>j < length nx. nx ! j = Some mp \<longrightarrow> j = prev" and ne: "n \<noteq> mp" "prev \<noteq> mp" "n \<noteq> prev"
  shows "chain nx p xs \<Longrightarrow> n \<notin> set xs \<Longrightarrow>
    chain (nx[prev := Some n, n := nx ! mp, mp := None]) (map_option (instead mp n) p) (map (instead mp n) xs)"
proof (induction xs arbitrary: p)
  case (Cons i xs)
  let ?nx = "nx[prev := Some n, n := nx ! mp, mp := None]"
  from Cons.prems have i: "p = Some i" "i < length nx" "i \<noteq> n" and tl: "chain nx (nx ! i) xs" "n \<notin> set xs" by auto
  have self: "nx ! mp \<noteq> Some mp" using only ne assms(3) by metis
  have "?nx ! instead mp n i = map_option (instead mp n) (nx ! i)"
  proof (cases "i = mp")
    case True
    have "?nx ! n = nx ! mp" using assms(2) ne by simp
    with True self show ?thesis by (cases "nx ! mp") (auto simp: instead_def)
  next
    case False
    then have "?nx ! i = (if i = prev then Some n else nx ! i)" using i assms(1) by (simp add: nth_list_update)
    moreover have "map_option (instead mp n) (nx ! i) = nx ! i" if "i \<noteq> prev"
      using only i(2) that by (cases "nx ! i") (auto simp: instead_def)
    ultimately show ?thesis using False assms(4) by (simp add: instead_def)
  qed
  moreover have "instead mp n i < length nx" using i(2) assms(2) by (simp add: instead_def)
  ultimately show ?case using Cons.IH [OF tl] i by simp
qed simp

section \<open>The invariant of the node vector\<close>

text \<open>
  The links, keys and values of the nodes as three lists.  Every chain ends; no two nodes have the same
  successor; a node without a key is in no chain and without a value; a node with a key is on the chain
  that starts at the main position of the key, and the node there is itself in its main position; no
  key occurs twice.
\<close>

definition chains_end :: "nat option list \<Rightarrow> bool" where
  "chains_end nx \<longleftrightarrow> (\<forall>i < length nx. \<exists>xs. chain nx (Some i) xs)"

definition one_pred :: "nat option list \<Rightarrow> bool" where
  "one_pred nx \<longleftrightarrow> (\<forall>i < length nx. \<forall>j < length nx. nx ! i = nx ! j \<longrightarrow> nx ! i \<noteq> None \<longrightarrow> i = j)"

definition free_alone :: "nat option list \<Rightarrow> TValue list \<Rightarrow> TValue list \<Rightarrow> bool" where
  "free_alone nx ks vs \<longleftrightarrow> (\<forall>i < length nx. ks ! i = TNil \<longrightarrow>
     vs ! i = TNil \<and> nx ! i = None \<and> (\<forall>j < length nx. nx ! j \<noteq> Some i))"

definition home :: "(TValue \<Rightarrow> nat) \<Rightarrow> nat option list \<Rightarrow> TValue list \<Rightarrow> nat \<Rightarrow> bool" where
  "home pos nx ks i \<longleftrightarrow> (let q = pos (ks ! i) in
     q < length nx \<and> (\<exists>xs. chain nx (Some q) xs \<and> i \<in> set xs) \<and> ks ! q \<noteq> TNil \<and> pos (ks ! q) = q)"

definition keys_distinct :: "TValue list \<Rightarrow> bool" where
  "keys_distinct ks \<longleftrightarrow> (\<forall>i < length ks. \<forall>j < length ks. ks ! i = ks ! j \<longrightarrow> ks ! i \<noteq> TNil \<longrightarrow> i = j)"

definition vec_ok :: "(TValue \<Rightarrow> nat) \<Rightarrow> nat option list \<Rightarrow> TValue list \<Rightarrow> TValue list \<Rightarrow> bool" where
  "vec_ok pos nx ks vs \<longleftrightarrow> length ks = length nx \<and> length vs = length nx \<and> chains_end nx \<and> one_pred nx
     \<and> free_alone nx ks vs \<and> (\<forall>i < length nx. ks ! i \<noteq> TNil \<longrightarrow> home pos nx ks i) \<and> keys_distinct ks"

lemma vec_okD:
  assumes "vec_ok pos nx ks vs"
  shows "length ks = length nx" "length vs = length nx" "chains_end nx" "one_pred nx" "free_alone nx ks vs"
    "i < length nx \<Longrightarrow> ks ! i \<noteq> TNil \<Longrightarrow> home pos nx ks i" "keys_distinct ks"
  using assms by (simp_all add: vec_ok_def)

lemma vec_ok_empty: "vec_ok pos (replicate m None) (replicate m TNil) (replicate m TNil)"
proof -
  have "\<exists>xs. chain (replicate m None) (Some i) xs" if "i < m" for i
    using that by (intro exI [of _ "[i]"]) simp
  then show ?thesis
    by (simp add: vec_ok_def chains_end_def one_pred_def free_alone_def keys_distinct_def)
qed

lemma keys_distinct_update:
  "keys_distinct ks \<Longrightarrow> k \<notin> set ks \<Longrightarrow> i < length ks \<Longrightarrow> keys_distinct (ks[i := k])"
  by (auto simp: keys_distinct_def nth_list_update)

lemma vec_ok_write:
  assumes "vec_ok pos nx ks vs" "ks ! i \<noteq> TNil"
  shows "vec_ok pos nx ks (vs[i := v])"
proof -
  have "free_alone nx ks (vs[i := v])"
    using vec_okD(5) [OF assms(1)] assms(2) unfolding free_alone_def by (metis nth_list_update_neq)
  then show ?thesis using assms by (simp add: vec_ok_def)
qed

lemma home_other_key:
  assumes "home pos nx ks i" "i \<noteq> mp" "pos k = mp" "k \<noteq> TNil" "mp < length ks"
  shows "home pos nx (ks[mp := k]) i"
proof -
  define q where "q = pos (ks ! i)"
  from assms(1) have h: "q < length nx" "\<exists>xs. chain nx (Some q) xs \<and> i \<in> set xs" "ks ! q \<noteq> TNil" "pos (ks ! q) = q"
    by (simp_all add: home_def Let_def q_def)
  have "ks[mp := k] ! i = ks ! i" using assms(2) by simp
  moreover have "ks[mp := k] ! q \<noteq> TNil \<and> pos (ks[mp := k] ! q) = q"
    using h(3,4) assms(3-5) by (cases "q = mp") auto
  ultimately show ?thesis using h(1,2) by (simp add: home_def Let_def q_def)
qed

text \<open>The main position of the key has no value: its key is replaced.\<close>

lemma vec_ok_reuse:
  assumes ok: "vec_ok pos nx ks vs" and mp: "mp < length nx" "vs ! mp = TNil"
    and k: "pos k = mp" "k \<noteq> TNil" "k \<notin> set ks"
  shows "vec_ok pos nx (ks[mp := k]) vs"
proof -
  note D = vec_okD [OF ok]
  have "home pos nx (ks[mp := k]) i" if i: "i < length nx" "ks[mp := k] ! i \<noteq> TNil" for i
  proof (cases "i = mp")
    case True
    obtain xs where "chain nx (Some mp) xs" using D(3) mp(1) by (auto simp: chains_end_def)
    then show ?thesis using True mp k D(1) by (auto simp: home_def chain_Some)
  next
    case False
    then show ?thesis using home_other_key [OF D(6) False k(1,2)] i mp D(1) by simp
  qed
  moreover have "free_alone nx (ks[mp := k]) vs"
    using D(1,5) k(2) mp by (auto simp: free_alone_def nth_list_update)
  ultimately show ?thesis using D k mp by (simp add: vec_ok_def keys_distinct_update)
qed

lemma no_pred_notin: "chain nx p xs \<Longrightarrow> \<forall>j < length nx. nx ! j \<noteq> Some n \<Longrightarrow> p \<noteq> Some n \<Longrightarrow> n \<notin> set xs"
  by (induction xs arbitrary: p) auto

lemma free_notin:
  assumes "free_alone nx ks vs" "n < length nx" "ks ! n = TNil" "chain nx (Some i) xs" "i \<noteq> n"
  shows "n \<notin> set xs"
  using no_pred_notin [OF assms(4)] assms by (auto simp: free_alone_def)

lemma chain_exists: "vec_ok pos nx ks vs \<Longrightarrow> i < length nx \<Longrightarrow> \<exists>xs. chain nx (Some i) xs \<and> i \<in> set xs"
  by (fastforce simp: vec_ok_def chains_end_def chain_Some)

lemma homeE:
  assumes "vec_ok pos nx ks vs" "i < length nx" "ks ! i \<noteq> TNil"
  obtains xs where "pos (ks ! i) < length nx" "chain nx (Some (pos (ks ! i))) xs" "i \<in> set xs"
    "ks ! pos (ks ! i) \<noteq> TNil" "pos (ks ! pos (ks ! i)) = pos (ks ! i)"
  using vec_okD(6) [OF assms] that by (auto simp: home_def Let_def)

text \<open>
  A new key \<open>k\<close> meets a node \<open>mp\<close> with a value in its main position, and \<open>n\<close> is a free node.
\<close>

definition collision :: "(TValue \<Rightarrow> nat) \<Rightarrow> nat option list \<Rightarrow> TValue list \<Rightarrow> TValue list \<Rightarrow> TValue \<Rightarrow> nat \<Rightarrow> nat \<Rightarrow> bool" where
  "collision pos nx ks vs k mp n \<longleftrightarrow> vec_ok pos nx ks vs \<and> mp < length nx \<and> ks ! mp \<noteq> TNil \<and> n < length nx
     \<and> ks ! n = TNil \<and> pos k = mp \<and> k \<noteq> TNil \<and> k \<notin> set ks"

lemma collisionD:
  assumes "collision pos nx ks vs k mp n"
  shows "vec_ok pos nx ks vs" "mp < length nx" "n < length nx" "ks ! mp \<noteq> TNil" "ks ! n = TNil" "n \<noteq> mp"
    "pos k = mp" "k \<noteq> TNil" "k \<notin> set ks" "length ks = length nx" "length vs = length nx"
    "vs ! n = TNil" "nx ! n = None" "j < length nx \<Longrightarrow> nx ! j \<noteq> Some n"
    "chain nx (Some i) xs \<Longrightarrow> i \<noteq> n \<Longrightarrow> n \<notin> set xs"
  using assms free_notin [of nx ks vs n i xs] by (auto simp: collision_def free_alone_def dest: vec_okD)

text \<open>The colliding node is in its main position: the free node is chained behind it.\<close>

definition link_behind :: "nat \<Rightarrow> nat \<Rightarrow> nat option list \<Rightarrow> nat option list" where
  "link_behind mp n nx = nx[n := nx ! mp, mp := Some n]"

lemma length_link_behind [simp]: "length (link_behind mp n nx) = length nx"
  by (simp add: link_behind_def)

lemma link_behind_nth:
  "collision pos nx ks vs k mp n \<Longrightarrow>
   link_behind mp n nx ! i = (if i = mp then Some n else if i = n then nx ! mp else nx ! i)"
  using collisionD(2,3,6) by (auto simp: link_behind_def nth_list_update)

lemma chain_link_behind:
  assumes c: "collision pos nx ks vs k mp n" and "chain nx (Some i) xs" "i \<noteq> n"
  shows "chain (link_behind mp n nx) (Some i) (behind mp n xs)"
  unfolding link_behind_def using assms collisionD(2,3,6,15) [OF c] by (blast intro: chain_behind)

lemma ends_link_behind:
  assumes c: "collision pos nx ks vs k mp n"
  shows "chains_end (link_behind mp n nx)"
proof -
  note C = collisionD [OF c]
  have "\<exists>xs. chain (link_behind mp n nx) (Some i) xs" if i: "i < length nx" for i
  proof (cases "i = n")
    case True
    obtain ys where "chain nx (Some mp) ys" using chain_exists [OF C(1,2)] by blast
    then obtain zs where "chain (link_behind mp n nx) (Some mp) zs" using chain_link_behind [OF c] C(6) by blast
    then have "chain (link_behind mp n nx) (Some n) (tl zs)" by (auto simp: chain_Some link_behind_nth [OF c])
    then show ?thesis using True by blast
  next
    case False
    obtain xs where "chain nx (Some i) xs" using chain_exists [OF C(1) i] by blast
    then show ?thesis using chain_link_behind [OF c] False by blast
  qed
  then show ?thesis by (simp add: chains_end_def)
qed

lemma one_pred_link_behind:
  assumes c: "collision pos nx ks vs k mp n"
  shows "one_pred (link_behind mp n nx)"
  unfolding one_pred_def
proof (intro allI impI)
  note C = collisionD [OF c]
  fix i j
  assume ij: "i < length (link_behind mp n nx)" "j < length (link_behind mp n nx)"
    "link_behind mp n nx ! i = link_behind mp n nx ! j" "link_behind mp n nx ! i \<noteq> None"
  have one: "x = y" if "x < length nx" "y < length nx" "nx ! x = nx ! y" "nx ! x \<noteq> None" for x y
    using vec_okD(4) [OF C(1)] that by (auto simp: one_pred_def)
  have no: "nx ! x \<noteq> Some n" "Some n \<noteq> nx ! x" if "x < length nx" for x using C(14) [OF that] by auto
  show "i = j" using ij(1,2) ij(3,4)[unfolded link_behind_nth [OF c]] one [of mp j] one [of i mp] one [of i j]
      no [of mp] no [of i] no [of j] C(2,6)
    by (cases "i = mp"; cases "j = mp"; cases "i = n"; cases "j = n") (simp_all split: if_splits)
qed

lemma free_alone_link_behind:
  assumes c: "collision pos nx ks vs k mp n"
  shows "free_alone (link_behind mp n nx) (ks[n := k]) vs"
  unfolding free_alone_def
proof (intro allI impI)
  note C = collisionD [OF c]
  fix i
  assume i: "i < length (link_behind mp n nx)" "ks[n := k] ! i = TNil"
  have "i \<noteq> n" using i(2) C(3,8,10) by auto
  then have ki: "ks ! i = TNil" using i(2) by simp
  then have "i \<noteq> mp" using C(4) by auto
  have old: "vs ! i = TNil" "nx ! i = None" "j < length nx \<Longrightarrow> nx ! j \<noteq> Some i" for j
    using vec_okD(5) [OF C(1)] ki i(1) by (auto simp: free_alone_def)
  show "vs ! i = TNil \<and> link_behind mp n nx ! i = None \<and>
      (\<forall>j < length (link_behind mp n nx). link_behind mp n nx ! j \<noteq> Some i)"
    using old(1,2) old(3) [of mp] old(3) \<open>i \<noteq> n\<close> \<open>i \<noteq> mp\<close> C(2) by (simp add: link_behind_nth [OF c])
qed

lemma home_link_behind:
  assumes c: "collision pos nx ks vs k mp n" and m: "pos (ks ! mp) = mp"
    and i: "i < length nx" "ks[n := k] ! i \<noteq> TNil"
  shows "home pos (link_behind mp n nx) (ks[n := k]) i"
proof (cases "i = n")
  note C = collisionD [OF c]
  case True
  obtain ys where "chain nx (Some mp) ys" "mp \<in> set ys" using chain_exists [OF C(1,2)] by blast
  then have "chain (link_behind mp n nx) (Some mp) (behind mp n ys) \<and> n \<in> set (behind mp n ys)"
    using chain_link_behind [OF c] C(6) set_behind(2) by auto
  then show ?thesis using True m C(2,3,4,6,7,10) by (auto simp: home_def Let_def)
next
  note C = collisionD [OF c]
  case False
  then obtain xs where h: "pos (ks ! i) < length nx" "chain nx (Some (pos (ks ! i))) xs" "i \<in> set xs"
    "ks ! pos (ks ! i) \<noteq> TNil" "pos (ks ! pos (ks ! i)) = pos (ks ! i)"
    using homeE [OF C(1) i(1)] i(2) by (metis nth_list_update_neq)
  then have q: "pos (ks ! i) \<noteq> n" using C(5) by auto
  then have "chain (link_behind mp n nx) (Some (pos (ks ! i))) (behind mp n xs)" "i \<in> set (behind mp n xs)"
    using chain_link_behind [OF c h(2)] h(3) set_behind(1) by blast+
  then show ?thesis using h(1,4,5) False q by (auto simp: home_def Let_def)
qed

lemma vec_ok_behind:
  assumes c: "collision pos nx ks vs k mp n" and "pos (ks ! mp) = mp"
  shows "vec_ok pos (link_behind mp n nx) (ks[n := k]) vs"
proof -
  note C = collisionD [OF c]
  show ?thesis
    using vec_okD(7) [OF C(1)] C(3,9,10,11) ends_link_behind [OF c] one_pred_link_behind [OF c]
      free_alone_link_behind [OF c] home_link_behind [OF assms] by (simp add: vec_ok_def keys_distinct_update)
qed

text \<open>
  The colliding node is out of its main position: it moves to the free node, its predecessor \<open>prev\<close> is
  linked to the new place, and its old place is left for the key.
\<close>

definition link_instead :: "nat \<Rightarrow> nat \<Rightarrow> nat \<Rightarrow> nat option list \<Rightarrow> nat option list" where
  "link_instead prev mp n nx = nx[prev := Some n, n := nx ! mp, mp := None]"

lemma length_link_instead [simp]: "length (link_instead prev mp n nx) = length nx"
  by (simp add: link_instead_def)

definition displaced :: "(TValue \<Rightarrow> nat) \<Rightarrow> nat option list \<Rightarrow> TValue list \<Rightarrow> TValue list \<Rightarrow> TValue \<Rightarrow> nat \<Rightarrow> nat \<Rightarrow> nat \<Rightarrow> bool" where
  "displaced pos nx ks vs k mp n prev \<longleftrightarrow> collision pos nx ks vs k mp n \<and> pos (ks ! mp) \<noteq> mp
     \<and> prev < length nx \<and> nx ! prev = Some mp"

lemma displacedD:
  assumes "displaced pos nx ks vs k mp n prev"
  shows "collision pos nx ks vs k mp n" "pos (ks ! mp) \<noteq> mp" "prev < length nx" "nx ! prev = Some mp"
    "prev \<noteq> n" "prev \<noteq> mp" "\<forall>j < length nx. nx ! j = Some mp \<longrightarrow> j = prev"
proof -
  show d: "collision pos nx ks vs k mp n" "pos (ks ! mp) \<noteq> mp" "prev < length nx" "nx ! prev = Some mp"
    using assms by (simp_all add: displaced_def)
  note C = collisionD [OF d(1)]
  show "prev \<noteq> n" using d(4) C(13) by auto
  show "prev \<noteq> mp"
  proof
    assume "prev = mp"
    obtain ys where ys: "chain nx (Some mp) ys" using chain_exists [OF C(1,2)] by blast
    then obtain zs where "ys = mp # zs" "chain nx (nx ! mp) zs" using chain_Some by blast
    with chain_unique [OF ys, of zs] d(4) \<open>prev = mp\<close> show False by simp
  qed
  show "\<forall>j < length nx. nx ! j = Some mp \<longrightarrow> j = prev"
    using vec_okD(4) [OF C(1)] d(3,4) unfolding one_pred_def by (metis option.distinct(1))
qed

lemma link_instead_nth:
  assumes d: "displaced pos nx ks vs k mp n prev"
  shows "link_instead prev mp n nx ! i =
     (if i = mp then None else if i = n then nx ! mp else if i = prev then Some n else nx ! i)"
proof -
  have "prev < length nx" "n < length nx" "mp < length nx"
    using displacedD(3) [OF d] collisionD(2,3) [OF displacedD(1) [OF d]] by simp_all
  then show ?thesis by (simp add: link_instead_def nth_list_update)
qed

lemma chain_link_instead:
  assumes d: "displaced pos nx ks vs k mp n prev" and xs: "chain nx (Some i) xs" "i \<noteq> n"
  shows "chain (link_instead prev mp n nx) (Some (instead mp n i)) (map (instead mp n) xs)"
proof -
  note D = displacedD [OF d] and C = collisionD [OF displacedD(1) [OF d]]
  show ?thesis
    using chain_instead [OF D(3) C(3,2) D(4,7) C(6) D(6) not_sym [OF D(5)] xs(1)] C(15) [OF xs]
    by (simp add: link_instead_def)
qed

lemma ends_link_instead:
  assumes d: "displaced pos nx ks vs k mp n prev"
  shows "chains_end (link_instead prev mp n nx)"
proof -
  note C = collisionD [OF displacedD(1) [OF d]]
  have "\<exists>xs. chain (link_instead prev mp n nx) (Some i) xs" if i: "i < length nx" for i
  proof (cases "i = mp")
    case True
    then have "chain (link_instead prev mp n nx) (Some i) [mp]" using C(2) by (simp add: link_instead_nth [OF d])
    then show ?thesis by blast
  next
    case False
    define j where "j = (if i = n then mp else i)"
    then have j: "j < length nx" "j \<noteq> n" "instead mp n j = i" using i C(2,6) False by (auto simp: instead_def)
    obtain xs where "chain nx (Some j) xs" using chain_exists [OF C(1) j(1)] by blast
    from chain_link_instead [OF d this j(2)] show ?thesis using j(3) by auto
  qed
  then show ?thesis by (simp add: chains_end_def)
qed

lemma one_pred_link_instead:
  assumes d: "displaced pos nx ks vs k mp n prev"
  shows "one_pred (link_instead prev mp n nx)"
  unfolding one_pred_def
proof (intro allI impI)
  note C = collisionD [OF displacedD(1) [OF d]]
  fix i j
  assume ij: "i < length (link_instead prev mp n nx)" "j < length (link_instead prev mp n nx)"
    "link_instead prev mp n nx ! i = link_instead prev mp n nx ! j" "link_instead prev mp n nx ! i \<noteq> None"
  have one: "x = y" if "x < length nx" "y < length nx" "nx ! x = nx ! y" "nx ! x \<noteq> None" for x y
    using vec_okD(4) [OF C(1)] that by (auto simp: one_pred_def)
  have no: "nx ! x \<noteq> Some n" "Some n \<noteq> nx ! x" if "x < length nx" for x using C(14) [OF that] by auto
  show "i = j" using ij(1,2) ij(3,4) [unfolded link_instead_nth [OF d]] one [of mp j] one [of i mp] one [of i j]
      no [of mp] no [of i] no [of j] C(2)
    by (cases "i = mp"; cases "j = mp"; cases "i = n"; cases "j = n") (simp_all split: if_splits)
qed

lemma free_alone_link_instead:
  assumes d: "displaced pos nx ks vs k mp n prev"
  shows "free_alone (link_instead prev mp n nx) (ks[n := ks ! mp, mp := k]) (vs[n := vs ! mp, mp := TNil])"
  unfolding free_alone_def
proof (intro allI impI)
  note D = displacedD [OF d] and C = collisionD [OF displacedD(1) [OF d]]
  fix i
  assume i: "i < length (link_instead prev mp n nx)" "ks[n := ks ! mp, mp := k] ! i = TNil"
  have "i \<noteq> mp" using i(2) C(2,8,10) by auto
  moreover have "i \<noteq> n" using i(2) C(3,4,6,10) by auto
  ultimately have ki: "ks ! i = TNil" using i(2) by simp
  have old: "vs ! i = TNil" "nx ! i = None" "j < length nx \<Longrightarrow> nx ! j \<noteq> Some i" for j
    using vec_okD(5) [OF C(1)] ki i(1) by (auto simp: free_alone_def)
  have "i \<noteq> prev" using old(2) D(4) by auto
  then show "vs[n := vs ! mp, mp := TNil] ! i = TNil \<and> link_instead prev mp n nx ! i = None \<and>
      (\<forall>j < length (link_instead prev mp n nx). link_instead prev mp n nx ! j \<noteq> Some i)"
    using old(1,2) old(3) [OF C(2)] old(3) \<open>i \<noteq> n\<close> \<open>i \<noteq> mp\<close> by (simp add: link_instead_nth [OF d])
qed

lemma home_link_instead:
  assumes d: "displaced pos nx ks vs k mp n prev"
    and i: "i < length nx" "ks[n := ks ! mp, mp := k] ! i \<noteq> TNil"
  shows "home pos (link_instead prev mp n nx) (ks[n := ks ! mp, mp := k]) i"
proof (cases "i = mp")
  note C = collisionD [OF displacedD(1) [OF d]]
  case True
  then show ?thesis using C(2,7,8,10) link_instead_nth [OF d, of mp]
    by (auto simp: home_def Let_def intro!: exI [of _ "[mp]"])
next
  note D = displacedD [OF d] and C = collisionD [OF displacedD(1) [OF d]]
  case False
  define j where "j = (if i = n then mp else i)"
  have j: "j < length nx" "instead mp n j = i" "ks[n := ks ! mp, mp := k] ! i = ks ! j"
    using i(1) False C(2,3,6,10) by (auto simp: j_def instead_def)
  define q where "q = pos (ks ! j)"
  obtain xs where h: "q < length nx" "chain nx (Some q) xs" "j \<in> set xs" "ks ! q \<noteq> TNil" "pos (ks ! q) = q"
    unfolding q_def by (rule homeE [OF C(1) j(1)]) (use i(2) j(3) in auto)
  have q: "q \<noteq> n" "q \<noteq> mp" using h(4,5) C(5) D(2) by auto
  have "chain (link_instead prev mp n nx) (Some q) (map (instead mp n) xs)"
    using chain_link_instead [OF d h(2) q(1)] q(2) by (simp add: instead_def)
  moreover have "i \<in> set (map (instead mp n) xs)" using h(3) j(2) by (force simp flip: j(2))
  moreover have "ks[n := ks ! mp, mp := k] ! q = ks ! q" using q by simp
  ultimately show ?thesis using h(1,4,5) j(3) by (auto simp: home_def Let_def q_def)
qed

lemma keys_distinct_move:
  assumes "collision pos nx ks vs k mp n"
  shows "keys_distinct (ks[n := ks ! mp, mp := k])"
proof -
  note C = collisionD [OF assms]
  have old: "x = y" if "x < length ks" "y < length ks" "ks ! x = ks ! y" "ks ! x \<noteq> TNil" for x y
    using vec_okD(7) [OF C(1)] that by (auto simp: keys_distinct_def)
  have new: "ks ! x \<noteq> k" "k \<noteq> ks ! x" if "x < length ks" for x using C(9) that nth_mem by metis+
  have nth: "ks[n := ks ! mp, mp := k] ! x = (if x = mp then k else if x = n then ks ! mp else ks ! x)" for x
    using C(2,3,6,10) by (auto simp: nth_list_update)
  show ?thesis unfolding keys_distinct_def nth
  proof (intro allI impI)
    fix i j
    assume "i < length (ks[n := ks ! mp, mp := k])" "j < length (ks[n := ks ! mp, mp := k])"
      "(if i = mp then k else if i = n then ks ! mp else ks ! i) = (if j = mp then k else if j = n then ks ! mp else ks ! j)"
      "(if i = mp then k else if i = n then ks ! mp else ks ! i) \<noteq> TNil"
    then show "i = j" using old [of mp j] old [of i mp] old [of i j] new [of mp] new [of i] new [of j] C(2,10)
      by (cases "i = mp"; cases "j = mp"; cases "i = n"; cases "j = n") simp_all
  qed
qed

lemma vec_ok_move:
  assumes d: "displaced pos nx ks vs k mp n prev"
  shows "vec_ok pos (link_instead prev mp n nx) (ks[n := ks ! mp, mp := k]) (vs[n := vs ! mp, mp := TNil])"
proof -
  note C = collisionD [OF displacedD(1) [OF d]]
  show ?thesis
    using C(10,11) keys_distinct_move [OF displacedD(1) [OF d]] ends_link_instead [OF d] one_pred_link_instead [OF d]
      free_alone_link_instead [OF d] home_link_instead [OF d] by (simp add: vec_ok_def)
qed

section \<open>Vectors of nodes\<close>

definition nodes_ok :: "(TValue \<Rightarrow> nat) \<Rightarrow> Node list \<Rightarrow> bool" where
  "nodes_ok pos ns \<longleftrightarrow> vec_ok pos (map i_next ns) (map i_key ns) (map i_val ns)"

definition live_nodes :: "Node list \<Rightarrow> (TValue \<times> TValue) set" where
  "live_nodes ns = {(i_key (ns ! i), i_val (ns ! i)) | i. i < length ns \<and> i_val (ns ! i) \<noteq> TNil}"

lemma chain_find_chain:
  "chain (map i_next ns) (Some i) xs \<Longrightarrow> chain_find P ns i = Some (List.find (\<lambda>j. P (ns ! j)) xs)"
proof (induction xs arbitrary: i)
  case (Cons j xs)
  then have "j = i" "i < length ns" "chain (map i_next ns) (i_next (ns ! i)) xs" by auto
  moreover have "chain_find P ns i = (if P (ns ! i) then Some (Some i)
      else (case i_next (ns ! i) of None \<Rightarrow> Some None | Some l \<Rightarrow> chain_find P ns l))"
    by (subst chain_find.simps) (use \<open>i < length ns\<close> in simp)
  ultimately show ?case using Cons.IH by (cases "i_next (ns ! i)") auto
qed simp

lemma find_previous_chain:
  "chain (map i_next ns) (Some i) xs \<Longrightarrow> mp \<in> set xs \<Longrightarrow> i \<noteq> mp \<Longrightarrow>
   \<exists>prev < length ns. find_previous ns mp i = Some prev \<and> i_next (ns ! prev) = Some mp"
proof (induction xs arbitrary: i)
  case (Cons j xs)
  then have c: "j = i" "i < length ns" "chain (map i_next ns) (i_next (ns ! i)) xs" "mp \<in> set xs" by auto
  then obtain l where l: "i_next (ns ! i) = Some l" by (cases "i_next (ns ! i)") auto
  have step: "find_previous ns mp i = (if l = mp then Some i else find_previous ns mp l)"
    by (subst find_previous.simps) (use c(2) l in simp)
  show ?case
  proof (cases "l = mp")
    case True
    then show ?thesis using step l c(2) by auto
  next
    case False
    then have "find_previous ns mp i = find_previous ns mp l" using step by simp
    moreover have "chain (map i_next ns) (Some l) xs" using c(3) l by simp
    ultimately show ?thesis using Cons.IH [OF _ c(4) False] by metis
  qed
qed simp

lemma find_only:
  assumes "i \<in> set xs" "P i" and only: "\<And>j. j \<in> set xs \<Longrightarrow> P j \<Longrightarrow> j = i"
  shows "List.find P xs = Some i"
proof (cases "List.find P xs")
  case None
  then show ?thesis using assms(1,2) by (auto simp: find_None_iff)
next
  case (Some j)
  then show ?thesis using find_Some_in [OF Some] only by simp
qed

text \<open>What a search finds: the node of the key, if there is one.\<close>

lemma nodes_find:
  assumes ok: "nodes_ok pos ns" and "k \<noteq> TNil" "pos k < length ns"
    and P: "\<And>j. j < length ns \<Longrightarrow> P (ns ! j) \<longleftrightarrow> i_key (ns ! j) = k"
  shows "i < length ns \<Longrightarrow> i_key (ns ! i) = k \<Longrightarrow> chain_find P ns (pos k) = Some (Some i)"
    and "\<forall>i < length ns. i_key (ns ! i) \<noteq> k \<Longrightarrow> chain_find P ns (pos k) = Some None"
proof -
  note v = ok [unfolded nodes_ok_def]
  { assume i: "i < length ns" "i_key (ns ! i) = k"
    then obtain xs where xs: "chain (map i_next ns) (Some (pos k)) xs" "i \<in> set xs"
      using homeE [OF v, of i] assms(2) by auto
    have "List.find (\<lambda>j. P (ns ! j)) xs = Some i"
    proof (rule find_only [OF xs(2)])
      show "P (ns ! i)" using P i by simp
      fix j
      assume "j \<in> set xs" "P (ns ! j)"
      moreover from this have "j < length ns" using chain_less [OF xs(1)] by auto
      ultimately show "j = i" using P i assms(2) vec_okD(7) [OF v] by (auto simp: keys_distinct_def)
    qed
    then show "chain_find P ns (pos k) = Some (Some i)" using chain_find_chain [OF xs(1)] by simp }
  { assume none: "\<forall>i < length ns. i_key (ns ! i) \<noteq> k"
    obtain xs where xs: "chain (map i_next ns) (Some (pos k)) xs" using chain_exists [OF v, of "pos k"] assms(3) by auto
    have "\<not> P (ns ! j)" if "j \<in> set xs" for j
      using chain_less [OF xs that] P [of j] none by simp
    then have "List.find (\<lambda>j. P (ns ! j)) xs = None" by (auto simp: find_None_iff)
    then show "chain_find P ns (pos k) = Some None" using chain_find_chain [OF xs] by simp }
qed

lemma set_key_maps [simp]:
  "length (set_key i k ns) = length ns" "map i_next (set_key i k ns) = map i_next ns"
  "map i_val (set_key i k ns) = map i_val ns" "map i_key (set_key i k ns) = (map i_key ns)[i := k]"
  by (cases "i < length ns"; auto simp: set_key_def nth_list_update intro!: nth_equalityI)+

lemma chain_node_maps:
  assumes "mp < length ns" "n < length ns" "n \<noteq> mp"
  shows "length (chain_node mp n ns) = length ns"
    "map i_next (chain_node mp n ns) = link_behind mp n (map i_next ns)"
    "map i_key (chain_node mp n ns) = map i_key ns" "map i_val (chain_node mp n ns) = map i_val ns"
  using assms by (auto simp: chain_node_def set_next_def Let_def link_behind_def nth_list_update intro!: nth_equalityI)

lemma move_node_maps:
  assumes "mp < length ns" "n < length ns" "prev < length ns" "n \<noteq> mp" "prev \<noteq> mp" "prev \<noteq> n"
  shows "length (move_node prev mp n ns) = length ns"
    "map i_next (move_node prev mp n ns) = link_instead prev mp n (map i_next ns)"
    "map i_key (move_node prev mp n ns) = (map i_key ns)[n := map i_key ns ! mp]"
    "map i_val (move_node prev mp n ns) = (map i_val ns)[n := map i_val ns ! mp, mp := TNil]"
  using assms by (auto simp: move_node_def set_next_def Let_def link_instead_def nth_list_update intro!: nth_equalityI)

lemma live_nodes_cong:
  assumes "map i_key ns = map i_key ms" "map i_val ns = map i_val ms"
  shows "live_nodes ns = live_nodes ms"
proof -
  have "length ns = length ms" using assms(1) by (rule map_eq_imp_length_eq)
  moreover have "i_key (ns ! i) = i_key (ms ! i) \<and> i_val (ns ! i) = i_val (ms ! i)" if "i < length ns" for i
    using assms that by (metis calculation nth_map)
  ultimately show ?thesis unfolding live_nodes_def by (intro Collect_cong arg_cong [of _ _ Ex] ext) auto
qed

lemma live_nodes_set_key: "i < length ns \<Longrightarrow> i_val (ns ! i) = TNil \<Longrightarrow> live_nodes (set_key i k ns) = live_nodes ns"
  by (fastforce simp: live_nodes_def set_key_def nth_list_update)

lemma live_nodes_move:
  assumes "mp < length ns" "n < length ns" "prev < length ns" "n \<noteq> mp" "prev \<noteq> mp" "prev \<noteq> n" "i_val (ns ! n) = TNil"
  shows "live_nodes (set_key mp k (move_node prev mp n ns)) = live_nodes ns"
proof -
  let ?ms = "set_key mp k (move_node prev mp n ns)"
  have len: "length ?ms = length ns" using move_node_maps(1) [OF assms(1-6)] by simp
  have key: "i_key (?ms ! i) = (if i = mp then k else if i = n then i_key (ns ! mp) else i_key (ns ! i))"
    "i_val (?ms ! i) = (if i = mp then TNil else if i = n then i_val (ns ! mp) else i_val (ns ! i))"
    if "i < length ns" for i
    using that assms by (simp_all add: set_key_def move_node_def set_next_def Let_def nth_list_update)
  have "(a, b) \<in> live_nodes ?ms \<longleftrightarrow> (a, b) \<in> live_nodes ns" for a b
  proof
    assume "(a, b) \<in> live_nodes ?ms"
    then obtain i where "i < length ns" "a = i_key (?ms ! i)" "b = i_val (?ms ! i)" "b \<noteq> TNil"
      using len by (auto simp: live_nodes_def)
    then have "(if i = n then mp else i) < length ns \<and> a = i_key (ns ! (if i = n then mp else i)) \<and>
        b = i_val (ns ! (if i = n then mp else i))"
      using key [of i] assms(1) by (auto split: if_splits)
    then show "(a, b) \<in> live_nodes ns" using \<open>b \<noteq> TNil\<close> unfolding live_nodes_def by blast
  next
    assume "(a, b) \<in> live_nodes ns"
    then obtain i where i: "i < length ns" "a = i_key (ns ! i)" "b = i_val (ns ! i)" "b \<noteq> TNil"
      by (auto simp: live_nodes_def)
    then have "i \<noteq> n" using assms(7) by auto
    define j where "j = (if i = mp then n else i)"
    have "j < length ?ms" "a = i_key (?ms ! j)" "b = i_val (?ms ! j)"
      using i \<open>i \<noteq> n\<close> key [of j] len assms(2,4) by (auto simp: j_def)
    then show "(a, b) \<in> live_nodes ?ms" using i(4) unfolding live_nodes_def by blast
  qed
  then show ?thesis by auto
qed

text \<open>The three ways in which a new key gets a node.\<close>

lemma nodes_reuse:
  assumes "nodes_ok pos ns" "pos k < length ns" "i_val (ns ! pos k) = TNil" "k \<noteq> TNil" "k \<notin> i_key ` set ns"
  shows "nodes_ok pos (set_key (pos k) k ns)"
  using assms vec_ok_reuse [of pos "map i_next ns" "map i_key ns" "map i_val ns" "pos k" k] by (simp add: nodes_ok_def)

lemma nodes_collision:
  assumes "nodes_ok pos ns" "pos k < length ns" "i_val (ns ! pos k) \<noteq> TNil" "k \<noteq> TNil" "k \<notin> i_key ` set ns"
    "n < length ns" "i_key (ns ! n) = TNil"
  shows "collision pos (map i_next ns) (map i_key ns) (map i_val ns) k (pos k) n"
proof -
  have "i_key (ns ! pos k) \<noteq> TNil"
    using vec_okD(5) [OF assms(1) [unfolded nodes_ok_def]] assms(2,3) by (auto simp: free_alone_def)
  then show ?thesis using assms by (auto simp: collision_def nodes_ok_def)
qed

lemma nodes_behind:
  assumes "collision pos (map i_next ns) (map i_key ns) (map i_val ns) k mp n" "pos (i_key (ns ! mp)) = mp"
  shows "nodes_ok pos (set_key n k (chain_node mp n ns))" "live_nodes (set_key n k (chain_node mp n ns)) = live_nodes ns"
    "i_val (set_key n k (chain_node mp n ns) ! n) = TNil"
proof -
  note C = collisionD [OF assms(1), simplified]
  note m = chain_node_maps [OF C(2,3,6)]
  show "nodes_ok pos (set_key n k (chain_node mp n ns))"
    using vec_ok_behind [OF assms(1)] assms(2) C(2) m by (simp add: nodes_ok_def)
  have v: "i_val (chain_node mp n ns ! n) = TNil"
    using arg_cong [OF m(4), of "\<lambda>l. l ! n"] C(3,12) m(1) by simp
  then show "live_nodes (set_key n k (chain_node mp n ns)) = live_nodes ns"
    using live_nodes_set_key [of n "chain_node mp n ns" k] live_nodes_cong [OF m(3,4)] C(3) m(1) by simp
  show "i_val (set_key n k (chain_node mp n ns) ! n) = TNil"
    using v C(3) m(1) by (simp add: set_key_def)
qed

lemma nodes_move:
  assumes c: "collision pos (map i_next ns) (map i_key ns) (map i_val ns) k mp n" and o: "pos (i_key (ns ! mp)) \<noteq> mp"
  shows "\<exists>prev. find_previous ns mp (pos (i_key (ns ! mp))) = Some prev
     \<and> nodes_ok pos (set_key mp k (move_node prev mp n ns)) \<and> live_nodes (set_key mp k (move_node prev mp n ns)) = live_nodes ns
     \<and> i_val (set_key mp k (move_node prev mp n ns) ! mp) = TNil \<and> length (move_node prev mp n ns) = length ns
     \<and> map i_key (set_key mp k (move_node prev mp n ns)) = (map i_key ns)[n := i_key (ns ! mp), mp := k]"
proof -
  note C = collisionD [OF c, simplified]
  obtain xs where "chain (map i_next ns) (Some (pos (i_key (ns ! mp)))) xs" "mp \<in> set xs"
    using homeE [OF C(1), of mp] C(2,4) by auto
  from find_previous_chain [OF this o] obtain prev where
    p: "prev < length ns" "find_previous ns mp (pos (i_key (ns ! mp))) = Some prev" "i_next (ns ! prev) = Some mp" by blast
  have d: "displaced pos (map i_next ns) (map i_key ns) (map i_val ns) k mp n prev"
    using c o p(1,3) C(2) by (simp add: displaced_def)
  note D = displacedD [OF d, simplified]
  note m = move_node_maps [OF C(2,3) p(1) C(6) D(6,5)]
  have "nodes_ok pos (set_key mp k (move_node prev mp n ns))"
    using vec_ok_move [OF d] C(2) m by (simp add: nodes_ok_def)
  moreover have "i_val (set_key mp k (move_node prev mp n ns) ! mp) = TNil"
    using arg_cong [OF m(4), of "\<lambda>l. l ! mp"] C(2) m(1) by (simp add: set_key_def)
  moreover have "live_nodes (set_key mp k (move_node prev mp n ns)) = live_nodes ns"
    using live_nodes_move [OF C(2,3) p(1) C(6) D(6,5)] C(3,12) by simp
  ultimately show ?thesis using p(2) m(1,3) C(2) by simp
qed

end
