(* ===== verification/LuaTableInv.thy ===== *)
theory LuaTableInv
  imports LuaNodes
begin

text \<open>
  What a table is when it is well formed, which pairs it holds (\<open>live\<close>), and that the search functions,
  writing to a slot and inserting a key into a vector with a free node do what they should.
\<close>

section \<open>The invariant of a table\<close>

definition num_key :: "nat \<Rightarrow> TValue" where
  "num_key i = TNumber (cast_num (int i + 1))"

definition in_array :: "nat \<Rightarrow> TValue \<Rightarrow> bool" where
  "in_array m k \<longleftrightarrow> (\<exists>i < m. k = num_key i)"

definition key_ok :: "TValue \<Rightarrow> bool" where
  "key_ok k \<longleftrightarrow> k \<noteq> TNil \<and> k \<noteq> TNumber NaN"

definition node_keys :: "TableRep \<Rightarrow> TValue set" where
  "node_keys t = i_key ` set (node t) - {TNil}"

definition lastfree_ok :: "TableRep \<Rightarrow> bool" where
  "lastfree_ok t \<longleftrightarrow> lastfree t \<le> int (sizenode t) \<and>
     (if isdummy t then lastfree t \<le> 0 else \<forall>i < sizenode t. lastfree t \<le> int i \<longrightarrow> i_key (node t ! i) \<noteq> TNil)"

definition table_ok :: "TableRep \<Rightarrow> bool" where
  "table_ok t \<longleftrightarrow> (\<exists>l \<le> MAXBITS. sizenode t = 2 ^ l) \<and> sizearray t \<le> MAXASIZE
     \<and> nodes_ok (mainposition (sizenode t)) (node t) \<and> (isdummy t \<longrightarrow> node t = [empty_node]) \<and> lastfree_ok t
     \<and> (\<forall>k \<in> node_keys t. key_ok k \<and> \<not> in_array (sizearray t) k)"

definition live_array :: "TValue list \<Rightarrow> (TValue \<times> TValue) set" where
  "live_array arr = {(num_key i, arr ! i) | i. i < length arr \<and> arr ! i \<noteq> TNil}"

definition live :: "TableRep \<Rightarrow> (TValue \<times> TValue) set" where
  "live t = live_array (array t) \<union> live_nodes (node t)"

definition slot_in :: "TableRep \<Rightarrow> tslot \<Rightarrow> bool" where
  "slot_in t a \<longleftrightarrow> (case a of ArraySlot i \<Rightarrow> i < sizearray t | NodeSlot i \<Rightarrow> i < sizenode t)"

definition slot_key :: "TableRep \<Rightarrow> tslot \<Rightarrow> TValue" where
  "slot_key t a = (case a of ArraySlot i \<Rightarrow> num_key i | NodeSlot i \<Rightarrow> i_key (node t ! i))"

lemmas slot_simps = slot_in_def slot_key_def slot_val_def

section \<open>Positions\<close>

lemma hashpow2_less: "hashpow2 (2 ^ l) n < 2 ^ l"
proof -
  have "n AND (2 ^ l - 1) = n mod 2 ^ l"
    by (metis mask_eq_exp_minus_1 take_bit_eq_mask take_bit_eq_mod)
  then show ?thesis by (simp add: hashpow2_def)
qed

lemma hashmod_less: "0 < m \<Longrightarrow> hashmod m n < m"
proof -
  assume "0 < m"
  then have "(m - 1) OR 1 \<le> m" "0 < (m - 1) OR 1" by (auto simp: or_Suc_0_eq)
  then show ?thesis unfolding hashmod_def using mod_less_divisor [of "(m - 1) OR 1" n] by linarith
qed

lemma mainposition_less: "mainposition (2 ^ l) k < 2 ^ l"
  by (auto simp: mainposition_def hashnum_def hashpointer_def Let_def hashmod_less hashpow2_less split: TValue.split)

lemma table_okD:
  assumes "table_ok t"
  shows "nodes_ok (mainposition (sizenode t)) (node t)" "isdummy t \<Longrightarrow> node t = [empty_node]" "lastfree_ok t"
    "mainposition (sizenode t) k < sizenode t" "k \<in> node_keys t \<Longrightarrow> key_ok k \<and> \<not> in_array (sizearray t) k"
    "sizearray t \<le> MAXASIZE" "0 < sizenode t"
  using assms mainposition_less by (auto simp: table_ok_def)

section \<open>Integer keys\<close>

lemma num_key_inj [simp]: "num_key i = num_key j \<longleftrightarrow> i = j"
  by (simp add: num_key_def cast_num_def)

lemma num_key_ok [simp]: "key_ok (num_key i)" "num_key i \<noteq> TNil" "TNil \<noteq> num_key i"
  by (simp_all add: key_ok_def num_key_def cast_num_def)

lemma number2int_iff:
  "luai_numeq (cast_num (lua_number2int n)) n \<longleftrightarrow> (\<exists>k. n = cast_num k \<and> - (2 ^ 31) \<le> k \<and> k < 2 ^ 31)"
  (is "?l \<longleftrightarrow> ?r")
proof
  assume ?l
  then have n: "n = cast_num (lua_number2int n)" by (auto simp: luai_numeq_def)
  have "- (2 ^ 31) \<le> lua_number2int n \<and> lua_number2int n < 2 ^ 31"
    by (auto simp: lua_number2int_def to_c_int_def split: option.split dest: double_to_int_range)
  with n show ?r by blast
next
  assume ?r
  then obtain k where "n = cast_num k" "- (2 ^ 31) \<le> k" "k < 2 ^ 31" by blast
  then show ?l by (simp add: lua_number2int_def to_c_int_def cast_num_def luai_numeq_def)
qed

lemma number2int_cast [simp]: "- (2 ^ 31) \<le> k \<Longrightarrow> k < 2 ^ 31 \<Longrightarrow> lua_number2int (cast_num k) = k"
  by (simp add: lua_number2int_def to_c_int_def cast_num_def)

lemma arrayindex_num_key: "i < 2 ^ 26 \<Longrightarrow> arrayindex (num_key i) = int i + 1"
  by (simp add: arrayindex_def num_key_def luai_numeq_def Let_def) (simp add: cast_num_def)

lemma arrayindex_pos: "0 < arrayindex k \<Longrightarrow> k = num_key (nat (arrayindex k - 1))"
proof -
  assume p: "0 < arrayindex k"
  then obtain n where n: "k = TNumber n" by (cases k) (auto simp: arrayindex_def)
  with p have "luai_numeq (cast_num (lua_number2int n)) n" "arrayindex k = lua_number2int n"
    by (auto simp: arrayindex_def Let_def split: if_splits)
  then show ?thesis using n p by (auto simp: luai_numeq_def num_key_def)
qed

lemma arrayindex_in_array:
  assumes "m \<le> MAXASIZE"
  shows "in_array m k \<longleftrightarrow> 0 < arrayindex k \<and> arrayindex k \<le> int m"
proof
  assume "in_array m k"
  then obtain i where "i < m" "k = num_key i" by (auto simp: in_array_def)
  then show "0 < arrayindex k \<and> arrayindex k \<le> int m"
    using assms arrayindex_num_key [of i] by (simp add: MAXASIZE_def MAXBITS_def)
next
  assume a: "0 < arrayindex k \<and> arrayindex k \<le> int m"
  then have "k = num_key (nat (arrayindex k - 1))" "nat (arrayindex k - 1) < m" using arrayindex_pos by auto
  then show "in_array m k" by (auto simp: in_array_def)
qed

section \<open>Lookup\<close>

lemma rawequal_key: "key_ok k \<or> k = TNumber NaN \<and> l \<noteq> TNumber NaN \<Longrightarrow> luaO_rawequalObj l k \<longleftrightarrow> l = k"
  by (cases l; cases k) (auto simp: luaO_rawequalObj_def luai_numeq_def key_ok_def)

definition found :: "TableRep \<Rightarrow> TValue \<Rightarrow> tslot option \<Rightarrow> bool" where
  "found t k p \<longleftrightarrow> (case p of Some a \<Rightarrow> slot_in t a \<and> slot_key t a = k
     | None \<Rightarrow> k \<notin> node_keys t \<and> \<not> in_array (sizearray t) k)"

lemma find_in_nodes:
  assumes t: "table_ok t" and k: "k \<noteq> TNil" "\<not> in_array (sizearray t) k"
    and P: "\<And>n. n \<in> set (node t) \<Longrightarrow> P n \<longleftrightarrow> i_key n = k"
  shows "\<exists>p. map_option (map_option NodeSlot) (chain_find P (node t) (mainposition (sizenode t) k)) = Some p \<and> found t k p"
proof (cases "\<exists>i < sizenode t. i_key (node t ! i) = k")
  case True
  then obtain i where i: "i < sizenode t" "i_key (node t ! i) = k" by blast
  have "chain_find P (node t) (mainposition (sizenode t) k) = Some (Some i)"
    by (rule nodes_find(1) [where k = k]) (use table_okD [OF t] k i P in auto)
  then show ?thesis using i by (auto simp: found_def slot_simps)
next
  case False
  then have "chain_find P (node t) (mainposition (sizenode t) k) = Some None"
    by (intro nodes_find(2) [where k = k]) (use table_okD [OF t] k P in auto)
  moreover have "k \<notin> node_keys t" using False by (auto simp: node_keys_def in_set_conv_nth)
  ultimately show ?thesis using k by (auto simp: found_def)
qed

lemma unsigned_index:
  fixes k m :: int
  assumes "- (2 ^ 31) \<le> k" "k < 2 ^ 31" "m \<le> 2 ^ 26"
  shows "(k - 1) mod 2 ^ 32 < m \<longleftrightarrow> 1 \<le> k \<and> k \<le> m"
proof (cases "1 \<le> k")
  case True
  then have "(k - 1) mod 2 ^ 32 = k - 1" using assms by (intro mod_pos_pos_trivial) auto
  then show ?thesis using True by auto
next
  case False
  have "(k - 1 + 2 ^ 32) mod 2 ^ 32 = k - 1 + 2 ^ 32" using assms False by (intro mod_pos_pos_trivial) auto
  moreover have "(k - 1 + 2 ^ 32) mod 2 ^ 32 = (k - 1) mod 2 ^ 32" by (rule mod_add_self2)
  ultimately have "(k - 1) mod 2 ^ 32 = k - 1 + 2 ^ 32" by linarith
  then show ?thesis using False assms by simp
qed

lemma arrayindex_cast: "- (2 ^ 31) \<le> k \<Longrightarrow> k < 2 ^ 31 \<Longrightarrow> arrayindex (TNumber (cast_num k)) = k"
  by (simp add: arrayindex_def Let_def luai_numeq_def) (simp add: cast_num_def)

lemma getnum_found:
  assumes t: "table_ok t" and k: "- (2 ^ 31) \<le> k" "k < 2 ^ 31"
  shows "\<exists>p. luaH_getnum t k = Some p \<and> found t (TNumber (cast_num k)) p"
proof -
  have small: "int (sizearray t) \<le> 2 ^ 26" using table_okD(6) [OF t] by (simp add: MAXASIZE_def MAXBITS_def)
  have arr: "in_array (sizearray t) (TNumber (cast_num k)) \<longleftrightarrow> 1 \<le> k \<and> k \<le> int (sizearray t)"
    using arrayindex_in_array [OF table_okD(6) [OF t]] arrayindex_cast [OF k] by auto
  note idx = unsigned_index [OF k small]
  show ?thesis
  proof (cases "1 \<le> k \<and> k \<le> int (sizearray t)")
    case True
    then have "num_key (nat (k - 1)) = TNumber (cast_num k)" by (simp add: num_key_def)
    moreover have "luaH_getnum t k = Some (Some (ArraySlot (nat (k - 1))))"
      unfolding luaH_getnum_def idx using True by simp
    ultimately show ?thesis using True by (auto simp: found_def slot_simps)
  next
    case False
    let ?P = "\<lambda>n. case i_key n of TNumber x \<Rightarrow> luai_numeq x (cast_num k) | _ \<Rightarrow> False"
    have "?P n \<longleftrightarrow> i_key n = TNumber (cast_num k)" for n
      by (auto simp: luai_numeq_def cast_num_def split: TValue.split)
    from find_in_nodes [OF t, of "TNumber (cast_num k)" ?P, OF _ _ this]
    show ?thesis unfolding luaH_getnum_def idx using False arr by (auto simp: mainposition_def)
  qed
qed

lemma get_found:
  assumes t: "table_ok t" and "k \<noteq> TNil"
  shows "\<exists>p. tbl_get t k = Some p \<and> found t k p"
proof -
  have any: "\<exists>p. get_any t k = Some p \<and> found t k p" if "\<not> in_array (sizearray t) k"
    unfolding get_any_def
  proof (rule find_in_nodes [OF t assms(2) that])
    fix n
    assume "n \<in> set (node t)"
    then have "i_key n = TNil \<or> key_ok (i_key n)" using table_okD(5) [OF t] by (auto simp: node_keys_def)
    then show "luaO_rawequalObj (i_key n) k \<longleftrightarrow> i_key n = k"
      using assms(2) by (intro rawequal_key) (auto simp: key_ok_def)
  qed
  show ?thesis
  proof (cases k)
    case (TNumber n)
    show ?thesis
    proof (cases "luai_numeq (cast_num (lua_number2int n)) n")
      case True
      then obtain j where j: "n = cast_num j" "- (2 ^ 31) \<le> j" "j < 2 ^ 31" using number2int_iff by auto
      then have "tbl_get t k = luaH_getnum t j" using TNumber True by (simp add: tbl_get_def Let_def)
      with getnum_found [OF t j(2,3)] j(1) TNumber show ?thesis by simp
    next
      case False
      have "\<not> in_array (sizearray t) k"
        unfolding arrayindex_in_array [OF table_okD(6) [OF t]] using False TNumber by (simp add: arrayindex_def Let_def)
      then show ?thesis using any False TNumber by (simp add: tbl_get_def Let_def)
    qed
  next
    case (TString str)
    have "\<not> in_array (sizearray t) k" using TString by (auto simp: in_array_def num_key_def)
    from find_in_nodes [OF t assms(2) this, of "\<lambda>n. i_key n = TString str"] TString
    show ?thesis by (simp add: tbl_get_def luaH_getstr_def mainposition_def)
  qed (use assms(2) any in \<open>auto simp: tbl_get_def in_array_def num_key_def\<close>)
qed

lemma found_unique:
  assumes t: "table_ok t" and p: "found t k p" and a: "slot_in t a" "slot_key t a = k" "k \<noteq> TNil"
  shows "p = Some a"
proof -
  have node: "k \<in> node_keys t" if "i < sizenode t" "i_key (node t ! i) = k" for i
    using that a(3) by (auto simp: node_keys_def)
  have arr: "in_array (sizearray t) k" if "i < sizearray t" "num_key i = k" for i
    using that by (auto simp: in_array_def)
  have two: "i = j" if "i < sizenode t" "j < sizenode t" "i_key (node t ! i) = k" "i_key (node t ! j) = k" for i j
    using vec_okD(7) [OF table_okD(1) [OF t, unfolded nodes_ok_def]] that a(3) by (auto simp: keys_distinct_def)
  show ?thesis
    using p a node arr table_okD(5) [OF t, of k] two
    by (cases p; cases a; cases "the p") (auto simp: found_def slot_simps)
qed

lemma live_iff: "(k, v) \<in> live t \<longleftrightarrow> v \<noteq> TNil \<and> (\<exists>a. slot_in t a \<and> slot_key t a = k \<and> slot_val t a = v)"
proof
  assume "(k, v) \<in> live t"
  then consider (arr) i where "i < sizearray t" "array t ! i \<noteq> TNil" "k = num_key i" "v = array t ! i"
    | (nod) i where "i < sizenode t" "i_val (node t ! i) \<noteq> TNil" "k = i_key (node t ! i)" "v = i_val (node t ! i)"
    by (auto simp: live_def live_array_def live_nodes_def)
  then show "v \<noteq> TNil \<and> (\<exists>a. slot_in t a \<and> slot_key t a = k \<and> slot_val t a = v)"
  proof cases
    case arr
    then show ?thesis by (auto simp: slot_simps intro!: exI [of _ "ArraySlot i"])
  next
    case nod
    then show ?thesis by (auto simp: slot_simps intro!: exI [of _ "NodeSlot i"])
  qed
next
  assume "v \<noteq> TNil \<and> (\<exists>a. slot_in t a \<and> slot_key t a = k \<and> slot_val t a = v)"
  then obtain a where "v \<noteq> TNil" "slot_in t a" "slot_key t a = k" "slot_val t a = v" by blast
  then show "(k, v) \<in> live t"
    by (cases a) (auto simp: slot_simps live_def live_array_def live_nodes_def)
qed

text \<open>A table holds at most one value of a key, and reading it returns that value.\<close>

lemma found_value:
  assumes "table_ok t" "k \<noteq> TNil" "found t k p"
  shows "read_slot t p = v \<and> v \<noteq> TNil \<longleftrightarrow> (k, v) \<in> live t"
proof
  assume "read_slot t p = v \<and> v \<noteq> TNil"
  then show "(k, v) \<in> live t" using assms(3) by (auto simp: live_iff read_slot_def found_def split: option.splits)
next
  assume "(k, v) \<in> live t"
  then obtain a where "v \<noteq> TNil" "slot_in t a" "slot_key t a = k" "slot_val t a = v" by (auto simp: live_iff)
  with found_unique [OF assms(1,3)] assms(2) show "read_slot t p = v \<and> v \<noteq> TNil" by (auto simp: read_slot_def)
qed

lemma live_functional: "table_ok t \<Longrightarrow> k \<noteq> TNil \<Longrightarrow> (k, v) \<in> live t \<Longrightarrow> (k, w) \<in> live t \<Longrightarrow> v = w"
  using get_found found_value by metis

lemma live_keys_ok:
  assumes "table_ok t" "(k, v) \<in> live t"
  shows "key_ok k"
proof -
  note v = table_okD(1) [OF assms(1), unfolded nodes_ok_def]
  have "key_ok (i_key (node t ! i))" if i: "i < sizenode t" "i_val (node t ! i) \<noteq> TNil" for i
  proof -
    have "i_key (node t ! i) \<noteq> TNil" using vec_okD(5) [OF v] i by (auto simp: free_alone_def)
    then show ?thesis using table_okD(5) [OF assms(1)] i(1) by (auto simp: node_keys_def)
  qed
  then show ?thesis using assms(2) by (auto simp: live_def live_array_def live_nodes_def)
qed

section \<open>Writing\<close>

definition write_to :: "tslot \<Rightarrow> TValue \<Rightarrow> TableRep \<Rightarrow> TableRep" where
  "write_to a v t = (case a of
     ArraySlot i \<Rightarrow> t\<lparr>array := (array t)[i := v]\<rparr>
   | NodeSlot i \<Rightarrow> t\<lparr>node := (node t)[i := (node t ! i)\<lparr>i_val := v\<rparr>]\<rparr>)"

lemma write_val_apply: "write_val a v t = Ret () (write_to a v t)"
  by (simp add: write_val_def modify_def write_to_def)

lemma write_sizes [simp]:
  "sizearray (write_to a v t) = sizearray t" "sizenode (write_to a v t) = sizenode t"
  "isdummy (write_to a v t) = isdummy t" "lastfree (write_to a v t) = lastfree t"
  by (simp_all add: write_to_def split: tslot.split)

lemma write_slots [simp]:
  "slot_in (write_to a v t) b = slot_in t b" "slot_key (write_to a v t) b = slot_key t b"
  by (auto simp: slot_simps write_to_def nth_list_update split: tslot.splits)
     (metis Node.select_convs(2) Node.surjective Node.update_convs(1) list_update_beyond not_le nth_list_update_eq nth_list_update_neq)+

lemma write_slot_val: "slot_in t a \<Longrightarrow> slot_val (write_to a v t) b = (if b = a then v else slot_val t b)"
  by (auto simp: slot_simps write_to_def nth_list_update split: tslot.splits)

lemma write_maps:
  "map i_key (node (write_to a v t)) = map i_key (node t)" "map i_next (node (write_to a v t)) = map i_next (node t)"
  "map i_val (node (write_to a v t)) = (case a of ArraySlot i \<Rightarrow> map i_val (node t) | NodeSlot i \<Rightarrow> (map i_val (node t))[i := v])"
proof -
  show "map i_key (node (write_to a v t)) = map i_key (node t)"
    by (cases a) (simp_all add: write_to_def map_update, metis list_update_id map_update)
  show "map i_next (node (write_to a v t)) = map i_next (node t)"
    by (cases a) (simp_all add: write_to_def map_update, metis list_update_id map_update)
  show "map i_val (node (write_to a v t)) = (case a of ArraySlot i \<Rightarrow> map i_val (node t) | NodeSlot i \<Rightarrow> (map i_val (node t))[i := v])"
    by (cases a) (simp_all add: write_to_def map_update)
qed

lemma keys_of_maps: "map i_key ns = map i_key ms \<Longrightarrow> i_key ` set ns = i_key ` set ms"
  by (metis list.set_map)

lemma nth_of_maps: "map f ns = map f ms \<Longrightarrow> i < length ns \<Longrightarrow> f (ns ! i) = f (ms ! i)"
  by (metis length_map nth_map)

lemma write_ok:
  assumes t: "table_ok t" and a: "slot_in t a" "slot_key t a \<noteq> TNil"
  shows "table_ok (write_to a v t)"
proof -
  have "nodes_ok (mainposition (sizenode t)) (node (write_to a v t))"
  proof (cases a)
    case (ArraySlot i)
    then show ?thesis using table_okD(1) [OF t] by (simp add: write_to_def)
  next
    case (NodeSlot i)
    then have "map i_key (node t) ! i \<noteq> TNil" using a by (simp add: slot_simps)
    from vec_ok_write [OF _ this, of "mainposition (sizenode t)"] table_okD(1) [OF t] NodeSlot
    show ?thesis by (simp add: nodes_ok_def write_maps)
  qed
  moreover have "node_keys (write_to a v t) = node_keys t"
    unfolding node_keys_def using keys_of_maps [OF write_maps(1)] by simp
  moreover have "lastfree_ok (write_to a v t)"
    using table_okD(3) [OF t] nth_of_maps [OF write_maps(1), of _ a v t] by (simp add: lastfree_ok_def split: if_splits)
  moreover have "isdummy t \<longrightarrow> node (write_to a v t) = [empty_node]"
    using table_okD(2) [OF t] a by (cases a) (auto simp: write_to_def slot_simps empty_node_def)
  ultimately show ?thesis using t by (simp add: table_ok_def)
qed

lemma slot_key_unique:
  "table_ok t \<Longrightarrow> slot_in t a \<Longrightarrow> slot_in t b \<Longrightarrow> slot_key t a = slot_key t b \<Longrightarrow> slot_key t a \<noteq> TNil \<Longrightarrow> a = b"
  using found_unique [of t "slot_key t a" "Some b" a] by (auto simp: found_def)

lemma live_write:
  assumes t: "table_ok t" and a: "slot_in t a" "slot_key t a = k" "k \<noteq> TNil"
  shows "(j, w) \<in> live (write_to a v t) \<longleftrightarrow> (if j = k then w = v \<and> v \<noteq> TNil else (j, w) \<in> live t)"
proof (cases "j = k")
  case True
  have "slot_in t b \<Longrightarrow> slot_key t b = k \<Longrightarrow> b = a" for b using slot_key_unique [OF t _ a(1)] a by metis
  then have "(\<exists>b. slot_in t b \<and> slot_key t b = k \<and> slot_val (write_to a v t) b = w) \<longleftrightarrow> w = v"
    using a write_slot_val [OF a(1)] by metis
  then show ?thesis using True unfolding live_iff by auto
next
  case False
  then have "slot_val (write_to a v t) b = slot_val t b" if "slot_key t b = j" for b
    using that a(2) write_slot_val [OF a(1)] by metis
  then show ?thesis using False unfolding live_iff by auto
qed

section \<open>New keys\<close>

lemma free_loop_result:
  assumes "l \<le> int (length ns)" "\<forall>i < length ns. l \<le> int i \<longrightarrow> i_key (ns ! i) \<noteq> TNil"
  shows "(\<exists>n. free_loop ns l = (Some n, int n) \<and> n < length ns \<and> i_key (ns ! n) = TNil
            \<and> (\<forall>i < length ns. n < i \<longrightarrow> i_key (ns ! i) \<noteq> TNil))
       \<or> (fst (free_loop ns l) = None \<and> snd (free_loop ns l) \<le> 0 \<and> (\<forall>i < length ns. i_key (ns ! i) \<noteq> TNil))"
  using assms
proof (induction ns l rule: free_loop.induct)
  case (1 ns l)
  show ?case
  proof (cases "l > 0")
    case True
    define n where "n = nat (l - 1)"
    have n: "l = int n + 1" "n < length ns" using True "1.prems"(1) by (auto simp: n_def)
    show ?thesis
    proof (cases "i_key (ns ! n) = TNil")
      case free: True
      then have "free_loop ns l = (Some n, int n)" by (subst free_loop.simps) (simp add: n(1))
      moreover have "\<forall>i < length ns. n < i \<longrightarrow> i_key (ns ! i) \<noteq> TNil" using "1.prems"(2) n(1) by auto
      ultimately show ?thesis using free n(2) by auto
    next
      case False
      have "l - 1 \<le> int (length ns)" using n by simp
      moreover have "\<forall>i < length ns. l - 1 \<le> int i \<longrightarrow> i_key (ns ! i) \<noteq> TNil"
      proof (intro allI impI)
        fix i
        assume "i < length ns" "l - 1 \<le> int i"
        then show "i_key (ns ! i) \<noteq> TNil" using "1.prems"(2) False n(1) by (cases "i = n") auto
      qed
      moreover have "free_loop ns l = free_loop ns (l - 1)"
        using True False by (simp add: free_loop.simps [of ns l] n_def)
      ultimately show ?thesis using "1.IH" [OF True] False by (simp add: n_def)
    qed
  next
    case False
    then show ?thesis using "1.prems"(2) by (auto simp: free_loop.simps [of ns l])
  qed
qed

definition added :: "TableRep \<Rightarrow> TValue \<Rightarrow> tslot \<Rightarrow> TableRep \<Rightarrow> bool" where
  "added t k a u \<longleftrightarrow> table_ok u \<and> live u = live t \<and> slot_in u a \<and> slot_key u a = k \<and> sizearray u = sizearray t
     \<and> sizenode u = sizenode t \<and> isdummy u = isdummy t \<and> node_keys u \<subseteq> insert k (node_keys t)"

lemma room_free:
  assumes "table_ok t" "card (node_keys t) < sizenode t"
  shows "\<exists>i < sizenode t. i_key (node t ! i) = TNil"
proof (rule ccontr)
  assume "\<not> ?thesis"
  then have full: "\<forall>i < sizenode t. i_key (node t ! i) \<noteq> TNil" by blast
  then have "distinct (map i_key (node t))"
    using vec_okD(7) [OF table_okD(1) [OF assms(1), unfolded nodes_ok_def]]
    by (auto simp: distinct_conv_nth keys_distinct_def)
  then have "card (i_key ` set (node t)) = sizenode t" using distinct_card by fastforce
  moreover have "node_keys t = i_key ` set (node t)" using full by (force simp: node_keys_def in_set_conv_nth)
  ultimately show False using assms(2) by simp
qed

lemma added_nodes:
  assumes t: "table_ok t" "\<not> isdummy t" and k: "key_ok k" "\<not> in_array (sizearray t) k"
    and ns: "nodes_ok (mainposition (sizenode t)) ns" "live_nodes ns = live_nodes (node t)" "length ns = sizenode t"
    and keys: "i < sizenode t" "i_key (ns ! i) = k" "i_key ` set ns \<subseteq> insert TNil (insert k (node_keys t))"
    and l: "l \<le> int (sizenode t)" "\<forall>j < sizenode t. l \<le> int j \<longrightarrow> i_key (ns ! j) \<noteq> TNil"
  shows "added t k (NodeSlot i) (t\<lparr>lastfree := l, node := ns\<rparr>)"
proof -
  let ?u = "t\<lparr>lastfree := l, node := ns\<rparr>"
  have keys': "node_keys ?u \<subseteq> insert k (node_keys t)" using keys(3) by (auto simp: node_keys_def)
  then have "\<forall>j \<in> node_keys ?u. key_ok j \<and> \<not> in_array (sizearray t) j" using table_okD(5) [OF t(1)] k by auto
  then have "table_ok ?u" using t ns l by (simp add: table_ok_def lastfree_ok_def)
  then show ?thesis using ns keys keys' by (simp add: added_def live_def slot_simps)
qed

lemma set_key_nth: "i < length ns \<Longrightarrow> i_key (set_key i k ns ! j) = (if j = i then k else i_key (ns ! j))"
  by (simp add: set_key_def nth_list_update)

lemma put_key_apply [simp]: "put_key i k t = Ret (NodeSlot i) (t\<lparr>node := set_key i k (node t)\<rparr>)"
  by (simp add: put_key_def prog_defs)

lemma keys_subset: "i_key ` set ns \<subseteq> K \<longleftrightarrow> (\<forall>j < length ns. i_key (ns ! j) \<in> K)"
  by (auto simp: set_conv_nth)

lemma table_rep_eq: "t\<lparr>lastfree := lastfree t, node := ns\<rparr> = t\<lparr>node := ns\<rparr>"
  by simp

lemma added_reuse:
  assumes t: "table_ok t" "\<not> isdummy t" and k: "key_ok k" "\<not> in_array (sizearray t) k" "k \<notin> node_keys t"
    and mp: "i_val (node t ! mainposition (sizenode t) k) = TNil"
  shows "added t k (NodeSlot (mainposition (sizenode t) k)) (t\<lparr>node := set_key (mainposition (sizenode t) k) k (node t)\<rparr>)"
proof -
  let ?pos = "mainposition (sizenode t)"
  note T = table_okD [OF t(1)]
  have "k \<noteq> TNil" using k(1) by (simp add: key_ok_def)
  have "added t k (NodeSlot (?pos k)) (t\<lparr>lastfree := lastfree t, node := set_key (?pos k) k (node t)\<rparr>)"
  proof (rule added_nodes [OF t k(1,2)])
    show "nodes_ok ?pos (set_key (?pos k) k (node t))"
      using T(1,4) mp k(3) \<open>k \<noteq> TNil\<close> by (intro nodes_reuse) (auto simp: node_keys_def)
    show "live_nodes (set_key (?pos k) k (node t)) = live_nodes (node t)" using T(4) mp by (rule live_nodes_set_key)
    show "i_key ` set (set_key (?pos k) k (node t)) \<subseteq> insert TNil (insert k (node_keys t))"
      using T(4) by (auto simp: keys_subset set_key_nth node_keys_def)
  qed (use T(3,4) t(2) \<open>k \<noteq> TNil\<close> in \<open>simp_all add: set_key_nth lastfree_ok_def\<close>)
  then show ?thesis by simp
qed

lemma getfreepos_apply: "getfreepos t = (case free_loop (node t) (lastfree t) of (r, l) \<Rightarrow> Ret r (t\<lparr>lastfree := l\<rparr>))"
  by (simp add: getfreepos_def prog_defs split: prod.split)

lemma getfreepos_free:
  assumes t: "table_ok t" "\<not> isdummy t" and "card (node_keys t) < sizenode t"
  obtains n where "getfreepos t = Ret (Some n) (t\<lparr>lastfree := int n\<rparr>)" "n < sizenode t" "i_key (node t ! n) = TNil"
    "\<forall>i < sizenode t. n < i \<longrightarrow> i_key (node t ! i) \<noteq> TNil"
proof -
  have "lastfree t \<le> int (sizenode t)" "\<forall>i < sizenode t. lastfree t \<le> int i \<longrightarrow> i_key (node t ! i) \<noteq> TNil"
    using table_okD(3) [OF t(1)] t(2) by (auto simp: lastfree_ok_def)
  from free_loop_result [OF this] room_free [OF t(1) assms(3)] that show thesis
    by (auto simp: getfreepos_apply)
qed

lemma newkey_room:
  assumes t: "table_ok t" "\<not> isdummy t" and k: "key_ok k" "\<not> in_array (sizearray t) k" "k \<notin> node_keys t"
    and room: "card (node_keys t) < sizenode t"
  shows "\<exists>a u. newkey (Suc d) k t = Ret a u \<and> added t k a u"
proof (cases "i_val (node t ! mainposition (sizenode t) k) = TNil")
  case True
  then have "newkey (Suc d) k t = Ret (NodeSlot (mainposition (sizenode t) k))
      (t\<lparr>node := set_key (mainposition (sizenode t) k) k (node t)\<rparr>)"
    using t(2) by (simp add: bnd_def gets_def)
  then show ?thesis using added_reuse [OF t k True] by blast
next
  case False
  let ?pos = "mainposition (sizenode t)"
  define mp where "mp = ?pos k"
  note T = table_okD [OF t(1)]
  have k0: "k \<noteq> TNil" using k(1) by (simp add: key_ok_def)
  obtain n where n: "getfreepos t = Ret (Some n) (t\<lparr>lastfree := int n\<rparr>)" "n < sizenode t" "i_key (node t ! n) = TNil"
    "\<forall>i < sizenode t. n < i \<longrightarrow> i_key (node t ! i) \<noteq> TNil"
    using getfreepos_free [OF t room] by blast
  have c: "collision ?pos (map i_next (node t)) (map i_key (node t)) (map i_val (node t)) k mp n"
    unfolding mp_def using T(1,4) False k(3) k0 n by (intro nodes_collision) (auto simp: node_keys_def)
  note C = collisionD [OF c, simplified]
  have old: "i_key (node t ! j) \<in> insert TNil (node_keys t)" if "j < sizenode t" for j using that by (auto simp: node_keys_def)
  show ?thesis
  proof (cases "?pos (i_key (node t ! mp)) = mp")
    case True
    note B = nodes_behind [OF c True] and m = chain_node_maps [OF C(2,3,6)]
    have key: "i_key (set_key n k (chain_node mp n (node t)) ! j) = (if j = n then k else i_key (node t ! j))" if "j < sizenode t" for j
      using that C(3) m(1) nth_of_maps [OF m(3)] by (simp add: set_key_nth)
    have "added t k (NodeSlot n) (t\<lparr>lastfree := int n, node := set_key n k (chain_node mp n (node t))\<rparr>)"
      by (rule added_nodes [OF t k(1,2) B(1,2)])
         (use m(1) n k0 key old in \<open>auto simp: keys_subset\<close>)
    moreover have "newkey (Suc d) k t = Ret (NodeSlot n) (t\<lparr>lastfree := int n, node := set_key n k (chain_node mp n (node t))\<rparr>)"
      using False n(1) True by (simp add: bnd_def gets_def andThen_def modify_def flip: mp_def)
    ultimately show ?thesis by blast
  next
    case other: False
    from nodes_move [OF c other] obtain prev where p: "find_previous (node t) mp (?pos (i_key (node t ! mp))) = Some prev"
      and B: "nodes_ok ?pos (set_key mp k (move_node prev mp n (node t)))"
        "live_nodes (set_key mp k (move_node prev mp n (node t))) = live_nodes (node t)"
        "length (move_node prev mp n (node t)) = sizenode t"
        "map i_key (set_key mp k (move_node prev mp n (node t))) = (map i_key (node t))[n := i_key (node t ! mp), mp := k]"
      by blast
    have key: "i_key (set_key mp k (move_node prev mp n (node t)) ! j) =
        (if j = mp then k else if j = n then i_key (node t ! mp) else i_key (node t ! j))" if "j < sizenode t" for j
      using arg_cong [OF B(4), of "\<lambda>l. l ! j"] that B(3) C(2,3) by (simp add: nth_list_update set_key_nth split: if_splits)
    have "added t k (NodeSlot mp) (t\<lparr>lastfree := int n, node := set_key mp k (move_node prev mp n (node t))\<rparr>)"
      by (rule added_nodes [OF t k(1,2) B(1,2)])
         (use B(3) n k0 key old C(2,4) in \<open>auto simp: keys_subset\<close>)
    moreover have "newkey (Suc d) k t = Ret (NodeSlot mp) (t\<lparr>lastfree := int n, node := set_key mp k (move_node prev mp n (node t))\<rparr>)"
      using False n(1) other p by (simp add: bnd_def gets_def andThen_def modify_def defined_def ret_def flip: mp_def)
    ultimately show ?thesis by blast
  qed
qed

end
