(* ===== verification/LuaRehash.thy ===== *)
theory LuaRehash
  imports LuaTableInv
begin

text \<open>
  Insertion into a table with room, and \<open>resize\<close>: the elements of a vanishing part of the array and of
  the old nodes are inserted again, so that no pair is lost and no insertion has to resize once more.
\<close>

section \<open>Insertion when there is room\<close>

lemma flags_irrelevant [simp]:
  "table_ok (t\<lparr>flags := x\<rparr>) = table_ok t" "live (t\<lparr>flags := x\<rparr>) = live t" "slot_in (t\<lparr>flags := x\<rparr>) a = slot_in t a"
  "slot_key (t\<lparr>flags := x\<rparr>) a = slot_key t a" "node_keys (t\<lparr>flags := x\<rparr>) = node_keys t"
  "slot_val (t\<lparr>flags := x\<rparr>) a = slot_val t a" "added (t\<lparr>flags := x\<rparr>) k a u = added t k a u"
  "added t k a (u\<lparr>flags := x\<rparr>) = added t k a u"
  by (cases a; simp add: table_ok_def live_def slot_simps node_keys_def lastfree_ok_def added_def)+

definition has_room :: "TableRep \<Rightarrow> TValue \<Rightarrow> bool" where
  "has_room t k \<longleftrightarrow> in_array (sizearray t) k \<or> k \<in> node_keys t \<or> (\<not> isdummy t \<and> card (node_keys t) < sizenode t)"

text \<open>\<open>inserts g k\<close>: where there is room, \<open>g\<close> returns a slot of the key and keeps all pairs.\<close>

definition inserts :: "tslot tprog \<Rightarrow> TValue \<Rightarrow> bool" where
  "inserts g k \<longleftrightarrow> (\<forall>t. table_ok t \<longrightarrow> has_room t k \<longrightarrow> (\<exists>a u. g t = Ret a u \<and> added t k a u))"

lemma added_found: "table_ok t \<Longrightarrow> found t k (Some a) \<Longrightarrow> added t k a t"
  by (auto simp: added_def found_def)

lemma not_found_room:
  assumes "table_ok t" "found t k None" "has_room t k"
  shows "k \<notin> node_keys t" "\<not> in_array (sizearray t) k" "\<not> isdummy t" "card (node_keys t) < sizenode t"
  using assms by (auto simp: found_def has_room_def)

lemma set_inserts: "key_ok k \<Longrightarrow> inserts (tbl_set_by (newkey (Suc d)) k) k"
  unfolding inserts_def
proof (intro allI impI)
  fix t
  assume k: "key_ok k" and t: "table_ok t" "has_room t k"
  then have k0: "k \<noteq> TNil" "k \<noteq> TNumber NaN" by (simp_all add: key_ok_def)
  from get_found [OF t(1) k0(1)] obtain p where p: "tbl_get t k = Some p" "found t k p" by blast
  show "\<exists>a u. tbl_set_by (newkey (Suc d)) k t = Ret a u \<and> added t k a u"
  proof (cases p)
    case (Some a)
    then have "tbl_set_by (newkey (Suc d)) k t = Ret a (t\<lparr>flags := 0\<rparr>)"
      using p by (simp add: tbl_set_by_def prog_defs)
    then show ?thesis using added_found [OF t(1)] p Some by simp
  next
    case None
    then have "tbl_set_by (newkey (Suc d)) k t = newkey (Suc d) k (t\<lparr>flags := 0\<rparr>)"
      using p k0 by (simp add: tbl_set_by_def bnd_def gets_def defined_def ret_def andThen_def modify_def del: newkey.simps)
    moreover have "\<exists>a u. newkey (Suc d) k (t\<lparr>flags := 0\<rparr>) = Ret a u \<and> added (t\<lparr>flags := 0\<rparr>) k a u"
      by (rule newkey_room) (use not_found_room [OF t(1) p(2) [unfolded None] t(2)] t(1) k in simp_all)
    ultimately show ?thesis by simp
  qed
qed

lemma setnum_inserts:
  assumes i: "i < 2 ^ 26"
  shows "inserts (luaH_setnum_by (newkey (Suc d)) (int i + 1)) (num_key i)"
  unfolding inserts_def
proof (intro allI impI)
  fix t
  assume t: "table_ok t" "has_room t (num_key i)"
  have "\<exists>p. luaH_getnum t (int i + 1) = Some p \<and> found t (num_key i) p"
    using getnum_found [OF t(1), of "int i + 1"] i by (simp add: num_key_def)
  then obtain p where p: "luaH_getnum t (int i + 1) = Some p" "found t (num_key i) p" by blast
  show "\<exists>a u. luaH_setnum_by (newkey (Suc d)) (int i + 1) t = Ret a u \<and> added t (num_key i) a u"
  proof (cases p)
    case (Some a)
    then have "luaH_setnum_by (newkey (Suc d)) (int i + 1) t = Ret a t"
      using p by (simp add: luaH_setnum_by_def prog_defs)
    then show ?thesis using added_found [OF t(1)] p Some by simp
  next
    case None
    then have "luaH_setnum_by (newkey (Suc d)) (int i + 1) t = newkey (Suc d) (num_key i) t"
      using p by (simp add: luaH_setnum_by_def bnd_def gets_def defined_def ret_def num_key_def del: newkey.simps)
    moreover have "\<exists>a u. newkey (Suc d) (num_key i) t = Ret a u \<and> added t (num_key i) a u"
      by (rule newkey_room) (use not_found_room [OF t(1) p(2) [unfolded None] t(2)] t(1) in simp_all)
    ultimately show ?thesis by simp
  qed
qed

section \<open>Loops of insertions\<close>

text \<open>No node holds a key without a value: so it is in a table that was just resized.\<close>

definition tight :: "TableRep \<Rightarrow> bool" where
  "tight t \<longleftrightarrow> node_keys t \<subseteq> fst ` live t"

definition capacity :: "TableRep \<Rightarrow> TValue set \<Rightarrow> bool" where
  "capacity t K \<longleftrightarrow> finite K \<and> (if isdummy t then \<forall>k \<in> K. in_array (sizearray t) k
     else card {k \<in> K. \<not> in_array (sizearray t) k} \<le> sizenode t)"

lemma capacity_room:
  assumes t: "table_ok t" "tight t" and K: "capacity t K" "fst ` live t \<subseteq> K" "k \<in> K"
  shows "has_room t k"
proof (rule ccontr)
  assume no: "\<not> has_room t k"
  let ?N = "{j \<in> K. \<not> in_array (sizearray t) j}"
  have "node_keys t \<subseteq> ?N - {k}"
    using t(2) table_okD(5) [OF t(1)] K(2) no by (auto simp: tight_def has_room_def)
  moreover have "finite ?N" "k \<in> ?N" using K no by (auto simp: capacity_def has_room_def)
  ultimately have "card (node_keys t) < card ?N"
    by (meson Diff_subset card_Diff1_less card_mono finite_Diff order.strict_trans1)
  then show False using K no by (auto simp: capacity_def has_room_def split: if_splits)
qed

lemma put_step:
  assumes g: "inserts g k" and t: "table_ok t" "has_room t k" and v: "k \<noteq> TNil" "v \<noteq> TNil" "k \<notin> fst ` live t"
  shows "\<exists>u. bnd g (\<lambda>a. write_val a v) t = Ret () u \<and> table_ok u \<and> live u = insert (k, v) (live t)
     \<and> sizearray u = sizearray t \<and> sizenode u = sizenode t \<and> isdummy u = isdummy t \<and> (tight t \<longrightarrow> tight u)"
proof -
  obtain a w where a: "g t = Ret a w" "added t k a w" using g t by (auto simp: inserts_def)
  let ?u = "write_to a v w"
  have w: "table_ok w" "slot_in w a" "slot_key w a = k" "live w = live t" using a(2) by (simp_all add: added_def)
  have live: "live ?u = insert (k, v) (live t)"
  proof -
    have "(j, x) \<in> live ?u \<longleftrightarrow> (j, x) \<in> insert (k, v) (live t)" for j x
    proof -
      have "j = k \<Longrightarrow> (j, x) \<notin> live t" using v(3) by force
      then show ?thesis unfolding live_write [OF w(1-3) v(1)] w(4) using v(2) by auto
    qed
    then show ?thesis by auto
  qed
  have "node_keys ?u \<subseteq> insert k (node_keys t)"
    using a(2) keys_of_maps [OF write_maps(1)] by (simp add: added_def node_keys_def)
  then have "tight t \<longrightarrow> tight ?u" using live by (auto simp: tight_def)
  moreover have "bnd g (\<lambda>a. write_val a v) t = Ret () ?u" using a(1) by (simp add: bnd_def write_val_apply)
  moreover have "table_ok ?u" using write_ok w v(1) by simp
  ultimately show ?thesis using live a(2) by (simp add: added_def)
qed

lemma forEach_step: "f x t = Ret () u \<Longrightarrow> forEach (x # xs) f t = forEach xs f u"
  by (simp add: andThen_def bnd_def)

lemma put_loop:
  assumes "\<And>x. x \<in> set xs \<Longrightarrow> inserts (g x) (key x) \<and> key x \<noteq> TNil \<and> val x \<noteq> TNil"
    and "distinct (map key xs)" "key ` set xs \<inter> fst ` live t = {}"
    and "table_ok t" "tight t" "capacity t K" "fst ` live t \<union> key ` set xs \<subseteq> K"
  shows "\<exists>u. forEach xs (\<lambda>x. bnd (g x) (\<lambda>a. write_val a (val x))) t = Ret () u \<and> table_ok u \<and> tight u
     \<and> live u = live t \<union> (\<lambda>x. (key x, val x)) ` set xs
     \<and> sizearray u = sizearray t \<and> sizenode u = sizenode t \<and> isdummy u = isdummy t"
  using assms
proof (induction xs arbitrary: t)
  case Nil
  then show ?case by (simp add: ret_def)
next
  case (Cons x xs)
  have x: "inserts (g x) (key x)" "key x \<noteq> TNil" "val x \<noteq> TNil" "key x \<notin> fst ` live t" using Cons.prems(1,3) by auto
  have "has_room t (key x)" using capacity_room [OF Cons.prems(4,5,6)] Cons.prems(7) by auto
  from put_step [OF x(1) Cons.prems(4) this x(2,3,4)] Cons.prems(5) obtain w where
    w: "bnd (g x) (\<lambda>a. write_val a (val x)) t = Ret () w" "table_ok w" "live w = insert (key x, val x) (live t)" "tight w"
      "sizearray w = sizearray t" "sizenode w = sizenode t" "isdummy w = isdummy t" by blast
  have "\<exists>u. forEach xs (\<lambda>x. bnd (g x) (\<lambda>a. write_val a (val x))) w = Ret () u \<and> table_ok u \<and> tight u
     \<and> live u = live w \<union> (\<lambda>x. (key x, val x)) ` set xs
     \<and> sizearray u = sizearray w \<and> sizenode u = sizenode w \<and> isdummy u = isdummy w"
  proof (rule Cons.IH)
    show "capacity w K" using Cons.prems(6) w(5-7) by (simp add: capacity_def)
    show "key ` set xs \<inter> fst ` live w = {}" using Cons.prems(2,3) w(3) by auto
  qed (use Cons.prems w in auto)
  then obtain u where u: "forEach xs (\<lambda>x. bnd (g x) (\<lambda>a. write_val a (val x))) w = Ret () u" "table_ok u" "tight u"
    "live u = live w \<union> (\<lambda>x. (key x, val x)) ` set xs"
    "sizearray u = sizearray w" "sizenode u = sizenode w" "isdummy u = isdummy w" by blast
  have "forEach (x # xs) (\<lambda>x. bnd (g x) (\<lambda>a. write_val a (val x))) t = Ret () u"
    using forEach_step [of "\<lambda>x. bnd (g x) (\<lambda>a. write_val a (val x))" x t w xs] w(1) u(1) by simp
  then show ?case using u w by auto
qed

section \<open>Resizing\<close>

lemma ceillog2_nat:
  assumes "0 < x" "x \<le> 2 ^ 26"
  obtains l where "ceillog2 (of_nat x) = int l" "l \<le> 26" "x \<le> 2 ^ l" "0 < l \<Longrightarrow> 2 ^ (l - 1) < x"
proof (cases "x = 1")
  case True
  have "luaO_log2 0 = - 1" by (simp add: luaO_log2_def log2_loop.simps log_2_def)
  then show thesis using True that [of 0] by (simp add: ceillog2_def)
next
  case False
  let ?y = "of_nat x - 1 :: 32 word"
  have ux: "unat (of_nat x :: 32 word) = x" using assms by (simp add: unat_of_nat take_bit_nat_eq_self)
  have uy: "unat ?y = x - 1" using assms ux by (subst unat_sub) (auto simp: word_le_nat_alt)
  then have "?y \<noteq> 0" using assms False by (metis diff_is_0_eq le_neq_implies_less nat_neq_iff not_less unat_0 less_one)
  from luaO_log2_floor [OF this] have L: "0 \<le> luaO_log2 ?y" "2 ^ nat (luaO_log2 ?y) \<le> x - 1" "x - 1 < 2 ^ Suc (nat (luaO_log2 ?y))"
    using uy by auto
  define m where "m = nat (luaO_log2 ?y)"
  have "(2::nat) ^ m < 2 ^ 26" using L(2) assms unfolding m_def by linarith
  then have "m < 26" using power_less_imp_less_exp [of "2::nat" m 26] by simp
  then show thesis using L assms by (intro that [of "Suc m"]) (auto simp: ceillog2_def m_def)
qed

lemma setnodevector_result:
  assumes "sz \<le> MAXASIZE"
  obtains lg l where "setnodevector sz t = Ret () (t\<lparr>node := replicate (2 ^ lg) empty_node, isdummy := (sz = 0), lastfree := l\<rparr>)"
    "lg \<le> MAXBITS" "sz \<le> 2 ^ lg" "sz = 0 \<longrightarrow> lg = 0" "l \<le> 2 ^ lg" "if sz = 0 then l \<le> 0 else l = 2 ^ lg"
proof (cases "sz = 0")
  case True
  then show thesis using that [of 0 0] by (simp add: setnodevector_def modify_def)
next
  case False
  then obtain l where "ceillog2 (of_nat sz) = int l" "l \<le> 26" "sz \<le> 2 ^ l"
    using ceillog2_nat [of sz] assms by (auto simp: MAXASIZE_def MAXBITS_def)
  then show thesis using False that [of "2 ^ l" l] by (simp add: setnodevector_def modify_def MAXBITS_def)
qed

definition fresh :: "TValue list \<Rightarrow> nat \<Rightarrow> bool \<Rightarrow> int \<Rightarrow> TableRep \<Rightarrow> TableRep" where
  "fresh arr lg d l t = t\<lparr>array := arr, node := replicate (2 ^ lg) empty_node, isdummy := d, lastfree := l\<rparr>"

lemma fresh_ok:
  assumes "length arr \<le> MAXASIZE" "lg \<le> MAXBITS" "d \<longrightarrow> lg = 0" "l \<le> 2 ^ lg" "if d then l \<le> 0 else l = 2 ^ lg"
  shows "table_ok (fresh arr lg d l t)" "live (fresh arr lg d l t) = live_array arr" "tight (fresh arr lg d l t)"
proof -
  have keys: "node_keys (fresh arr lg d l t) = {}" by (auto simp: node_keys_def fresh_def empty_node_def)
  have "lastfree_ok (fresh arr lg d l t)" using assms(4,5) by (auto simp: lastfree_ok_def fresh_def)
  moreover have "nodes_ok (mainposition (2 ^ lg)) (replicate (2 ^ lg) empty_node)"
    using vec_ok_empty by (simp add: nodes_ok_def empty_node_def)
  ultimately show "table_ok (fresh arr lg d l t)" using assms keys by (auto simp: table_ok_def fresh_def)
  show "live (fresh arr lg d l t) = live_array arr" by (auto simp: live_def live_nodes_def fresh_def empty_node_def)
  show "tight (fresh arr lg d l t)" using keys by (simp add: tight_def)
qed

lemma forEach_whenever: "forEach xs (\<lambda>x. whenever (P x) (f x)) = forEach (filter P xs) f"
  by (induction xs) (simp_all add: whenever_def)

definition array_of_size :: "nat \<Rightarrow> TValue list \<Rightarrow> TValue list" where
  "array_of_size m arr = take m arr @ replicate (m - length arr) TNil"

definition beyond :: "nat \<Rightarrow> TValue list \<Rightarrow> nat list" where
  "beyond m arr = filter (\<lambda>i. arr ! i \<noteq> TNil) [m..<length arr]"

definition used_nodes :: "Node list \<Rightarrow> nat list" where
  "used_nodes ns = filter (\<lambda>i. i_val (ns ! i) \<noteq> TNil) (rev [0..<length ns])"

lemma length_array_of_size [simp]: "length (array_of_size m arr) = m"
  by (simp add: array_of_size_def)

lemma live_array_of_size:
  "live_array (array_of_size m arr) = {(num_key i, arr ! i) | i. i < m \<and> i < length arr \<and> arr ! i \<noteq> TNil}"
proof -
  have "array_of_size m arr ! i = (if i < length arr then arr ! i else TNil)" if "i < m" for i
    using that by (simp add: array_of_size_def nth_append min_def)
  then show ?thesis unfolding live_array_def by (intro Collect_cong arg_cong [of _ _ Ex] ext) (auto split: if_splits)
qed

lemma live_array_split: "live_array arr = live_array (array_of_size m arr) \<union> (\<lambda>i. (num_key i, arr ! i)) ` set (beyond m arr)"
  unfolding live_array_of_size by (auto simp: live_array_def beyond_def)

lemma live_used_nodes: "live_nodes ns = (\<lambda>i. (i_key (ns ! i), i_val (ns ! i))) ` set (used_nodes ns)"
  by (auto simp: live_nodes_def used_nodes_def)

lemma modify_first: "andThen (andThen (modify f) m) n t = andThen m n (f t)"
  by (simp add: andThen_def bnd_def modify_def)

lemma resize_fresh:
  assumes "nasize \<le> MAXASIZE" "nhsize \<le> MAXASIZE"
  obtains lg l where "resize nk nasize nhsize t =
     andThen (forEach (beyond nasize (array t)) (\<lambda>i. bnd (luaH_setnum_by nk (int i + 1)) (\<lambda>a. write_val a (array t ! i))))
      (forEach (used_nodes (node t)) (\<lambda>i. bnd (tbl_set_by nk (i_key (node t ! i))) (\<lambda>a. write_val a (i_val (node t ! i)))))
      (fresh (array_of_size nasize (array t)) lg (nhsize = 0) l t)"
    "lg \<le> MAXBITS" "nhsize \<le> 2 ^ lg" "nhsize = 0 \<longrightarrow> lg = 0" "l \<le> 2 ^ lg" "if nhsize = 0 then l \<le> 0 else l = 2 ^ lg"
proof -
  define t1 where "t1 = (if sizearray t < nasize then t\<lparr>array := array_of_size nasize (array t)\<rparr> else t)"
  have one: "whenever (sizearray t < nasize) (setarrayvector nasize) t = Ret () t1"
    by (simp add: t1_def whenever_def setarrayvector_def modify_def ret_def array_of_size_def)
  obtain lg l where two: "setnodevector nhsize t1 = Ret () (t1\<lparr>node := replicate (2 ^ lg) empty_node, isdummy := (nhsize = 0), lastfree := l\<rparr>)"
    and lg: "lg \<le> MAXBITS" "nhsize \<le> 2 ^ lg" "nhsize = 0 \<longrightarrow> lg = 0" "l \<le> 2 ^ lg" "if nhsize = 0 then l \<le> 0 else l = 2 ^ lg"
    using setnodevector_result [OF assms(2)] by metis
  let ?A = "forEach (beyond nasize (array t)) (\<lambda>i. bnd (luaH_setnum_by nk (int i + 1)) (\<lambda>a. write_val a (array t ! i)))"
  let ?N = "forEach (used_nodes (node t)) (\<lambda>i. bnd (tbl_set_by nk (i_key (node t ! i))) (\<lambda>a. write_val a (i_val (node t ! i))))"
  let ?t2 = "t1\<lparr>node := replicate (2 ^ lg) empty_node, isdummy := (nhsize = 0), lastfree := l\<rparr>"
  let ?f = "fresh (array_of_size nasize (array t)) lg (nhsize = 0) l t"
  have "resize nk nasize nhsize t = andThen (whenever (nasize < sizearray t) (andThen (modify (\<lambda>t. t\<lparr>array := take nasize (array t)\<rparr>)) ?A)) ?N ?t2"
    using one two unfolding resize_def forEach_whenever beyond_def [symmetric] used_nodes_def [symmetric]
    by (simp add: bnd_def gets_def andThen_def)
  also have "\<dots> = andThen ?A ?N ?f"
  proof (cases "nasize < sizearray t")
    case True
    have "?f = ?t2\<lparr>array := take nasize (array ?t2)\<rparr>"
      using True by (intro TableRep.equality) (simp_all add: t1_def fresh_def array_of_size_def)
    then show ?thesis using True by (simp add: whenever_def modify_first)
  next
    case False
    then have "beyond nasize (array t) = []" "?f = ?t2" by (auto simp: beyond_def fresh_def t1_def array_of_size_def)
    then show ?thesis using False by (simp add: whenever_def)
  qed
  finally show thesis using that lg by blast
qed

lemma live_nodes_keys: "table_ok t \<Longrightarrow> (k, v) \<in> live_nodes (node t) \<Longrightarrow> k \<in> node_keys t"
  using live_keys_ok [of t k v] by (force simp: live_def live_nodes_def node_keys_def key_ok_def)

lemma used_nodes_keys:
  assumes "table_ok t"
  shows "distinct (map (\<lambda>i. i_key (node t ! i)) (used_nodes (node t)))"
    "i \<in> set (used_nodes (node t)) \<Longrightarrow> i_key (node t ! i) \<in> node_keys t \<and> i_val (node t ! i) \<noteq> TNil"
proof -
  show keys: "i_key (node t ! i) \<in> node_keys t \<and> i_val (node t ! i) \<noteq> TNil" if "i \<in> set (used_nodes (node t))" for i
    using that live_nodes_keys [OF assms, of "i_key (node t ! i)" "i_val (node t ! i)"] by (auto simp: used_nodes_def live_nodes_def)
  have "inj_on (\<lambda>i. i_key (node t ! i)) (set (used_nodes (node t)))"
  proof (rule inj_onI)
    fix i j
    assume ij: "i \<in> set (used_nodes (node t))" "j \<in> set (used_nodes (node t))" "i_key (node t ! i) = i_key (node t ! j)"
    have "i_key (node t ! i) \<noteq> TNil" using keys [OF ij(1)] by (auto simp: node_keys_def)
    moreover have "i < sizenode t" "j < sizenode t" using ij(1,2) by (auto simp: used_nodes_def)
    ultimately show "i = j"
      using vec_okD(7) [OF table_okD(1) [OF assms, unfolded nodes_ok_def]] ij(3) by (auto simp: keys_distinct_def)
  qed
  then show "distinct (map (\<lambda>i. i_key (node t ! i)) (used_nodes (node t)))"
    by (simp add: distinct_map used_nodes_def)
qed

text \<open>Resizing keeps every pair, when the new sizes have room for all keys of \<open>K\<close>.\<close>

definition fits :: "nat \<Rightarrow> nat \<Rightarrow> TValue set \<Rightarrow> bool" where
  "fits nasize nhsize K \<longleftrightarrow> finite K \<and> card {k \<in> K. \<not> in_array nasize k} \<le> nhsize"

lemma fits_capacity:
  assumes "fits nasize nhsize K" "sizearray u = nasize" "isdummy u = (nhsize = 0)" "nhsize \<le> sizenode u"
  shows "capacity u K"
proof -
  have fin: "finite {k \<in> K. \<not> in_array nasize k}" using assms(1) by (simp add: fits_def)
  show ?thesis
  proof (cases "nhsize = 0")
    case True
    then have "{k \<in> K. \<not> in_array nasize k} = {}" using assms(1) fin by (simp add: fits_def)
    then show ?thesis using assms True by (auto simp: capacity_def fits_def)
  next
    case False
    then show ?thesis using assms by (simp add: capacity_def fits_def)
  qed
qed

lemma resize_keeps:
  assumes t: "table_ok t" and size: "nasize \<le> MAXASIZE" "nhsize \<le> MAXASIZE"
    and K: "fits nasize nhsize K" "fst ` live t \<subseteq> K"
  shows "\<exists>u. resize (newkey (Suc d)) nasize nhsize t = Ret () u \<and> table_ok u \<and> tight u \<and> live u = live t
     \<and> sizearray u = nasize \<and> capacity u K"
proof -
  let ?A = "\<lambda>i. bnd (luaH_setnum_by (newkey (Suc d)) (int i + 1)) (\<lambda>a. write_val a (array t ! i))"
  let ?N = "\<lambda>i. bnd (tbl_set_by (newkey (Suc d)) (i_key (node t ! i))) (\<lambda>a. write_val a (i_val (node t ! i)))"
  obtain lg l where r: "resize (newkey (Suc d)) nasize nhsize t =
      andThen (forEach (beyond nasize (array t)) ?A) (forEach (used_nodes (node t)) ?N)
        (fresh (array_of_size nasize (array t)) lg (nhsize = 0) l t)"
    and lg: "lg \<le> MAXBITS" "nhsize \<le> 2 ^ lg" "nhsize = 0 \<longrightarrow> lg = 0" "l \<le> 2 ^ lg" "if nhsize = 0 then l \<le> 0 else l = 2 ^ lg"
    by (rule resize_fresh [OF size, of "newkey (Suc d)" t])
  define f where "f = fresh (array_of_size nasize (array t)) lg (nhsize = 0) l t"
  have f: "table_ok f" "tight f" "live f = live_array (array_of_size nasize (array t))"
    unfolding f_def using fresh_ok [OF _ lg(1,3,4,5)] size(1) by simp_all
  have fs: "sizearray f = nasize" "isdummy f = (nhsize = 0)" "nhsize \<le> sizenode f" using lg(2) by (simp_all add: f_def fresh_def)
  note cf = fits_capacity [OF K(1) fs]
  have all: "live t = live f \<union> (\<lambda>i. (num_key i, array t ! i)) ` set (beyond nasize (array t))
      \<union> (\<lambda>i. (i_key (node t ! i), i_val (node t ! i))) ` set (used_nodes (node t))"
    unfolding live_def [of t] live_array_split [of "array t" nasize] live_used_nodes f(3) by blast
  have inK: "fst ` live f \<union> num_key ` set (beyond nasize (array t)) \<union> (\<lambda>i. i_key (node t ! i)) ` set (used_nodes (node t)) \<subseteq> K"
    using K(2) unfolding all by (simp add: image_Un image_image)
  have small: "sizearray t \<le> 2 ^ 26" using table_okD(6) [OF t] by (simp add: MAXASIZE_def MAXBITS_def)
  have "\<exists>w. forEach (beyond nasize (array t)) ?A f = Ret () w \<and> table_ok w \<and> tight w
      \<and> live w = live f \<union> (\<lambda>i. (num_key i, array t ! i)) ` set (beyond nasize (array t))
      \<and> sizearray w = sizearray f \<and> sizenode w = sizenode f \<and> isdummy w = isdummy f"
  proof (rule put_loop [where g = "\<lambda>i. luaH_setnum_by (newkey (Suc d)) (int i + 1)" and key = num_key
        and val = "\<lambda>i. array t ! i", OF _ _ _ f(1,2) cf])
    fix i
    assume "i \<in> set (beyond nasize (array t))"
    then show "inserts (luaH_setnum_by (newkey (Suc d)) (int i + 1)) (num_key i) \<and> num_key i \<noteq> TNil \<and> array t ! i \<noteq> TNil"
      using small setnum_inserts [of i d] by (auto simp: beyond_def)
  next
    show "distinct (map num_key (beyond nasize (array t)))" by (simp add: distinct_map beyond_def inj_on_def)
    show "num_key ` set (beyond nasize (array t)) \<inter> fst ` live f = {}"
      unfolding f(3) live_array_of_size by (auto simp: beyond_def)
    show "fst ` live f \<union> num_key ` set (beyond nasize (array t)) \<subseteq> K" using inK by simp
  qed
  then obtain w where w: "forEach (beyond nasize (array t)) ?A f = Ret () w" "table_ok w" "tight w"
    "live w = live f \<union> (\<lambda>i. (num_key i, array t ! i)) ` set (beyond nasize (array t))"
    "sizearray w = sizearray f" "sizenode w = sizenode f" "isdummy w = isdummy f" by blast
  have cw: "capacity w K" using cf w(5-7) by (simp add: capacity_def)
  note U = used_nodes_keys [OF t]
  have arr: "in_array (sizearray t) k" if "k \<in> fst ` live w" for k
    using that unfolding w(4) f(3) live_array_of_size by (auto simp: in_array_def beyond_def)
  have "\<exists>u. forEach (used_nodes (node t)) ?N w = Ret () u \<and> table_ok u \<and> tight u
      \<and> live u = live w \<union> (\<lambda>i. (i_key (node t ! i), i_val (node t ! i))) ` set (used_nodes (node t))
      \<and> sizearray u = sizearray w \<and> sizenode u = sizenode w \<and> isdummy u = isdummy w"
  proof (rule put_loop [where g = "\<lambda>i. tbl_set_by (newkey (Suc d)) (i_key (node t ! i))" and key = "\<lambda>i. i_key (node t ! i)"
        and val = "\<lambda>i. i_val (node t ! i)", OF _ U(1) _ w(2,3) cw])
    fix i
    assume "i \<in> set (used_nodes (node t))"
    from U(2) [OF this] table_okD(5) [OF t] show "inserts (tbl_set_by (newkey (Suc d)) (i_key (node t ! i))) (i_key (node t ! i))
        \<and> i_key (node t ! i) \<noteq> TNil \<and> i_val (node t ! i) \<noteq> TNil"
      using set_inserts by (auto simp: key_ok_def)
  next
    show "(\<lambda>i. i_key (node t ! i)) ` set (used_nodes (node t)) \<inter> fst ` live w = {}"
      using arr U(2) table_okD(5) [OF t] by blast
    show "fst ` live w \<union> (\<lambda>i. i_key (node t ! i)) ` set (used_nodes (node t)) \<subseteq> K"
      using inK unfolding w(4) by (simp add: image_Un image_image)
  qed
  then obtain u where u: "forEach (used_nodes (node t)) ?N w = Ret () u" "table_ok u" "tight u"
    "live u = live w \<union> (\<lambda>i. (i_key (node t ! i), i_val (node t ! i))) ` set (used_nodes (node t))"
    "sizearray u = sizearray w" "sizenode u = sizenode w" "isdummy u = isdummy w" by blast
  have "resize (newkey (Suc d)) nasize nhsize t = Ret () u"
    unfolding r f_def [symmetric] using w(1) u(1) by (simp add: andThen_def bnd_def [of "forEach _ _"])
  moreover have "capacity u K" using cw u(5-7) by (simp add: capacity_def)
  moreover have "live u = live t" unfolding all u(4) w(4) ..
  ultimately show ?thesis using u(2,3,5) w(5) fs(1) by auto
qed

end
