(* ===== verification/LuaCount.thy ===== *)
theory LuaCount
  imports LuaRehash
begin

text \<open>
  The counting before a rehash: \<open>nums\<close> holds the number of integer keys of every slice, and the sizes
  that \<open>rehash\<close> computes from it have room for all keys of the table and the new one.  The integer key
  \<open>i + 1\<close> is counted as the number \<open>i\<close>.
\<close>

section \<open>Slices\<close>

definition bucket :: "nat \<Rightarrow> nat" where
  "bucket i = nat (ceillog2 (of_nat (i + 1)))"

lemma bucket_bounds:
  assumes "i < MAXASIZE"
  shows "bucket i \<le> MAXBITS" "2 ^ bucket i div 2 \<le> i" "i < 2 ^ bucket i"
proof -
  obtain l where l: "ceillog2 (of_nat (i + 1)) = int l" "l \<le> 26" "i + 1 \<le> 2 ^ l" "0 < l \<Longrightarrow> 2 ^ (l - 1) < i + 1"
    using ceillog2_nat [of "i + 1"] assms by (auto simp: MAXASIZE_def MAXBITS_def)
  then have b: "bucket i = l" by (simp add: bucket_def)
  then show "bucket i \<le> MAXBITS" "i < 2 ^ bucket i" using l by (simp_all add: MAXBITS_def)
  show "2 ^ bucket i div 2 \<le> i" using l(4) b by (cases l) auto
qed

lemma bucket_unique:
  assumes "i < MAXASIZE" "2 ^ j div 2 \<le> i" "i < 2 ^ j"
  shows "bucket i = j"
proof (rule ccontr)
  assume "bucket i \<noteq> j"
  have half: "(2::nat) ^ a \<le> 2 ^ b div 2" if "a < b" for a b
    using that power_increasing [of a "b - 1" "2::nat"] by (cases b) auto
  show False
  proof (cases "bucket i < j")
    case True
    then show False using half [OF True] bucket_bounds(3) [OF assms(1)] assms(2) by linarith
  next
    case False
    then have "j < bucket i" using \<open>bucket i \<noteq> j\<close> by simp
    then show False using half [of j "bucket i"] bucket_bounds(2) [OF assms(1)] assms(3) by linarith
  qed
qed

definition counts :: "nat list \<Rightarrow> nat set \<Rightarrow> bool" where
  "counts nums S \<longleftrightarrow> S \<subseteq> {..<MAXASIZE} \<and> length nums = MAXBITS + 1 \<and>
     (\<forall>j \<le> MAXBITS. nums ! j = card {i \<in> S. bucket i = j})"

lemma counts_finite: "counts nums S \<Longrightarrow> finite S"
  by (auto simp: counts_def intro: finite_subset)

lemma counts_empty: "counts (replicate (MAXBITS + 1) 0) {}"
  by (simp add: counts_def del: replicate_Suc)

lemma counts_add:
  assumes c: "counts nums S" and b: "b \<le> MAXBITS" and T: "T \<subseteq> {..<MAXASIZE}" "T \<inter> S = {}" "\<forall>i \<in> T. bucket i = b"
  shows "counts (nums[b := nums ! b + card T]) (S \<union> T)"
proof -
  have fin: "finite S" "finite T" using counts_finite [OF c] T(1) finite_subset by auto
  have "card {i \<in> S \<union> T. bucket i = j} = card {i \<in> S. bucket i = j} + (if j = b then card T else 0)" for j
  proof (cases "j = b")
    case True
    then have "{i \<in> S \<union> T. bucket i = j} = {i \<in> S. bucket i = j} \<union> T" using T(3) by auto
    moreover have "{i \<in> S. bucket i = j} \<inter> T = {}" using T(2) by auto
    ultimately show ?thesis using True fin by (simp add: card_Un_disjoint)
  next
    case False
    then have "{i \<in> S \<union> T. bucket i = j} = {i \<in> S. bucket i = j}" using T(3) by auto
    then show ?thesis using False by simp
  qed
  then show ?thesis using c b T(1) by (auto simp: counts_def nth_list_update)
qed

section \<open>Counting single keys\<close>

definition indices :: "TValue set \<Rightarrow> nat set" where
  "indices K = {i. i < MAXASIZE \<and> num_key i \<in> K}"

lemma countint_result:
  assumes c: "counts nums S" and new: "indices {k} \<inter> S = {}"
  shows "counts (snd (countint k nums)) (S \<union> indices {k})" "fst (countint k nums) = card (indices {k})"
proof -
  have max: "MAXASIZE = 2 ^ 26" by (simp add: MAXASIZE_def MAXBITS_def)
  have "(\<exists>i < MAXASIZE. k = num_key i \<and> indices {k} = {i} \<and> countint k nums = (1, nums[bucket i := nums ! bucket i + 1]))
      \<or> (indices {k} = {} \<and> countint k nums = (0, nums))"
  proof (cases "in_array MAXASIZE k")
    case True
    then obtain i where i: "i < MAXASIZE" "k = num_key i" by (auto simp: in_array_def)
    then have "arrayindex k = int i + 1" using arrayindex_num_key [of i] max by simp
    then have "countint k nums = (1, nums[bucket i := nums ! bucket i + 1])"
      using i(1) by (simp add: countint_def bucket_def Let_def add.commute)
    then show ?thesis using i by (auto simp: indices_def)
  next
    case False
    then have "\<not> (0 < arrayindex k \<and> arrayindex k \<le> int MAXASIZE)" using arrayindex_in_array [of MAXASIZE k] by simp
    then show ?thesis using False by (auto simp: countint_def Let_def indices_def in_array_def)
  qed
  then show "counts (snd (countint k nums)) (S \<union> indices {k})" "fst (countint k nums) = card (indices {k})"
    using counts_add [OF c, of "bucket _" "{_}"] bucket_bounds(1) new c by auto
qed

section \<open>The array part\<close>

definition used_from :: "TValue list \<Rightarrow> nat \<Rightarrow> nat \<Rightarrow> nat set" where
  "used_from arr i m = {x. i \<le> x + 1 \<and> x + 1 \<le> m \<and> arr ! x \<noteq> TNil}"

lemma used_from_finite [simp]: "finite (used_from arr i m)"
  by (rule finite_subset [of _ "{..<m}"]) (auto simp: used_from_def)

lemma count_slice_card: "0 < i \<Longrightarrow> count_slice arr i m lc = lc + card (used_from arr i m)"
proof (induction arr i m lc rule: count_slice.induct)
  case (1 arr i m lc)
  show ?case
  proof (cases "i \<le> m")
    case True
    have step: "used_from arr i m = (if arr ! (i - 1) \<noteq> TNil then insert (i - 1) (used_from arr (i + 1) m) else used_from arr (i + 1) m)"
    proof (rule set_eqI)
      fix x
      show "x \<in> used_from arr i m \<longleftrightarrow> x \<in> (if arr ! (i - 1) \<noteq> TNil then insert (i - 1) (used_from arr (i + 1) m) else used_from arr (i + 1) m)"
        using True "1.prems" by (cases "x = i - 1") (auto simp: used_from_def)
    qed
    moreover have "i - 1 \<notin> used_from arr (i + 1) m" using "1.prems" by (auto simp: used_from_def)
    ultimately show ?thesis using 1 True by (simp add: count_slice.simps [of arr i m lc])
  next
    case False
    then have "used_from arr i m = {}" by (auto simp: used_from_def)
    then show ?thesis using False by (simp add: count_slice.simps [of arr i m lc])
  qed
qed

lemma used_from_split: "i \<le> m + 1 \<Longrightarrow> 0 < i \<Longrightarrow> used_from arr 1 m = used_from arr 1 (i - 1) \<union> used_from arr i m"
  by (auto simp: used_from_def)

lemma half_pow_less: "(2::nat) ^ l div 2 < 2 ^ l"
  by simp

lemma numusearray_counts:
  assumes "length arr \<le> MAXASIZE" "lg \<le> MAXBITS + 1" "i = min (2 ^ lg div 2) (length arr) + 1"
    "counts nums (used_from arr 1 (i - 1))" "ause = card (used_from arr 1 (i - 1))"
  shows "counts (snd (numusearray_loop arr lg i ause nums)) (used_from arr 1 (length arr))
     \<and> fst (numusearray_loop arr lg i ause nums) = card (used_from arr 1 (length arr))"
  using assms
proof (induction arr lg i ause nums rule: numusearray_loop.induct)
  case (1 arr lg i ause nums)
  have all: ?case if "length arr \<le> 2 ^ lg div 2" "numusearray_loop arr lg i ause nums = (ause, nums)"
    using "1.prems" that by simp
  show ?case
  proof (cases "lg \<le> MAXBITS")
    case False
    then have "lg = MAXBITS + 1" using "1.prems"(2) by simp
    then have "length arr \<le> 2 ^ lg div 2" using "1.prems"(1) by (simp add: MAXASIZE_def)
    then show ?thesis using False by (intro all) (simp_all add: numusearray_loop.simps [of arr lg])
  next
    case True
    define m where "m = (if 2 ^ lg > length arr then length arr else 2 ^ lg)"
    have m: "m = min (2 ^ lg) (length arr)" by (simp add: m_def min_def)
    show ?thesis
    proof (cases "2 ^ lg > length arr \<and> i > m")
      case stop: True
      then have "length arr \<le> 2 ^ lg div 2" using "1.prems"(3) m by (simp add: min_def split: if_splits)
      moreover have "numusearray_loop arr lg i ause nums = (ause, nums)"
        using True stop unfolding m_def by (auto simp: numusearray_loop.simps [of arr lg] Let_def)
      ultimately show ?thesis by (rule all)
    next
      case go: False
      let ?T = "used_from arr i m"
      have i: "0 < i" "i \<le> m + 1" "i - 1 \<le> length arr" using "1.prems"(3) m half_pow_less [of lg] by auto
      have lc: "count_slice arr i m 0 = card ?T" using count_slice_card [OF i(1)] by simp
      have T: "?T \<subseteq> {..<MAXASIZE}" "?T \<inter> used_from arr 1 (i - 1) = {}"
        using "1.prems"(1) m by (auto simp: used_from_def)
      have "bucket x = lg" if "x \<in> ?T" for x
      proof (rule bucket_unique)
        show "x < MAXASIZE" using that T(1) by auto
        show "2 ^ lg div 2 \<le> x" "x < 2 ^ lg"
          using that m "1.prems"(3) by (auto simp: used_from_def min_def split: if_splits)
      qed
      then have "counts (nums[lg := nums ! lg + card ?T]) (used_from arr 1 (i - 1) \<union> ?T)"
        using counts_add [OF "1.prems"(4) True T] by simp
      moreover have "card (used_from arr 1 (i - 1) \<union> ?T) = ause + card ?T"
        using "1.prems"(5) T(2) by (simp add: card_Un_disjoint Int_commute)
      moreover have "used_from arr 1 (i - 1) \<union> ?T = used_from arr 1 m" using used_from_split [OF i(2,1)] by simp
      ultimately have nxt: "counts (nums[lg := nums ! lg + card ?T]) (used_from arr 1 m)" "ause + card ?T = card (used_from arr 1 m)"
        by simp_all
      have "max i (m + 1) = m + 1" using i by simp
      moreover have "m + 1 = min (2 ^ (lg + 1) div 2) (length arr) + 1" using m by simp
      moreover have "numusearray_loop arr lg i ause nums =
          numusearray_loop arr (lg + 1) (max i (m + 1)) (ause + card ?T) (nums[lg := nums ! lg + card ?T])"
        using True go lc unfolding m_def by (simp add: numusearray_loop.simps [of arr lg] Let_def)
      ultimately show ?thesis
        using "1.IH" [OF True refl m_def] go nxt True "1.prems"(1) lc by simp
    qed
  qed
qed

section \<open>The node vector\<close>

definition used_keys :: "Node list \<Rightarrow> nat \<Rightarrow> TValue set" where
  "used_keys ns m = {i_key (ns ! i) | i. i < m \<and> i_val (ns ! i) \<noteq> TNil}"

lemma used_keys_Suc: "used_keys ns (Suc m) =
    (if i_val (ns ! m) \<noteq> TNil then insert (i_key (ns ! m)) (used_keys ns m) else used_keys ns m)"
  by (auto simp: used_keys_def less_Suc_eq)

lemma used_keys_finite [simp]: "finite (used_keys ns m)"
  by (induction m) (auto simp: used_keys_Suc, simp add: used_keys_def)

lemma indices_insert: "indices (insert k K) = indices {k} \<union> indices K"
  by (auto simp: indices_def)

lemma indices_finite [simp]: "finite (indices K)"
  by (rule finite_subset [of _ "{..<MAXASIZE}"]) (auto simp: indices_def)

lemma keys_distinctD: "keys_distinct ks \<Longrightarrow> i < length ks \<Longrightarrow> j < length ks \<Longrightarrow> ks ! i = ks ! j \<Longrightarrow> ks ! i \<noteq> TNil \<Longrightarrow> i = j"
  by (simp add: keys_distinct_def)

lemma numusehash_counts:
  assumes "m \<le> length ns" "\<forall>i < m. i_val (ns ! i) \<noteq> TNil \<longrightarrow> i_key (ns ! i) \<noteq> TNil" "keys_distinct (map i_key ns)"
    "counts nums S" "indices (used_keys ns m) \<inter> S = {}"
  shows "\<exists>nums'. numusehash_loop ns m totaluse ause nums =
      (totaluse + card (used_keys ns m), ause + card (indices (used_keys ns m)), nums') \<and> counts nums' (S \<union> indices (used_keys ns m))"
  using assms
proof (induction m arbitrary: totaluse ause nums S)
  case 0
  then show ?case by (simp add: used_keys_def indices_def)
next
  case (Suc m)
  show ?case
  proof (cases "i_val (ns ! m) \<noteq> TNil")
    case False
    then show ?thesis using Suc by (simp add: used_keys_Suc)
  next
    case True
    let ?k = "i_key (ns ! m)" and ?K = "used_keys ns m"
    have fresh: "?k \<notin> ?K"
    proof
      assume "?k \<in> ?K"
      then obtain i where "i < m" "i_key (ns ! i) = ?k" by (auto simp: used_keys_def)
      moreover have "?k \<noteq> TNil" using Suc.prems(2) True by simp
      moreover have "i < length ns" "m < length ns" using \<open>i < m\<close> Suc.prems(1) by simp_all
      ultimately show False using keys_distinctD [OF Suc.prems(3), of i m] by simp
    qed
    have K: "used_keys ns (Suc m) = insert ?k ?K" using True by (simp add: used_keys_Suc)
    obtain c nums1 where c: "countint ?k nums = (c, nums1)" by (cases "countint ?k nums")
    have d: "indices {?k} \<inter> S = {}" "indices {?k} \<inter> indices ?K = {}" "indices ?K \<inter> (S \<union> indices {?k}) = {}"
      using Suc.prems(5) fresh unfolding K by (auto simp: indices_def)
    have c1: "counts nums1 (S \<union> indices {?k})" "c = card (indices {?k})"
      using countint_result [OF Suc.prems(4) d(1)] c by simp_all
    have "\<exists>nums'. numusehash_loop ns m (totaluse + 1) (ause + c) nums1 =
        (totaluse + 1 + card ?K, ause + c + card (indices ?K), nums') \<and> counts nums' (S \<union> indices {?k} \<union> indices ?K)"
      using Suc.prems by (intro Suc.IH c1(1) d(3)) auto
    moreover have "card (indices (insert ?k ?K)) = c + card (indices ?K)"
      unfolding indices_insert [of ?k ?K] c1(2) using d(2) by (simp add: card_Un_disjoint)
    ultimately show ?thesis using True c fresh unfolding K
      by (auto simp: indices_insert [of ?k ?K] Un_assoc)
  qed
qed

section \<open>The new sizes\<close>

lemma prefix_count:
  assumes "counts nums S" "j \<le> MAXBITS"
  shows "card {i \<in> S. i < 2 ^ j div 2} + nums ! j = card {i \<in> S. i < 2 ^ j}"
proof -
  have "S \<subseteq> {..<MAXASIZE}" using assms(1) by (simp add: counts_def)
  then have "i \<in> S \<Longrightarrow> bucket i = j \<longleftrightarrow> 2 ^ j div 2 \<le> i \<and> i < 2 ^ j" for i
    using bucket_unique [of i j] bucket_bounds(2,3) [of i] by auto
  then have "{i \<in> S. i < 2 ^ j} = {i \<in> S. i < 2 ^ j div 2} \<union> {i \<in> S. bucket i = j}"
    using half_pow_less [of j] by (auto intro: less_trans)
  moreover have "{i \<in> S. i < 2 ^ j div 2} \<inter> {i \<in> S. bucket i = j} = {}"
    using bucket_bounds(2) \<open>S \<subseteq> _\<close> by fastforce
  ultimately show ?thesis using assms counts_finite [OF assms(1)] by (simp add: counts_def card_Un_disjoint)
qed

lemma computesizes_result:
  assumes "counts nums S" "narray = card S" "a = card {i \<in> S. i < 2 ^ j div 2}"
    "n \<le> MAXASIZE" "na = card {i \<in> S. i < n}"
  shows "\<exists>n' na'. computesizes_loop nums narray j a na n = Some (na', n') \<and> n' \<le> MAXASIZE \<and> na' = card {i \<in> S. i < n'}"
  using assms
proof (induction nums narray j a na n rule: computesizes_loop.induct)
  case (1 nums narray j a na n)
  note c = "1.prems"(1)
  have S: "card S \<le> 2 ^ MAXBITS" "length nums = MAXBITS + 1"
    using c card_mono [of "{..<MAXASIZE}" S] by (simp_all add: counts_def MAXASIZE_def)
  show ?case
  proof (cases "2 ^ j div 2 < narray")
    case False
    then have "computesizes_loop nums narray j a na n = Some (na, n)" by (subst computesizes_loop.simps) simp
    then show ?thesis using "1.prems"(4,5) by blast
  next
    case True
    have "j \<le> MAXBITS"
    proof (rule ccontr)
      assume "\<not> j \<le> MAXBITS"
      then have "(2::nat) ^ MAXBITS \<le> 2 ^ j div 2" using power_increasing [of MAXBITS "j - 1" "2::nat"] by (cases j) auto
      then show False using True S "1.prems"(2) by linarith
    qed
    define a' where "a' = (if nums ! j > 0 then a + nums ! j else a)"
    define better where "better = (nums ! j > 0 \<and> a' > 2 ^ j div 2)"
    define na' where "na' = (if better then a' else na)"
    define n' where "n' = (if better then 2 ^ j else n)"
    have a': "a' = card {i \<in> S. i < 2 ^ j}"
      using prefix_count [OF c \<open>j \<le> MAXBITS\<close>] "1.prems"(3) by (auto simp: a'_def)
    have n': "n' \<le> MAXASIZE" "na' = card {i \<in> S. i < n'}"
      using "1.prems"(4,5) a' power_increasing [OF \<open>j \<le> MAXBITS\<close>, of "2::nat"] by (auto simp: n'_def na'_def MAXASIZE_def)
    have step: "computesizes_loop nums narray j a na n =
        (if a' = narray then Some (na', n') else computesizes_loop nums narray (j + 1) a' na' n')"
      using True S(2) \<open>j \<le> MAXBITS\<close> unfolding n'_def na'_def better_def a'_def
      by (subst computesizes_loop.simps) (simp add: Let_def)
    show ?thesis
    proof (cases "a' = narray")
      case True
      then show ?thesis using step n' by auto
    next
      case False
      have "\<not> length nums \<le> j" using S(2) \<open>j \<le> MAXBITS\<close> by simp
      note ih = "1.IH" [OF True this a'_def better_def na'_def n'_def False c "1.prems"(2) _ n']
      show ?thesis unfolding step using False ih a' by simp
    qed
  qed
qed

lemma live_keys:
  assumes t: "table_ok t"
  shows "fst ` live t = num_key ` used_from (array t) 1 (sizearray t) \<union> used_keys (node t) (sizenode t)"
    "num_key ` used_from (array t) 1 (sizearray t) \<inter> used_keys (node t) (sizenode t) = {}"
    "\<forall>i < sizenode t. i_val (node t ! i) \<noteq> TNil \<longrightarrow> i_key (node t ! i) \<noteq> TNil"
proof -
  show "fst ` live t = num_key ` used_from (array t) 1 (sizearray t) \<union> used_keys (node t) (sizenode t)"
    by (force simp: live_def live_array_def live_nodes_def used_from_def used_keys_def)
  show "\<forall>i < sizenode t. i_val (node t ! i) \<noteq> TNil \<longrightarrow> i_key (node t ! i) \<noteq> TNil"
    using vec_okD(5) [OF table_okD(1) [OF t, unfolded nodes_ok_def]] by (auto simp: free_alone_def)
  then have "k \<in> node_keys t" if "k \<in> used_keys (node t) (sizenode t)" for k
    using that by (auto simp: used_keys_def node_keys_def)
  moreover have "in_array (sizearray t) k" if "k \<in> num_key ` used_from (array t) 1 (sizearray t)" for k
    using that by (auto simp: in_array_def used_from_def)
  ultimately show "num_key ` used_from (array t) 1 (sizearray t) \<inter> used_keys (node t) (sizenode t) = {}"
    using table_okD(5) [OF t] by blast
qed

lemma finite_live: "table_ok t \<Longrightarrow> finite (fst ` live t)"
  by (simp add: live_keys(1))

lemma card_num_keys: "card (num_key ` A) = card A"
  by (rule card_image) (simp add: inj_on_def)

lemma indices_num_keys: "A \<subseteq> {..<MAXASIZE} \<Longrightarrow> indices (num_key ` A) = A"
  by (auto simp: indices_def)

lemma indices_Un: "indices (A \<union> B) = indices A \<union> indices B"
  by (auto simp: indices_def)

lemma outside_count:
  assumes "finite K" "n \<le> MAXASIZE"
  shows "card {k \<in> K. \<not> in_array n k} = card K - card {i \<in> indices K. i < n}"
proof -
  have "{k \<in> K. in_array n k} = num_key ` {i \<in> indices K. i < n}"
    using assms(2) by (auto simp: in_array_def indices_def)
  then have "card {k \<in> K. in_array n k} = card {i \<in> indices K. i < n}" by (simp add: card_num_keys)
  moreover have "{k \<in> K. \<not> in_array n k} = K - {k \<in> K. in_array n k}" by auto
  ultimately show ?thesis using assms(1) by (simp add: card_Diff_subset)
qed

lemma rehash_sizes_fit:
  assumes t: "table_ok t" and ek: "ek \<notin> fst ` live t"
  shows "\<exists>nasize nhsize. rehash_sizes ek t = Some (nasize, nhsize) \<and> nasize \<le> MAXASIZE
     \<and> nhsize \<le> card (fst ` live t) + 1 \<and> fits nasize nhsize (insert ek (fst ` live t))"
proof -
  let ?A = "used_from (array t) 1 (sizearray t)" and ?H = "used_keys (node t) (sizenode t)"
  let ?K = "insert ek (fst ` live t)"
  note L = live_keys [OF t]
  have A: "?A \<subseteq> {..<MAXASIZE}" using table_okD(6) [OF t] by (auto simp: used_from_def)
  obtain ause nums1 where n1: "numusearray t (replicate (MAXBITS + 1) 0) = (ause, nums1)" by (metis surj_pair)
  have c1: "counts nums1 ?A" "ause = card ?A"
  proof -
    have "used_from (array t) 1 0 = {}" by (simp add: used_from_def)
    from numusearray_counts [OF table_okD(6) [OF t], of 0 1 "replicate (MAXBITS + 1) 0" 0] this counts_empty n1
    show "counts nums1 ?A" "ause = card ?A" by (simp_all add: numusearray_def)
  qed
  have dis: "indices ?H \<inter> ?A = {}" using L(2) by (auto simp: indices_def)
  have kd: "keys_distinct (map i_key (node t))" using vec_okD(7) [OF table_okD(1) [OF t, unfolded nodes_ok_def]] .
  obtain nums2 where n2: "numusehash t nums1 = (card ?H, card (indices ?H), nums2)" and c2: "counts nums2 (?A \<union> indices ?H)"
    using numusehash_counts [OF order_refl L(3) kd c1(1) dis, of 0 0] by (auto simp: numusehash_def)
  have AH: "?A \<union> indices ?H = indices (fst ` live t)" unfolding L(1) indices_Un indices_num_keys [OF A] ..
  have ekd: "indices {ek} \<inter> (?A \<union> indices ?H) = {}" using ek unfolding AH by (auto simp: indices_def)
  obtain c nums3 where n3: "countint ek nums2 = (c, nums3)" by (metis surj_pair)
  have K: "indices ?K = indices {ek} \<union> (?A \<union> indices ?H)" unfolding AH by (rule indices_insert)
  have c3: "counts nums3 (indices ?K)" "c = card (indices {ek})"
    using countint_result [OF c2 ekd] n3 unfolding K by (simp_all add: Un_commute)
  have cardK: "card ?K = card ?A + card ?H + 1"
    using ek finite_live [OF t] L(2) unfolding L(1) by (simp add: card_Un_disjoint card_num_keys)
  have na: "ause + card (indices ?H) + c = card (indices ?K)"
  proof -
    have "card (?A \<union> indices ?H) = card ?A + card (indices ?H)" using dis by (intro card_Un_disjoint) auto
    moreover have "card (indices ?K) = card (indices {ek}) + card (?A \<union> indices ?H)"
      unfolding K using ekd by (intro card_Un_disjoint) auto
    ultimately show ?thesis using c1(2) c3(2) by simp
  qed
  obtain n' na' where s: "computesizes nums3 (ause + card (indices ?H) + c) = Some (na', n')" "n' \<le> MAXASIZE"
    "na' = card {i \<in> indices ?K. i < n'}"
    using computesizes_result [OF c3(1) na, of 0 0 0 0] by (auto simp: computesizes_def)
  have "rehash_sizes ek t = Some (n', card ?K - na')"
    unfolding rehash_sizes_def using n1 n2 n3 s(1) cardK c1(2) by simp
  moreover have "fits n' (card ?K - na') ?K"
    using outside_count [OF _ s(2), of ?K] finite_live [OF t] s(3) by (simp add: fits_def)
  moreover have "card ?K \<le> card (fst ` live t) + 1" using finite_live [OF t] by (simp add: card_insert_if)
  ultimately show ?thesis using s(2) by (meson diff_le_self order_trans)
qed

end
