(* ===== verification/LuaTableSpec.thy ===== *)
theory LuaTableSpec
  imports LuaCount LuaAux
begin

text \<open>
  Tables as a whole: every insertion returns, also when it has to rehash the table, and the table of
  nodes refines the list of entries that the model of the C API uses.  Traversal visits every pair once.
\<close>

section \<open>Insertion with rehashing\<close>

definition gives :: "TableRep \<Rightarrow> TValue \<Rightarrow> tslot \<Rightarrow> TableRep \<Rightarrow> bool" where
  "gives t k a u \<longleftrightarrow> table_ok u \<and> live u = live t \<and> slot_in u a \<and> slot_key u a = k"

lemma added_gives: "added t k a u \<Longrightarrow> gives t k a u"
  by (simp add: added_def gives_def)

lemma rehash_keeps:
  assumes t: "table_ok t" and ek: "ek \<notin> fst ` live t" "card (fst ` live t) < MAXASIZE"
  shows "\<exists>u. rehash (newkey (Suc d)) ek t = Ret () u \<and> table_ok u \<and> tight u \<and> live u = live t
     \<and> capacity u (insert ek (fst ` live t))"
proof -
  from rehash_sizes_fit [OF t ek(1)] obtain nasize nhsize where
    s: "rehash_sizes ek t = Some (nasize, nhsize)" "nasize \<le> MAXASIZE" "nhsize \<le> card (fst ` live t) + 1"
      "fits nasize nhsize (insert ek (fst ` live t))" by blast
  then have "nhsize \<le> MAXASIZE" using ek(2) by linarith
  from resize_keeps [OF t s(2) this s(4), of d] obtain u where
    "resize (newkey (Suc d)) nasize nhsize t = Ret () u" "table_ok u" "tight u" "live u = live t" "capacity u (insert ek (fst ` live t))"
    by blast
  then show ?thesis using s(1) by (auto simp: rehash_def bnd_def gets_def defined_def ret_def)
qed

lemma getfreepos_none:
  assumes t: "table_ok t" and "\<not> isdummy t \<Longrightarrow> \<forall>i < sizenode t. i_key (node t ! i) \<noteq> TNil"
  shows "\<exists>l. getfreepos t = Ret None (t\<lparr>lastfree := l\<rparr>) \<and> table_ok (t\<lparr>lastfree := l\<rparr>)"
proof -
  note F = table_okD(3) [OF t, unfolded lastfree_ok_def]
  have "\<exists>l. free_loop (node t) (lastfree t) = (None, l) \<and> l \<le> 0"
  proof (cases "isdummy t")
    case True
    then show ?thesis using F by (subst free_loop.simps) auto
  next
    case False
    then have "fst (free_loop (node t) (lastfree t)) = None \<and> snd (free_loop (node t) (lastfree t)) \<le> 0"
      using free_loop_result [of "lastfree t" "node t"] F assms(2) by auto
    then show ?thesis by (metis prod.collapse)
  qed
  then obtain l where l: "free_loop (node t) (lastfree t) = (None, l)" "l \<le> 0" by blast
  have "lastfree_ok (t\<lparr>lastfree := l\<rparr>)" using l(2) assms(2) by (auto simp: lastfree_ok_def)
  then have "table_ok (t\<lparr>lastfree := l\<rparr>)" using t by (simp add: table_ok_def node_keys_def)
  then show ?thesis using l(1) by (auto simp: getfreepos_apply)
qed

lemma lastfree_irrelevant [simp]: "live (t\<lparr>lastfree := l\<rparr>) = live t" "node_keys (t\<lparr>lastfree := l\<rparr>) = node_keys t"
  by (simp_all add: live_def node_keys_def)

lemma free_room:
  assumes "table_ok t" "i < sizenode t" "i_key (node t ! i) = TNil"
  shows "card (node_keys t) < sizenode t"
proof -
  have "TNil \<in> i_key ` set (node t)" using assms(2,3) by (metis image_eqI nth_mem)
  then have "card (node_keys t) < card (i_key ` set (node t))" unfolding node_keys_def by (intro card_Diff1_less) simp_all
  also have "\<dots> \<le> sizenode t" by (metis card_image_le card_length finite_set order_trans)
  finally show ?thesis .
qed

lemma live_nodes_found: "table_ok t \<Longrightarrow> found t k None \<Longrightarrow> k \<notin> fst ` live t"
  using live_nodes_keys [of t k] by (force simp: live_def live_array_def found_def in_array_def)

lemma newkey_gives:
  assumes t: "table_ok t" and k: "key_ok k" "found t k None" and few: "card (fst ` live t) < MAXASIZE"
  shows "\<exists>a u. newkey (Suc (Suc d)) k t = Ret a u \<and> gives t k a u"
proof -
  let ?mp = "mainposition (sizenode t) k"
  have k': "k \<notin> node_keys t" "\<not> in_array (sizearray t) k" using k(2) by (auto simp: found_def)
  consider (free) "\<not> isdummy t" "i_val (node t ! ?mp) = TNil"
    | (room) "\<not> isdummy t" "\<exists>i < sizenode t. i_key (node t ! i) = TNil"
    | (full) "i_val (node t ! ?mp) \<noteq> TNil \<or> isdummy t" "\<not> isdummy t \<Longrightarrow> \<forall>i < sizenode t. i_key (node t ! i) \<noteq> TNil"
    by blast
  then show ?thesis
  proof cases
    case free
    then have "newkey (Suc (Suc d)) k t = Ret (NodeSlot ?mp) (t\<lparr>node := set_key ?mp k (node t)\<rparr>)"
      by (simp add: bnd_def gets_def)
    then show ?thesis using added_gives [OF added_reuse [OF t free(1) k(1) k'(2,1) free(2)]] by blast
  next
    case room
    then have "card (node_keys t) < sizenode t" using free_room [OF t] by blast
    then show ?thesis using newkey_room [OF t room(1) k(1) k'(2,1)] added_gives by blast
  next
    case full
    obtain l where l: "getfreepos t = Ret None (t\<lparr>lastfree := l\<rparr>)" "table_ok (t\<lparr>lastfree := l\<rparr>)"
      using getfreepos_none [OF t full(2)] by blast
    let ?t = "t\<lparr>lastfree := l\<rparr>"
    have nl: "k \<notin> fst ` live ?t" "card (fst ` live ?t) < MAXASIZE" using live_nodes_found [OF t k(2)] few by simp_all
    from rehash_keeps [OF l(2) nl, of d] obtain w where w: "rehash (newkey (Suc d)) k ?t = Ret () w" "table_ok w" "tight w"
      "live w = live t" "capacity w (insert k (fst ` live t))" by auto
    have "has_room w k" using capacity_room [OF w(2,3,5)] w(4) by auto
    with set_inserts [OF k(1), of d] w(2) obtain a u where u: "tbl_set_by (newkey (Suc d)) k w = Ret a u" "added w k a u"
      unfolding inserts_def by blast
    have "newkey (Suc (Suc d)) k t = andThen (rehash (newkey (Suc d)) k) (tbl_set_by (newkey (Suc d)) k) ?t"
      using full(1) l(1) by (subst newkey.simps) (simp add: bnd_def gets_def)
    also have "\<dots> = Ret a u" using w(1) u(1) by (simp add: andThen_def bnd_def)
    finally show ?thesis using added_gives [OF u(2)] w(4) by (auto simp: gives_def)
  qed
qed

lemma set_gives:
  assumes t: "table_ok t" and k: "key_ok k" and few: "card (fst ` live t) < MAXASIZE"
  shows "\<exists>a u. tbl_set k t = Ret a u \<and> gives t k a u"
proof -
  have k0: "k \<noteq> TNil" "k \<noteq> TNumber NaN" using k by (simp_all add: key_ok_def)
  from get_found [OF t k0(1)] obtain p where p: "tbl_get t k = Some p" "found t k p" by blast
  show ?thesis
  proof (cases p)
    case (Some a)
    then have "tbl_set k t = Ret a (t\<lparr>flags := 0\<rparr>)" using p by (simp add: tbl_set_def tbl_set_by_def prog_defs)
    moreover have "gives t k a (t\<lparr>flags := 0\<rparr>)" using p(2) Some t by (simp add: gives_def found_def)
    ultimately show ?thesis by blast
  next
    case None
    let ?t = "t\<lparr>flags := 0\<rparr>"
    have "tbl_set k t = newkey (Suc (Suc 0)) k ?t"
      using p None k0 by (simp add: tbl_set_def tbl_set_by_def bnd_def gets_def defined_def ret_def andThen_def modify_def
          numeral_2_eq_2 del: newkey.simps)
    moreover have "found ?t k None" using p(2) None by (simp add: found_def)
    ultimately show ?thesis using newkey_gives [of ?t k 0] t k few by (auto simp: gives_def)
  qed
qed

section \<open>Refinement of the list of entries\<close>

text \<open>
  \<open>tbl_value\<close> is what a read of a key returns, \<open>tbl_put\<close> the assignment that \<open>lua_rawset\<close> and
  \<open>lua_rawseti\<close> make of \<open>luaH_set\<close>; \<open>raw_puts\<close> are the same assignments on the list of entries.
\<close>

definition tbl_value :: "TableRep \<Rightarrow> TValue \<Rightarrow> TValue option" where
  "tbl_value t k = map_option (read_slot t) (tbl_get t k)"

definition tbl_put :: "TValue \<Rightarrow> TValue \<Rightarrow> unit tprog" where
  "tbl_put k v = bnd (tbl_set k) (\<lambda>a. write_val a v)"

definition tbl_puts :: "(TValue \<times> TValue) list \<Rightarrow> unit tprog" where
  "tbl_puts kvs = forEach kvs (\<lambda>(k, v). tbl_put k v)"

fun raw_puts :: "Table \<Rightarrow> (TValue \<times> TValue) list \<Rightarrow> string + Table" where
  "raw_puts h [] = Inr h"
| "raw_puts h ((k, v) # kvs) = (case luaH_set h k of Inl e \<Rightarrow> Inl e | Inr h' \<Rightarrow> raw_puts (write_slot h' k v) kvs)"

definition represents :: "TableRep \<Rightarrow> Table \<Rightarrow> bool" where
  "represents t h \<longleftrightarrow> table_ok t \<and> (\<forall>k v. (k, v) \<in> live t \<longleftrightarrow> v \<noteq> TNil \<and> luaH_get h k = v)"

lemma represents_value:
  assumes "represents t h"
  shows "tbl_value t k = Some (luaH_get h k)"
proof (cases "k = TNil")
  case True
  then show ?thesis by (simp add: tbl_value_def tbl_get_def read_slot_def luaH_get_def)
next
  case False
  have t: "table_ok t" using assms by (simp add: represents_def)
  from get_found [OF t False] obtain p where p: "tbl_get t k = Some p" "found t k p" by blast
  have "read_slot t p = luaH_get h k"
    using found_value [OF t False p(2)] assms unfolding represents_def by metis
  then show ?thesis using p(1) by (simp add: tbl_value_def)
qed

lemma bad_key: "luaH_set h k = Inl e \<longleftrightarrow> (k = TNil \<and> e = ''table index is nil'') \<or> (k = TNumber NaN \<and> e = ''table index is NaN'')"
  using slot_iff [of h k] by (auto simp: luaH_set_def)

lemma set_bad_key:
  assumes t: "table_ok t" and "luaH_set h k = Inl e"
  shows "tbl_set k t = Throw e (t\<lparr>flags := 0\<rparr>)"
proof (cases "k = TNil")
  case True
  then show ?thesis using assms(2) by (simp add: bad_key tbl_set_def tbl_set_by_def tbl_get_def prog_defs)
next
  case False
  then have k: "k = TNumber NaN" "e = ''table index is NaN''" using assms(2) by (auto simp: bad_key)
  from get_found [OF t False] obtain p where p: "tbl_get t k = Some p" "found t k p" by blast
  have "p = None"
  proof (cases p)
    case (Some a)
    then have "slot_in t a" "slot_key t a = TNumber NaN" using p(2) k(1) by (auto simp: found_def)
    then have "TNumber NaN \<in> node_keys t \<or> (\<exists>i. num_key i = TNumber NaN)"
      by (cases a) (auto simp: slot_simps node_keys_def intro!: image_eqI [OF sym nth_mem])
    then show ?thesis using table_okD(5) [OF t] num_key_ok(1) by (auto simp: key_ok_def)
  qed
  then show ?thesis using p(1) k False by (simp add: tbl_set_def tbl_set_by_def prog_defs del: newkey.simps)
qed

lemma put_good_key:
  assumes r: "represents t h" and k: "luaH_set h k = Inr h'" and few: "card (fst ` live t) < MAXASIZE"
  shows "\<exists>u. tbl_put k v t = Ret () u \<and> represents u (write_slot h' k v) \<and> card (fst ` live u) \<le> card (fst ` live t) + 1"
proof -
  have t: "table_ok t" using r by (simp add: represents_def)
  have ok: "key_ok k" using k bad_key [of h k] unfolding key_ok_def by (metis sum.simps(4))
  then have k0: "k \<noteq> TNil" by (simp add: key_ok_def)
  obtain a w where a: "tbl_set k t = Ret a w" "gives t k a w" using set_gives [OF t ok few] by blast
  have w: "table_ok w" "slot_in w a" "slot_key w a = k" "live w = live t" using a(2) by (simp_all add: gives_def)
  let ?u = "write_to a v w"
  note live = live_write [OF w(1-3) k0, of _ _ v]
  have "represents ?u (write_slot h' k v)"
    unfolding represents_def luaH_set_get [OF k] live w(4) using write_ok [OF w(1,2)] w(3) k0 r by (auto simp: represents_def)
  moreover have "fst ` live ?u \<subseteq> insert k (fst ` live t)"
  proof
    fix j
    assume "j \<in> fst ` live ?u"
    then obtain x where "(j, x) \<in> live ?u" by auto
    then show "j \<in> insert k (fst ` live t)" unfolding live w(4) by (cases "j = k") force+
  qed
  then have "card (fst ` live ?u) \<le> card (insert k (fst ` live t))"
    using finite_live [OF t] by (intro card_mono) simp_all
  then have "card (fst ` live ?u) \<le> card (fst ` live t) + 1"
    using finite_live [OF t] by (simp add: card_insert_if split: if_splits)
  moreover have "tbl_put k v t = Ret () ?u" using a(1) by (simp add: tbl_put_def bnd_def write_val_apply)
  ultimately show ?thesis by blast
qed

lemma puts_refine:
  assumes "represents t h" "card (fst ` live t) + length kvs \<le> MAXASIZE"
  shows "case raw_puts h kvs of Inl e \<Rightarrow> \<exists>u. tbl_puts kvs t = Throw e u
    | Inr h' \<Rightarrow> \<exists>u. tbl_puts kvs t = Ret () u \<and> represents u h'"
  using assms
proof (induction h kvs arbitrary: t rule: raw_puts.induct)
  case (1 h)
  then show ?case by (simp add: tbl_puts_def ret_def)
next
  case (2 h k v kvs)
  have t: "table_ok t" using "2.prems"(1) by (simp add: represents_def)
  show ?case
  proof (cases "luaH_set h k")
    case (Inl e)
    then have "tbl_put k v t = Throw e (t\<lparr>flags := 0\<rparr>)"
      using set_bad_key [OF t Inl] by (simp add: tbl_put_def bnd_def)
    then show ?thesis using Inl by (simp add: tbl_puts_def andThen_def bnd_def)
  next
    case (Inr h')
    have "card (fst ` live t) < MAXASIZE" using "2.prems"(2) by simp
    from put_good_key [OF "2.prems"(1) Inr this, of v] obtain w where
      w: "tbl_put k v t = Ret () w" "represents w (write_slot h' k v)" "card (fst ` live w) \<le> card (fst ` live t) + 1" by blast
    then have "tbl_puts ((k, v) # kvs) t = tbl_puts kvs w" by (simp add: tbl_puts_def andThen_def bnd_def)
    moreover have "raw_puts h ((k, v) # kvs) = raw_puts (write_slot h' k v) kvs" using Inr by simp
    ultimately show ?thesis using "2.IH" [OF Inr w(2)] w(3) "2.prems"(2) by (simp only: length_Cons)
  qed
qed

lemma new_ok:
  assumes "narray \<le> MAXASIZE" "nhash \<le> MAXASIZE"
  shows "\<exists>t. luaH_new narray nhash = Ret () t \<and> represents t new_table \<and> live t = {}"
proof -
  let ?t = "\<lparr>flags = 255, tmetatable = 0, array = [], node = [empty_node], isdummy = True, lastfree = 0\<rparr>"
  let ?a = "?t\<lparr>array := replicate narray TNil\<rparr>"
  obtain lg l where s: "setnodevector nhash ?a = Ret () (?a\<lparr>node := replicate (2 ^ lg) empty_node, isdummy := (nhash = 0), lastfree := l\<rparr>)"
    and lg: "lg \<le> MAXBITS" "nhash \<le> 2 ^ lg" "nhash = 0 \<longrightarrow> lg = 0" "l \<le> 2 ^ lg" "if nhash = 0 then l \<le> 0 else l = 2 ^ lg"
    by (rule setnodevector_result [OF assms(2), of ?a])
  let ?u = "fresh (replicate narray TNil) lg (nhash = 0) l ?t"
  have "luaH_new narray nhash = Ret () ?u"
    using s by (simp add: luaH_new_def andThen_def bnd_def setarrayvector_def modify_def fresh_def)
  moreover have "table_ok ?u" "live ?u = {}"
    using fresh_ok [OF _ lg(1,3,4,5), of "replicate narray TNil" ?t] assms(1) by (auto simp: live_array_def)
  ultimately show ?thesis by (auto simp: represents_def luaH_get_def new_table_def slot_def)
qed

section \<open>Traversal\<close>

text \<open>The slots of a table in the order of their addresses, with the empty ones, as a list of entries.\<close>

definition slots :: "TableRep \<Rightarrow> (TValue \<times> TValue) list" where
  "slots t = map (\<lambda>i. (num_key i, array t ! i)) [0..<sizearray t] @ map (\<lambda>n. (i_key n, i_val n)) (node t)"

definition entries_of :: "TableRep \<Rightarrow> Table" where
  "entries_of t = \<lparr>entries = slots t, metatable = tmetatable t\<rparr>"

lemma length_slots [simp]: "length (slots t) = sizearray t + sizenode t"
  by (simp add: slots_def)

lemma slots_nth:
  "i < sizearray t \<Longrightarrow> slots t ! i = (num_key i, array t ! i)"
  "i < sizenode t \<Longrightarrow> slots t ! (sizearray t + i) = (i_key (node t ! i), i_val (node t ! i))"
  by (simp_all add: slots_def nth_append)

lemma next_array_scan:
  "next_array arr i = (case next_entry (drop i (map (\<lambda>i. (num_key i, arr ! i)) [0..<length arr])) of
     Some e \<Rightarrow> Inr e | None \<Rightarrow> Inl (max i (length arr)))"
proof (induction arr i rule: next_array.induct)
  case (1 arr i)
  let ?es = "map (\<lambda>i. (num_key i, arr ! i)) [0..<length arr]"
  show ?case
  proof (cases "i < length arr")
    case True
    then have "drop i ?es = (num_key i, arr ! i) # drop (i + 1) ?es"
      by (subst Cons_nth_drop_Suc [symmetric]) simp_all
    then show ?thesis using 1 True by (subst next_array.simps) (simp add: num_key_def max_def split: option.split)
  qed (simp add: next_array.simps [of arr i])
qed

lemma next_node_scan: "next_node ns i = next_entry (drop i (map (\<lambda>n. (i_key n, i_val n)) ns))"
proof (induction ns i rule: next_node.induct)
  case (1 ns i)
  let ?es = "map (\<lambda>n. (i_key n, i_val n)) ns"
  show ?case
  proof (cases "i < length ns")
    case True
    then have "drop i ?es = (i_key (ns ! i), i_val (ns ! i)) # drop (i + 1) ?es"
      by (subst Cons_nth_drop_Suc [symmetric]) simp_all
    then show ?thesis using 1 True by (subst next_node.simps) simp
  qed (simp add: next_node.simps [of ns i])
qed

lemma next_entry_append: "next_entry (xs @ ys) = (case next_entry xs of Some e \<Rightarrow> Some e | None \<Rightarrow> next_entry ys)"
  by (induction xs) auto

lemma next_scan:
  "(case next_array (array t) i of Inr e \<Rightarrow> Some e | Inl j \<Rightarrow> next_node (node t) (j - sizearray t)) = next_entry (drop i (slots t))"
  unfolding next_array_scan next_node_scan slots_def
  by (simp add: next_entry_append max_def split: option.split)

lemma slot_at:
  assumes "p < length (slots t)"
  obtains a where "slot_in t a" "slots t ! p = (slot_key t a, slot_val t a)"
    "a = (if p < sizearray t then ArraySlot p else NodeSlot (p - sizearray t))"
proof (cases "p < sizearray t")
  case True
  then show thesis using that [of "ArraySlot p"] by (simp add: slot_simps slots_nth)
next
  case False
  then show thesis using that [of "NodeSlot (p - sizearray t)"] assms slots_nth(2) [of "p - sizearray t" t] by (simp add: slot_simps)
qed

lemma slots_key_unique:
  assumes t: "table_ok t" and "p < length (slots t)" "q < length (slots t)" "fst (slots t ! p) = fst (slots t ! q)" "fst (slots t ! p) \<noteq> TNil"
  shows "p = q"
proof -
  obtain a where a: "slot_in t a" "slots t ! p = (slot_key t a, slot_val t a)" "a = (if p < sizearray t then ArraySlot p else NodeSlot (p - sizearray t))"
    using slot_at [OF assms(2)] .
  obtain b where b: "slot_in t b" "slots t ! q = (slot_key t b, slot_val t b)" "b = (if q < sizearray t then ArraySlot q else NodeSlot (q - sizearray t))"
    using slot_at [OF assms(3)] .
  have "a = b" using slot_key_unique [OF t a(1) b(1)] assms(4,5) a(2) b(2) by simp
  then show ?thesis using a(3) b(3) by (auto split: if_splits)
qed

lemma findindex_cases:
  assumes t: "table_ok t" and k: "k \<noteq> TNil"
  shows "(\<exists>p < length (slots t). tbl_findindex t k = Some (Inr (int p)) \<and> fst (slots t ! p) = k)
     \<or> (tbl_findindex t k = Some (Inl (''invalid key to '' @ quoted ''next'')) \<and> k \<notin> fst ` set (slots t))"
proof (cases "in_array (sizearray t) k")
  case True
  then obtain i where i: "i < sizearray t" "k = num_key i" by (auto simp: in_array_def)
  then have "arrayindex k = int i + 1" using table_okD(6) [OF t] by (simp add: arrayindex_num_key MAXASIZE_def MAXBITS_def)
  then have "tbl_findindex t k = Some (Inr (int i))" using k i(1) by (simp add: tbl_findindex_def Let_def)
  then show ?thesis using i by (intro disjI1 exI [of _ i]) (simp add: slots_nth)
next
  case False
  then have no: "\<not> (0 < arrayindex k \<and> arrayindex k \<le> int (sizearray t))"
    using arrayindex_in_array [OF table_okD(6) [OF t]] by simp
  have eq: "luaO_rawequalObj (i_key n) k \<longleftrightarrow> i_key n = k" if "n \<in> set (node t)" for n
  proof -
    have "i_key n = TNil \<or> key_ok (i_key n)" using that table_okD(5) [OF t] by (auto simp: node_keys_def)
    then show ?thesis using k by (intro rawequal_key) (auto simp: key_ok_def)
  qed
  let ?r = "chain_find (\<lambda>n. luaO_rawequalObj (i_key n) k) (node t) (mainposition (sizenode t) k)"
  obtain p where p: "map_option (map_option NodeSlot) ?r = Some p" "found t k p"
    using find_in_nodes [OF t k False eq] by blast
  then obtain r where r: "?r = Some r" "p = map_option NodeSlot r" by auto
  show ?thesis
  proof (cases r)
    case (Some n)
    then have n: "n < sizenode t" "i_key (node t ! n) = k" using p(2) r(2) by (auto simp: found_def slot_simps)
    moreover have "tbl_findindex t k = Some (Inr (int (sizearray t + n)))"
      unfolding tbl_findindex_def using k no r(1) Some by (simp add: Let_def)
    ultimately show ?thesis by (intro disjI1 exI [of _ "sizearray t + n"]) (simp add: slots_nth)
  next
    case None
    have "k \<notin> node_keys t" using p(2) r(2) None by (auto simp: found_def)
    then have "k \<notin> fst ` set (slots t)" using k False by (auto simp: slots_def node_keys_def in_array_def)
    moreover have "tbl_findindex t k = Some (Inl (''invalid key to '' @ quoted ''next''))"
      unfolding tbl_findindex_def using k no r(1) None by (simp add: Let_def)
    ultimately show ?thesis by blast
  qed
qed

lemma slots_keys_ok: "table_ok t \<Longrightarrow> k \<in> fst ` set (slots t) \<Longrightarrow> k \<noteq> TNil \<Longrightarrow> key_ok k"
  using table_okD(5) [of t k] by (auto simp: slots_def node_keys_def)

lemma dropWhile_unique:
  assumes "p < length xs" "P (xs ! p)" "\<And>q. q < length xs \<Longrightarrow> P (xs ! q) \<Longrightarrow> q = p"
  shows "dropWhile (\<lambda>x. \<not> P x) xs = xs ! p # drop (Suc p) xs"
proof -
  have "\<not> P x" if "x \<in> set (take p xs)" for x
  proof -
    from that obtain q where q: "q < p" "q < length xs" "xs ! q = x" by (auto simp: in_set_conv_nth)
    then show ?thesis using assms(3) [of q] by auto
  qed
  then have "dropWhile (\<lambda>x. \<not> P x) (take p xs @ xs ! p # drop (Suc p) xs) = xs ! p # drop (Suc p) xs"
    using assms(2) by (simp add: dropWhile_append2)
  then show ?thesis using id_take_nth_drop [OF assms(1)] by simp
qed

lemma findindex_entries:
  assumes t: "table_ok t" and k: "k \<noteq> TNil" and p: "p < length (slots t)" "fst (slots t ! p) = k"
  shows "findindex (entries_of t) k = Some (drop (Suc p) (slots t))" "slot (entries_of t) k = Some (slots t ! p)"
proof -
  have ok: "key_ok k" using slots_keys_ok [OF t _ k] p by (metis image_eqI nth_mem)
  then have eq: "luaO_rawequalObj l k \<longleftrightarrow> l = k" for l by (rule rawequal_key [OF disjI1])
  have only: "q = p" if "q < length (slots t)" "fst (slots t ! q) = k" for q
    using slots_key_unique [OF t that(1) p(1)] that(2) p(2) k by simp
  have "dropWhile (\<lambda>e. \<not> fst e = k) (slots t) = slots t ! p # drop (Suc p) (slots t)"
    using dropWhile_unique [OF p(1), of "\<lambda>e. fst e = k"] p(2) only by blast
  then show "findindex (entries_of t) k = Some (drop (Suc p) (slots t))"
    using k by (simp add: findindex_def entries_of_def eq)
  have "e = slots t ! p" if "e \<in> set (slots t)" "fst e = k" for e
    using that only by (metis in_set_conv_nth)
  from find_only [where P = "\<lambda>e. fst e = k", OF nth_mem [OF p(1)] p(2) this] show "slot (entries_of t) k = Some (slots t ! p)"
    unfolding slot_def entries_of_def eq Table.select_convs .
qed

lemma next_entries:
  assumes t: "table_ok t"
  shows "tbl_next t k = Some (luaH_next (entries_of t) k)"
proof (cases "k = TNil")
  case True
  then show ?thesis using next_scan [of t 0]
    by (simp add: tbl_next_def tbl_findindex_def luaH_next_def findindex_def entries_of_def)
next
  case False
  from findindex_cases [OF t False] show ?thesis
  proof
    assume "\<exists>p < length (slots t). tbl_findindex t k = Some (Inr (int p)) \<and> fst (slots t ! p) = k"
    then obtain p where p: "p < length (slots t)" "tbl_findindex t k = Some (Inr (int p))" "fst (slots t ! p) = k" by blast
    have "nat (int p + 1) = Suc p" by simp
    then show ?thesis using p(2) next_scan [of t "Suc p"] findindex_entries(1) [OF t False p(1,3)]
      by (simp add: tbl_next_def luaH_next_def)
  next
    assume a: "tbl_findindex t k = Some (Inl (''invalid key to '' @ quoted ''next'')) \<and> k \<notin> fst ` set (slots t)"
    then have "dropWhile (\<lambda>e. \<not> luaO_rawequalObj (fst e) k) (slots t) = []"
      by (auto simp: dropWhile_eq_Nil_conv rawequal_iff)
    then have "findindex (entries_of t) k = None" using False by (simp add: findindex_def entries_of_def del: dropWhile_eq_Nil_conv)
    then show ?thesis using a by (simp add: tbl_next_def luaH_next_def)
  qed
qed

lemma live_slots: "(k, v) \<in> live t \<longleftrightarrow> v \<noteq> TNil \<and> (k, v) \<in> set (slots t)"
proof -
  have "(\<exists>a. slot_in t a \<and> slot_key t a = k \<and> slot_val t a = v) \<longleftrightarrow> (k, v) \<in> set (slots t)"
  proof
    assume "\<exists>a. slot_in t a \<and> slot_key t a = k \<and> slot_val t a = v"
    then obtain a where a: "slot_in t a" "slot_key t a = k" "slot_val t a = v" by blast
    define p where "p = (case a of ArraySlot i \<Rightarrow> i | NodeSlot i \<Rightarrow> sizearray t + i)"
    have "p < length (slots t)" "slots t ! p = (k, v)" using a by (cases a; simp add: p_def slot_simps slots_nth)+
    then show "(k, v) \<in> set (slots t)" by (metis nth_mem)
  next
    assume "(k, v) \<in> set (slots t)"
    then obtain p where p: "p < length (slots t)" "slots t ! p = (k, v)" by (metis in_set_conv_nth)
    from slot_at [OF p(1)] obtain a where "slot_in t a" "slots t ! p = (slot_key t a, slot_val t a)" by blast
    then show "\<exists>a. slot_in t a \<and> slot_key t a = k \<and> slot_val t a = v" using p(2) by auto
  qed
  then show ?thesis unfolding live_iff by simp
qed

lemma represents_entries:
  assumes t: "table_ok t"
  shows "represents t (entries_of t)"
proof -
  have "(k, v) \<in> live t \<longleftrightarrow> v \<noteq> TNil \<and> luaH_get (entries_of t) k = v" for k v
  proof (cases "k = TNil")
    case True
    then show ?thesis using live_keys_ok [OF t, of k v] by (auto simp: key_ok_def luaH_get_def)
  next
    case False
    show ?thesis
    proof (cases "\<exists>p < length (slots t). fst (slots t ! p) = k")
      case True
      then obtain p where p: "p < length (slots t)" "fst (slots t ! p) = k" by blast
      have "(k, v) \<in> set (slots t) \<longleftrightarrow> snd (slots t ! p) = v"
      proof
        assume "(k, v) \<in> set (slots t)"
        then obtain q where q: "q < length (slots t)" "slots t ! q = (k, v)" by (auto simp: in_set_conv_nth)
        with slots_key_unique [OF t p(1) q(1)] p(2) False show "snd (slots t ! p) = v" by auto
      next
        assume "snd (slots t ! p) = v"
        then have "slots t ! p = (k, v)" using p(2) by (cases "slots t ! p") simp
        then show "(k, v) \<in> set (slots t)" using p(1) by (metis nth_mem)
      qed
      then show ?thesis using findindex_entries(2) [OF t False p] False by (auto simp: live_slots luaH_get_def)
    next
      case none: False
      then have "k \<notin> fst ` set (slots t)" by (metis imageE in_set_conv_nth)
      then have "slot (entries_of t) k = None" by (force simp: slot_def entries_of_def find_None_iff rawequal_iff)
      then show ?thesis using \<open>k \<notin> _\<close> False by (force simp: live_slots luaH_get_def)
    qed
  qed
  then show ?thesis using t by (simp add: represents_def)
qed

section \<open>The loop of a traversal\<close>

text \<open>\<open>for k, v in next, t\<close> (and \<open>lua_next\<close> in a loop): the pairs it visits, or \<open>None\<close> after too many steps or an error.\<close>

primrec traverse :: "nat \<Rightarrow> TableRep \<Rightarrow> TValue \<Rightarrow> (TValue \<times> TValue) list option" where
  "traverse 0 t k = None"
| "traverse (Suc n) t k = (case tbl_next t k of
     Some (Inr (Some (k', v))) \<Rightarrow> map_option (\<lambda>es. (k', v) # es) (traverse n t k')
   | Some (Inr None) \<Rightarrow> Some []
   | _ \<Rightarrow> None)"

lemma next_entry_split:
  assumes "next_entry (drop p xs) = Some e"
  obtains q where "p \<le> q" "q < length xs" "xs ! q = e" "snd e \<noteq> TNil"
    "filter (\<lambda>e. snd e \<noteq> TNil) (drop p xs) = e # filter (\<lambda>e. snd e \<noteq> TNil) (drop (Suc q) xs)"
  using assms
proof (induction "length xs - p" arbitrary: p thesis)
  case 0
  then show ?case by simp
next
  case (Suc m)
  then have p: "p < length xs" by simp
  then have d: "drop p xs = xs ! p # drop (Suc p) xs" by (rule Cons_nth_drop_Suc [symmetric])
  show ?case
  proof (cases "snd (xs ! p) = TNil")
    case False
    then show ?thesis using Suc.prems p d by auto
  next
    case True
    then have "next_entry (drop (Suc p) xs) = Some e" using Suc.prems(2) d by simp
    moreover have "m = length xs - Suc p" using Suc.hyps(2) by simp
    ultimately obtain q where "Suc p \<le> q" "q < length xs" "xs ! q = e" "snd e \<noteq> TNil"
      "filter (\<lambda>e. snd e \<noteq> TNil) (drop (Suc p) xs) = e # filter (\<lambda>e. snd e \<noteq> TNil) (drop (Suc q) xs)"
      using Suc.hyps(1) by blast
    then show ?thesis using Suc.prems(1) [of q] True d by simp
  qed
qed

lemma next_entry_none: "next_entry xs = None \<longleftrightarrow> filter (\<lambda>e. snd e \<noteq> TNil) xs = []"
  by (induction xs) auto

lemma traverse_rest:
  assumes t: "table_ok t" and p: "tbl_next t k = Some (Inr (next_entry (drop p (slots t))))" "p \<le> length (slots t)" "length (slots t) - p < n"
  shows "traverse n t k = Some (filter (\<lambda>e. snd e \<noteq> TNil) (drop p (slots t)))"
  using p
proof (induction n arbitrary: p k)
  case 0
  then show ?case by simp
next
  case (Suc n)
  show ?case
  proof (cases "next_entry (drop p (slots t))")
    case None
    moreover from None have "filter (\<lambda>e. snd e \<noteq> TNil) (drop p (slots t)) = []" by (simp add: next_entry_none [symmetric])
    ultimately show ?thesis using Suc.prems(1) by simp
  next
    case (Some e)
    obtain q where q: "p \<le> q" "q < length (slots t)" "slots t ! q = e" "snd e \<noteq> TNil"
      "filter (\<lambda>e. snd e \<noteq> TNil) (drop p (slots t)) = e # filter (\<lambda>e. snd e \<noteq> TNil) (drop (Suc q) (slots t))"
      by (rule next_entry_split [OF Some])
    have "(fst e, snd e) \<in> live t" unfolding live_slots using q(2,3,4) by (metis nth_mem prod.collapse)
    then have k: "fst e \<noteq> TNil" using live_keys_ok [OF t] by (force simp: key_ok_def)
    have "tbl_next t (fst e) = Some (Inr (next_entry (drop (Suc q) (slots t))))"
      using findindex_entries(1) [OF t k q(2)] q(3) next_entries [OF t] by (simp add: luaH_next_def)
    then have "traverse n t (fst e) = Some (filter (\<lambda>e. snd e \<noteq> TNil) (drop (Suc q) (slots t)))"
      using Suc.prems(3) q(1,2) by (intro Suc.IH) auto
    then show ?thesis using Suc.prems(1) Some q(5) by (cases e) simp
  qed
qed

lemma distinct_fst_filter:
  "(\<And>p q. p < length xs \<Longrightarrow> q < length xs \<Longrightarrow> P (xs ! p) \<Longrightarrow> fst (xs ! p) = fst (xs ! q) \<Longrightarrow> p = q) \<Longrightarrow>
   distinct (map fst (filter P xs))"
proof (induction xs)
  case (Cons x xs)
  have "distinct (map fst (filter P xs))"
  proof (rule Cons.IH)
    fix p q
    assume "p < length xs" "q < length xs" "P (xs ! p)" "fst (xs ! p) = fst (xs ! q)"
    with Cons.prems [of "Suc p" "Suc q"] show "p = q" by simp
  qed
  moreover have "fst x \<notin> fst ` set xs" if "P x"
  proof
    assume "fst x \<in> fst ` set xs"
    then obtain q where "q < length xs" "fst (xs ! q) = fst x" by (metis imageE in_set_conv_nth)
    with Cons.prems [of 0 "Suc q"] that show False by simp
  qed
  ultimately show ?case by auto
qed simp

section \<open>Properties\<close>

text \<open>C9: Lua tables implement maps.  A table is created with any sizes up to \<open>2^26\<close> and any sequence of at most
  \<open>2^26\<close> assignments is made to it, nil values (removals) and keys that collide or grow the table included.  Then
  the array and node representation behaves as the list of entries does: an assignment with a nil or
  not-a-number key raises the same error; otherwise every assignment returns, without endless rehashing, and
  afterwards every key reads the same value from both.\<close>

theorem table_assignments_refine:
  assumes "narray \<le> 2 ^ 26" "nhash \<le> 2 ^ 26" "length kvs \<le> 2 ^ 26"
  shows "\<exists>t. luaH_new narray nhash = Ret () t \<and>
    (case raw_puts new_table kvs of
       Inl e \<Rightarrow> \<exists>u. tbl_puts kvs t = Throw e u
     | Inr h \<Rightarrow> \<exists>u. tbl_puts kvs t = Ret () u \<and> (\<forall>k. tbl_value u k = Some (luaH_get h k)))"
proof -
  have max: "MAXASIZE = 2 ^ 26" by (simp add: MAXASIZE_def MAXBITS_def)
  obtain t where t: "luaH_new narray nhash = Ret () t" "represents t new_table" "live t = {}"
    using new_ok [of narray nhash] assms(1,2) max by auto
  have "case raw_puts new_table kvs of Inl e \<Rightarrow> \<exists>u. tbl_puts kvs t = Throw e u
    | Inr h \<Rightarrow> \<exists>u. tbl_puts kvs t = Ret () u \<and> represents u h"
    using puts_refine [OF t(2), of kvs] t(3) assms(3) max by simp
  then have "case raw_puts new_table kvs of Inl e \<Rightarrow> \<exists>u. tbl_puts kvs t = Throw e u
    | Inr h \<Rightarrow> \<exists>u. tbl_puts kvs t = Ret () u \<and> (\<forall>k. tbl_value u k = Some (luaH_get h k))"
    using represents_value by (auto split: sum.split)
  then show ?thesis using t(1) by blast
qed

definition demo_kvs :: "(TValue \<times> TValue) list" where
  "demo_kvs = [(num_key 0, TString ''a''), (TString ''x'', num_key 4), (num_key 1, TString ''b''), (TBoolean True, num_key 7),
     (num_key 0, TNil), (TString ''y'', num_key 5)]"

theorem table_assignments_refine_witness:
  "\<exists>t. luaH_new 0 1 = Ret () t \<and>
    (case raw_puts new_table demo_kvs of
       Inl e \<Rightarrow> \<exists>u. tbl_puts demo_kvs t = Throw e u
     | Inr h \<Rightarrow> \<exists>u. tbl_puts demo_kvs t = Ret () u \<and> (\<forall>k. tbl_value u k = Some (luaH_get h k)))"
  by (rule table_assignments_refine) (simp_all add: demo_kvs_def)


lemma demo_table: "\<exists>t u. luaH_new 0 1 = Ret () t \<and> tbl_puts demo_kvs t = Ret () u \<and> table_ok u"
proof -
  obtain t where t: "luaH_new 0 1 = Ret () t" "represents t new_table" "live t = {}"
    using new_ok [of 0 1] by (auto simp: MAXASIZE_def)
  have "\<not> isl (raw_puts new_table demo_kvs)" by code_simp
  then obtain h where h: "raw_puts new_table demo_kvs = Inr h" by (cases "raw_puts new_table demo_kvs") auto
  have "length demo_kvs = 6" by (simp add: demo_kvs_def)
  then have "\<exists>u. tbl_puts demo_kvs t = Ret () u \<and> represents u h"
    using puts_refine [OF t(2), of demo_kvs] t(3) h by (simp add: MAXASIZE_def MAXBITS_def)
  then show ?thesis using t(1) by (auto simp: represents_def)
qed


section \<open>Borders\<close>

definition border_at :: "(nat \<Rightarrow> bool) \<Rightarrow> nat \<Rightarrow> bool" where
  "border_at P j \<longleftrightarrow> (j = 0 \<or> P j) \<and> \<not> P (j + 1)"

lemma array_border_result:
  assumes "i < j" "i = 0 \<or> arr ! (i - 1) \<noteq> TNil" "arr ! (j - 1) = TNil"
  shows "array_border arr i j < j \<and> border_at (\<lambda>m. arr ! (m - 1) \<noteq> TNil) (array_border arr i j)"
  using assms
proof (induction arr i j rule: array_border.induct)
  case (1 arr i j)
  define m where "m = (i + j) div 2"
  show ?case
  proof (cases "j - i > 1")
    case True
    then have m: "i < m" "m < j" by (auto simp: m_def)
    have "array_border arr i j = (if arr ! (m - 1) = TNil then array_border arr i m else array_border arr m j)"
      using True by (subst array_border.simps) (simp add: m_def Let_def)
    then show ?thesis using "1.IH"(1) [OF True m_def] "1.IH"(2) [OF True m_def] m "1.prems"
      by (cases "arr ! (m - 1) = TNil") auto
  next
    case False
    then have "j = i + 1" using "1.prems"(1) by simp
    moreover have "array_border arr i j = i" using False by (subst array_border.simps) simp
    ultimately show ?thesis using "1.prems" by (simp add: border_at_def)
  qed
qed

definition present :: "TableRep \<Rightarrow> nat \<Rightarrow> bool" where
  "present t j \<longleftrightarrow> num_value t j \<noteq> Some TNil"

lemma num_value_key:
  assumes "j + 1 < 2 ^ 31"
  shows "num_value t (j + 1) = tbl_value t (num_key j)"
proof -
  have "lua_number2int (cast_num (int j + 1)) = int j + 1" using assms by (intro number2int_cast) auto
  moreover have "luai_numeq (cast_num (int j + 1)) (cast_num (int j + 1))" by (simp add: luai_numeq_def cast_num_def)
  ultimately have "tbl_get t (num_key j) = luaH_getnum t (int j + 1)" by (simp add: tbl_get_def num_key_def Let_def)
  then show ?thesis by (simp add: num_value_def tbl_value_def add.commute)
qed

lemma value_total: "table_ok t \<Longrightarrow> \<exists>v. tbl_value t k = Some v"
  using represents_value [OF represents_entries] by blast

lemma num_value_total: "table_ok t \<Longrightarrow> 0 < j \<Longrightarrow> j < 2 ^ 31 \<Longrightarrow> \<exists>v. num_value t j = Some v"
  using num_value_key [of "j - 1" t] value_total [of t "num_key (j - 1)"] by simp

lemma present_live: "table_ok t \<Longrightarrow> j + 1 < 2 ^ 31 \<Longrightarrow> present t (j + 1) \<longleftrightarrow> num_key j \<in> fst ` live t"
proof -
  assume t: "table_ok t" and j: "j + 1 < 2 ^ 31"
  have "num_key j \<in> fst ` live t \<longleftrightarrow> luaH_get (entries_of t) (num_key j) \<noteq> TNil"
  proof -
    have "num_key j \<in> fst ` live t \<longleftrightarrow> (\<exists>v. (num_key j, v) \<in> live t)" by force
    then show ?thesis using represents_entries [OF t] by (simp add: represents_def)
  qed
  then show ?thesis unfolding present_def num_value_key [OF j] using represents_value [OF represents_entries [OF t]] by simp
qed

lemma binary_search_result:
  assumes t: "table_ok t" and "i < j" "j < 2 ^ 31" "i = 0 \<or> present t i" "\<not> present t j"
  shows "\<exists>r. binary_search t i j = Some r \<and> border_at (present t) r \<and> r < j"
  using assms(2-)
proof (induction "j - i" arbitrary: i j rule: less_induct)
  case less
  define m where "m = (i + j) div 2"
  show ?case
  proof (cases "j - i > 1")
    case True
    then have m: "i < m" "m < j" by (auto simp: m_def)
    obtain v where v: "num_value t m = Some v" using num_value_total [OF t, of m] m less.prems(2) by auto
    have step: "binary_search t i j = (if v = TNil then binary_search t i m else binary_search t m j)"
      using True v by (subst binary_search.simps) (simp add: m_def)
    show ?thesis
    proof (cases "v = TNil")
      case nil: True
      then have "\<exists>r. binary_search t i m = Some r \<and> border_at (present t) r \<and> r < m"
        using less.hyps [of m i] m less.prems v by (simp add: present_def)
      then show ?thesis using step nil m(2) by auto
    next
      case False
      then have "\<exists>r. binary_search t m j = Some r \<and> border_at (present t) r \<and> r < j"
        using less.hyps [of j m] m less.prems v by (simp add: present_def)
      then show ?thesis using step False by simp
    qed
  next
    case False
    then have "j = i + 1" using less.prems(1) by simp
    moreover have "binary_search t i j = Some i" using False by (subst binary_search.simps) simp
    ultimately show ?thesis using less.prems by (auto simp: border_at_def)
  qed
qed

lemma absent_exists:
  assumes t: "table_ok t"
  shows "\<exists>j. 0 < j \<and> j \<le> 2 ^ 27 + 1 \<and> \<not> present t j"
proof (rule ccontr)
  assume "\<not> ?thesis"
  then have all: "present t j" if "0 < j" "j \<le> 2 ^ 27 + 1" for j using that by blast
  have "num_key ` {..2 ^ 27} \<subseteq> fst ` live t"
  proof
    fix k
    assume "k \<in> num_key ` {..2 ^ 27}"
    then obtain j where j: "j \<le> 2 ^ 27" "k = num_key j" by auto
    then show "k \<in> fst ` live t" using present_live [OF t, of j] all [of "j + 1"] by simp
  qed
  then have "card (num_key ` {..2 ^ 27}) \<le> card (fst ` live t)" by (rule card_mono [OF finite_live [OF t]])
  moreover have "card (num_key ` {..2 ^ 27}) = 2 ^ 27 + 1" by (simp add: card_num_keys)
  moreover have "card (fst ` live t) \<le> 2 ^ 26 + 2 ^ 26"
  proof -
    have "fst ` live t \<subseteq> fst ` set (slots t)" by (auto simp: live_slots image_iff)
    then have "card (fst ` live t) \<le> length (slots t)"
      by (meson card_image_le card_length card_mono finite_imageI finite_set order_trans)
    moreover have "sizearray t \<le> 2 ^ 26" "sizenode t \<le> 2 ^ 26"
      using t power_increasing [of _ 26 "2::nat"] by (auto simp: table_ok_def MAXASIZE_def MAXBITS_def)
    ultimately show ?thesis by simp
  qed
  ultimately show False by simp
qed

lemma linear_search_result:
  assumes t: "table_ok t" and "0 < i" "i \<le> a" "a \<le> 2 ^ 27 + 1" "\<not> present t a" "i = 1 \<or> present t (i - 1)"
  shows "\<exists>r. linear_search t i = Some r \<and> border_at (present t) r \<and> r < 2 ^ 31 - 1"
  using assms(2-)
proof (induction "a - i" arbitrary: i rule: less_induct)
  case less
  obtain v where v: "num_value t i = Some v" using num_value_total [OF t, of i] less.prems by auto
  have step: "linear_search t i = (if v = TNil then Some (i - 1) else linear_search t (i + 1))"
    using v by (subst linear_search.simps) simp
  show ?case
  proof (cases "v = TNil")
    case True
    then have "\<not> present t i" using v by (simp add: present_def)
    then show ?thesis using step True less.prems by (auto simp: border_at_def)
  next
    case False
    then have p: "present t i" using v by (simp add: present_def)
    then have "i \<noteq> a" using less.prems(4) by auto
    then show ?thesis using less.hyps [of "i + 1"] less.prems p step False by simp
  qed
qed

lemma unbound_loop_result:
  assumes t: "table_ok t" and "0 < j" "j < 2 ^ 31" "i < j" "i = 0 \<or> present t i"
  shows "\<exists>r. unbound_loop t i j = Some r \<and> border_at (present t) r \<and> r < 2 ^ 31 - 1"
  using assms(2-)
proof (induction "2 ^ 31 - j" arbitrary: i j rule: less_induct)
  case less
  obtain v where v: "num_value t j = Some v" using num_value_total [OF t] less.prems(1,2) by blast
  have step: "unbound_loop t i j = (if v = TNil then binary_search t i j
      else if j * 2 > 2 ^ 31 - 1 then linear_search t 1 else unbound_loop t j (j * 2))"
    using v by (subst unbound_loop.simps) simp
  show ?case
  proof (cases "v = TNil")
    case True
    then have "\<exists>r. binary_search t i j = Some r \<and> border_at (present t) r \<and> r < j"
      using v less.prems by (intro binary_search_result [OF t]) (auto simp: present_def)
    then show ?thesis using step True less.prems(2) by fastforce
  next
    case False
    then have p: "present t j" using v by (simp add: present_def)
    show ?thesis
    proof (cases "j * 2 > 2 ^ 31 - 1")
      case True
      obtain a where "0 < a" "a \<le> 2 ^ 27 + 1" "\<not> present t a" using absent_exists [OF t] by blast
      then show ?thesis using linear_search_result [OF t, of 1 a] step False True by auto
    next
      case small: False
      then have "\<exists>r. unbound_loop t j (j * 2) = Some r \<and> border_at (present t) r \<and> r < 2 ^ 31 - 1"
        using less.prems p by (intro less.hyps) auto
      then show ?thesis using step False small by simp
    qed
  qed
qed

text \<open>C20: The length operator of a table always returns a border: an index that is zero or holds a value, while the
  next index holds none.  This also holds for the tables the binary search was not made for, for which the code
  falls back to a linear search.\<close>

theorem getn_border:
  assumes t: "table_ok t"
  shows "\<exists>j. tbl_getn t = Some j \<and> (0 < j \<longrightarrow> tbl_value t (num_key (j - 1)) \<noteq> Some TNil) \<and> tbl_value t (num_key j) = Some TNil"
proof -
  have small: "sizearray t \<le> 2 ^ 26" using table_okD(6) [OF t] by (simp add: MAXASIZE_def MAXBITS_def)
  have in_arr: "present t (i + 1) \<longleftrightarrow> array t ! i \<noteq> TNil" if "i < sizearray t" for i
  proof -
    have "(num_key i, v) \<notin> live_nodes (node t)" for v
      using that live_nodes_keys [OF t, of "num_key i" v] table_okD(5) [OF t, of "num_key i"] by (auto simp: in_array_def)
    then have "num_key i \<in> fst ` live t \<longleftrightarrow> (\<exists>v. (num_key i, v) \<in> live_array (array t))"
      unfolding live_def by force
    also have "\<dots> \<longleftrightarrow> array t ! i \<noteq> TNil" using that by (simp add: live_array_def)
    finally have "num_key i \<in> fst ` live t \<longleftrightarrow> array t ! i \<noteq> TNil" .
    then show ?thesis using present_live [OF t, of i] that small by simp
  qed
  have "\<exists>j. tbl_getn t = Some j \<and> border_at (present t) j \<and> j < 2 ^ 31 - 1"
  proof (cases "0 < sizearray t \<and> array t ! (sizearray t - 1) = TNil")
    case True
    let ?j = "array_border (array t) 0 (sizearray t)"
    have "?j < sizearray t" "border_at (\<lambda>m. array t ! (m - 1) \<noteq> TNil) ?j"
      using array_border_result [of 0 "sizearray t" "array t"] True by auto
    then have "border_at (present t) ?j" using in_arr [of "?j - 1"] in_arr [of ?j] by (cases ?j) (auto simp: border_at_def)
    moreover have "tbl_getn t = Some ?j" using True by (simp add: tbl_getn_def Let_def)
    ultimately show ?thesis using \<open>?j < sizearray t\<close> small by auto
  next
    case False
    then have i: "sizearray t = 0 \<or> present t (sizearray t)" using in_arr [of "sizearray t - 1"] by (cases "sizearray t") auto
    show ?thesis
    proof (cases "isdummy t")
      case True
      then have "live t = live_array (array t)" using table_okD(2) [OF t] by (auto simp: live_def live_nodes_def empty_node_def)
      then have "num_key (sizearray t) \<notin> fst ` live t" by (auto simp: live_array_def)
      then have "\<not> present t (sizearray t + 1)" using present_live [OF t, of "sizearray t"] small by simp
      moreover have "tbl_getn t = Some (sizearray t)" using False True by (auto simp: tbl_getn_def Let_def)
      ultimately show ?thesis using i small by (auto simp: border_at_def)
    next
      case nodummy: False
      have "\<exists>r. unbound_loop t (sizearray t) (sizearray t + 1) = Some r \<and> border_at (present t) r \<and> r < 2 ^ 31 - 1"
        using i small by (intro unbound_loop_result [OF t]) auto
      moreover have "tbl_getn t = unbound_loop t (sizearray t) (sizearray t + 1)"
        using False nodummy by (auto simp: tbl_getn_def unbound_search_def Let_def)
      ultimately show ?thesis by simp
    qed
  qed
  then obtain j where j: "tbl_getn t = Some j" "border_at (present t) j" "j < 2 ^ 31 - 1" by blast
  have "tbl_value t (num_key j) = Some TNil"
    using j(2,3) num_value_key [of j t] by (simp add: border_at_def present_def)
  moreover have "0 < j \<longrightarrow> tbl_value t (num_key (j - 1)) \<noteq> Some TNil"
    using j(2,3) num_value_key [of "j - 1" t] by (cases j) (auto simp: border_at_def present_def)
  ultimately show ?thesis using j(1) by blast
qed

theorem getn_border_witness:
  "\<exists>t u. luaH_new 0 1 = Ret () t \<and> tbl_puts demo_kvs t = Ret () u \<and>
    (\<exists>j. tbl_getn u = Some j \<and> (0 < j \<longrightarrow> tbl_value u (num_key (j - 1)) \<noteq> Some TNil) \<and> tbl_value u (num_key j) = Some TNil)"
proof -
  obtain t u where "luaH_new 0 1 = Ret () t" "tbl_puts demo_kvs t = Ret () u" "table_ok u"
    using demo_table by blast
  then show ?thesis using getn_border by blast
qed

section \<open>The other entry points\<close>

lemma setstr_gives:
  assumes t: "table_ok t" and few: "card (fst ` live t) < MAXASIZE"
  shows "\<exists>a u. luaH_setstr str t = Ret a u \<and> gives t (TString str) a u"
proof -
  have "tbl_get t (TString str) = luaH_getstr t str" by (simp add: tbl_get_def)
  with get_found [OF t, of "TString str"] obtain p where p: "luaH_getstr t str = Some p" "found t (TString str) p" by auto
  show ?thesis
  proof (cases p)
    case (Some a)
    then have "luaH_setstr str t = Ret a t" using p by (simp add: luaH_setstr_def prog_defs)
    then show ?thesis using p(2) Some t by (auto simp: gives_def found_def)
  next
    case None
    then have "luaH_setstr str t = newkey (Suc (Suc 0)) (TString str) t"
      using p by (simp add: luaH_setstr_def bnd_def gets_def defined_def ret_def numeral_2_eq_2 del: newkey.simps)
    then show ?thesis using newkey_gives [OF t _ p(2) [unfolded None] few] by (simp add: key_ok_def)
  qed
qed

lemma setnum_gives:
  assumes t: "table_ok t" and k: "- (2 ^ 31) \<le> k" "k < 2 ^ 31" and few: "card (fst ` live t) < MAXASIZE"
  shows "\<exists>a u. luaH_setnum k t = Ret a u \<and> gives t (TNumber (cast_num k)) a u"
proof -
  obtain p where p: "luaH_getnum t k = Some p" "found t (TNumber (cast_num k)) p" using getnum_found [OF t k] by blast
  show ?thesis
  proof (cases p)
    case (Some a)
    then have "luaH_setnum k t = Ret a t" using p by (simp add: luaH_setnum_def luaH_setnum_by_def prog_defs)
    then show ?thesis using p(2) Some t by (auto simp: gives_def found_def)
  next
    case None
    then have "luaH_setnum k t = newkey (Suc (Suc 0)) (TNumber (cast_num k)) t"
      using p by (simp add: luaH_setnum_def luaH_setnum_by_def bnd_def gets_def defined_def ret_def numeral_2_eq_2 del: newkey.simps)
    then show ?thesis using newkey_gives [OF t _ p(2) [unfolded None] few] by (simp add: key_ok_def cast_num_def)
  qed
qed

text \<open>The array part of a table grows without loss.\<close>

lemma resizearray_keeps:
  assumes t: "table_ok t" and n: "sizearray t \<le> nasize" "nasize \<le> MAXASIZE"
  shows "\<exists>u. luaH_resizearray nasize t = Ret () u \<and> table_ok u \<and> live u = live t \<and> sizearray u = nasize"
proof -
  let ?h = "if isdummy t then 0 else sizenode t"
  have used: "{k \<in> fst ` live t. \<not> in_array nasize k} \<subseteq> used_keys (node t) (sizenode t)"
  proof -
    have "in_array nasize k" if "k \<in> num_key ` used_from (array t) 1 (sizearray t)" for k
      using that n(1) by (force simp: in_array_def used_from_def)
    then show ?thesis unfolding live_keys(1) [OF t] by blast
  qed
  have "card {k \<in> fst ` live t. \<not> in_array nasize k} \<le> ?h"
  proof (cases "isdummy t")
    case True
    then have "used_keys (node t) (sizenode t) = {}" using table_okD(2) [OF t] by (auto simp: used_keys_def empty_node_def)
    then have none: "{k \<in> fst ` live t. \<not> in_array nasize k} = {}" using used by blast
    show ?thesis unfolding none by simp
  next
    case False
    have "used_keys (node t) (sizenode t) \<subseteq> i_key ` set (node t)" by (auto simp: used_keys_def)
    then have "card {k \<in> fst ` live t. \<not> in_array nasize k} \<le> card (i_key ` set (node t))"
      using used by (intro card_mono) auto
    also have "\<dots> \<le> sizenode t" by (metis card_image_le card_length finite_set order_trans)
    finally show ?thesis using False by simp
  qed
  then have f: "fits nasize ?h (fst ` live t)" using finite_live [OF t] by (simp add: fits_def)
  have "sizenode t \<le> MAXASIZE"
    using t power_increasing [of _ MAXBITS "2::nat"] by (auto simp: table_ok_def MAXASIZE_def)
  then have "?h \<le> MAXASIZE" by simp
  from resize_keeps [OF t n(2) this f order_refl, of "Suc 0"] show ?thesis
    by (auto simp: luaH_resizearray_def bnd_def gets_def numeral_2_eq_2)
qed

end
