(* ===== verification/LuaImports.thy ===== *)
theory LuaImports
  imports LuaObject
begin

text \<open>
  How the modules find the Lua library of the server on Linux (\<open>luaimports.cpp\<close>, in the sockets and the MySQL
  module the same but for the prefix of the messages): \<open>ImportLua\<close> opens the server's shared object and
  stores the address of every function of the Lua API in a static pointer; each API function of the module is a
  thunk that calls the function its pointer holds.  The dynamic linker is the parameter \<open>dl_calls\<close>.  A thunk is
  its name, the pointer it calls through and, for each argument of the call, the position of the parameter that
  is passed on.  A call through a null pointer is \<open>None\<close>.
\<close>

section \<open>Pointers\<close>

record import_world =
  pointers :: "string \<Rightarrow> ptr"
  console :: "string list"

text \<open>\<open>dl_error\<close> is what \<open>dlerror\<close> says after the file or the symbol was not found, \<open>None\<close> the null pointer.\<close>

record dl_calls =
  dlopen :: "string \<Rightarrow> ptr"
  dlsym :: "ptr \<Rightarrow> string \<Rightarrow> ptr"
  dl_error :: "string \<Rightarrow> string option"

definition start_pointers :: import_world where
  "start_pointers = \<lparr>pointers = (\<lambda>_. 0), console = []\<rparr>"

text \<open>The names in the order of the file; \<open>LUA_COMPAT_GETN\<close> is not defined.\<close>

definition imported :: "string list" where
  "imported = [
    ''lua_newstate'', ''lua_close'', ''lua_newthread'', ''lua_atpanic'', ''lua_gettop'', ''lua_settop'',
    ''lua_pushvalue'', ''lua_remove'', ''lua_insert'', ''lua_replace'', ''lua_checkstack'', ''lua_xmove'',
    ''lua_isnumber'', ''lua_isstring'', ''lua_iscfunction'', ''lua_isuserdata'', ''lua_type'',
    ''lua_typename'', ''lua_equal'', ''lua_rawequal'', ''lua_lessthan'', ''lua_tonumber'', ''lua_tointeger'',
    ''lua_toboolean'', ''lua_tolstring'', ''lua_objlen'', ''lua_tocfunction'', ''lua_touserdata'',
    ''lua_tothread'', ''lua_topointer'', ''lua_pushnil'', ''lua_pushnumber'', ''lua_pushinteger'',
    ''lua_pushlstring'', ''lua_pushstring'', ''lua_pushvfstring'', ''lua_pushfstring'', ''lua_pushcclosure'',
    ''lua_pushboolean'', ''lua_pushlightuserdata'', ''lua_pushthread'', ''lua_gettable'', ''lua_getfield'',
    ''lua_rawget'', ''lua_rawgeti'', ''lua_createtable'', ''lua_newuserdata'', ''lua_getmetatable'',
    ''lua_getfenv'', ''lua_settable'', ''lua_setfield'', ''lua_rawset'', ''lua_rawseti'',
    ''lua_setmetatable'', ''lua_setfenv'', ''lua_call'', ''lua_pcall'', ''lua_cpcall'', ''lua_load'',
    ''lua_dump'', ''lua_yield'', ''lua_resume'', ''lua_status'', ''lua_gc'', ''lua_error'', ''lua_next'',
    ''lua_concat'', ''lua_getallocf'', ''lua_setallocf'', ''lua_getstack'', ''lua_getinfo'',
    ''lua_getlocal'', ''lua_setlocal'', ''lua_getupvalue'', ''lua_setupvalue'', ''lua_sethook'',
    ''lua_gethook'', ''lua_gethookmask'', ''lua_gethookcount'', ''luaL_register'', ''luaL_getmetafield'',
    ''luaL_callmeta'', ''luaL_typerror'', ''luaL_argerror'', ''luaL_checklstring'', ''luaL_optlstring'',
    ''luaL_checknumber'', ''luaL_optnumber'', ''luaL_checkinteger'', ''luaL_optinteger'',
    ''luaL_checkstack'', ''luaL_checktype'', ''luaL_checkany'', ''luaL_newmetatable'', ''luaL_checkudata'',
    ''luaL_where'', ''luaL_error'', ''luaL_checkoption'', ''luaL_ref'', ''luaL_unref'', ''luaL_loadfile'',
    ''luaL_loadbuffer'', ''luaL_loadstring'', ''luaL_newstate'', ''luaL_gsub'', ''luaL_findtable'',
    ''luaL_buffinit'', ''luaL_prepbuffer'', ''luaL_addlstring'', ''luaL_addstring'', ''luaL_addvalue'',
    ''luaL_pushresult'']"

definition state_thunks :: "(string \<times> string \<times> nat list) list" where
  "state_thunks = [
    (''lua_newstate'', ''lua_newstate'', [0, 1]), (''lua_close'', ''lua_close'', [0]),
    (''lua_newthread'', ''lua_newthread'', [0]), (''lua_atpanic'', ''lua_atpanic'', [0, 1])]"

definition stack_thunks :: "(string \<times> string \<times> nat list) list" where
  "stack_thunks = [
    (''lua_gettop'', ''lua_gettop'', [0]), (''lua_settop'', ''lua_settop'', [0, 1]),
    (''lua_pushvalue'', ''lua_pushvalue'', [0, 1]), (''lua_remove'', ''lua_remove'', [0, 1]),
    (''lua_insert'', ''lua_insert'', [0, 1]), (''lua_replace'', ''lua_replace'', [0, 1]),
    (''lua_checkstack'', ''lua_checkstack'', [0, 1]), (''lua_xmove'', ''lua_xmove'', [0, 1, 2])]"

definition access_thunks :: "(string \<times> string \<times> nat list) list" where
  "access_thunks = [
    (''lua_isnumber'', ''lua_isnumber'', [0, 1]), (''lua_isstring'', ''lua_isstring'', [0, 1]),
    (''lua_iscfunction'', ''lua_iscfunction'', [0, 1]), (''lua_isuserdata'', ''lua_isuserdata'', [0, 1]),
    (''lua_type'', ''lua_type'', [0, 1]), (''lua_typename'', ''lua_typename'', [0, 1]),
    (''lua_equal'', ''lua_equal'', [0, 1, 2]), (''lua_rawequal'', ''lua_rawequal'', [0, 1, 2]),
    (''lua_lessthan'', ''lua_lessthan'', [0, 1, 2]), (''lua_tonumber'', ''lua_tonumber'', [0, 1]),
    (''lua_tointeger'', ''lua_tointeger'', [0, 1]), (''lua_toboolean'', ''lua_toboolean'', [0, 1]),
    (''lua_tolstring'', ''lua_tolstring'', [0, 1, 2]), (''lua_objlen'', ''lua_objlen'', [0, 1]),
    (''lua_tocfunction'', ''lua_tocfunction'', [0, 1]), (''lua_touserdata'', ''lua_touserdata'', [0, 1]),
    (''lua_tothread'', ''lua_tothread'', [0, 1]), (''lua_topointer'', ''lua_topointer'', [0, 1])]"

definition push_thunks :: "(string \<times> string \<times> nat list) list" where
  "push_thunks = [
    (''lua_pushnil'', ''lua_pushnil'', [0]), (''lua_pushnumber'', ''lua_pushnumber'', [0, 1]),
    (''lua_pushinteger'', ''lua_pushinteger'', [0, 1]),
    (''lua_pushlstring'', ''lua_pushlstring'', [0, 1, 2]), (''lua_pushstring'', ''lua_pushstring'', [0, 1]),
    (''lua_pushvfstring'', ''lua_pushvfstring'', [0, 1, 2]),
    (''lua_pushcclosure'', ''lua_pushcclosure'', [0, 1, 2]),
    (''lua_pushboolean'', ''lua_pushboolean'', [0, 1]),
    (''lua_pushlightuserdata'', ''lua_pushlightuserdata'', [0, 1]),
    (''lua_pushthread'', ''lua_pushthread'', [0])]"

definition get_thunks :: "(string \<times> string \<times> nat list) list" where
  "get_thunks = [
    (''lua_gettable'', ''lua_gettable'', [0, 1]), (''lua_getfield'', ''lua_getfield'', [0, 1, 2]),
    (''lua_rawget'', ''lua_rawget'', [0, 1]), (''lua_rawgeti'', ''lua_rawgeti'', [0, 1, 2]),
    (''lua_createtable'', ''lua_createtable'', [0, 1, 2]),
    (''lua_newuserdata'', ''lua_newuserdata'', [0, 1]), (''lua_getmetatable'', ''lua_getmetatable'', [0, 1]),
    (''lua_getfenv'', ''lua_getfenv'', [0, 1])]"

definition set_thunks :: "(string \<times> string \<times> nat list) list" where
  "set_thunks = [
    (''lua_settable'', ''lua_settable'', [0, 1]), (''lua_setfield'', ''lua_setfield'', [0, 1, 2]),
    (''lua_rawset'', ''lua_rawset'', [0, 1]), (''lua_rawseti'', ''lua_rawseti'', [0, 1, 2]),
    (''lua_setmetatable'', ''lua_setmetatable'', [0, 1]), (''lua_setfenv'', ''lua_setfenv'', [0, 1])]"

definition call_thunks :: "(string \<times> string \<times> nat list) list" where
  "call_thunks = [
    (''lua_call'', ''lua_call'', [0, 1, 2]), (''lua_pcall'', ''lua_pcall'', [0, 1, 2, 3]),
    (''lua_cpcall'', ''lua_cpcall'', [0, 1, 2]), (''lua_load'', ''lua_load'', [0, 1, 2, 3]),
    (''lua_dump'', ''lua_dump'', [0, 1, 2])]"

definition coroutine_thunks :: "(string \<times> string \<times> nat list) list" where
  "coroutine_thunks = [
    (''lua_yield'', ''lua_yield'', [0, 1]), (''lua_resume'', ''lua_resume'', [0, 1]),
    (''lua_status'', ''lua_status'', [0])]"

definition gc_thunks :: "(string \<times> string \<times> nat list) list" where
  "gc_thunks = [
    (''lua_gc'', ''lua_gc'', [0, 1, 2])]"

definition misc_thunks :: "(string \<times> string \<times> nat list) list" where
  "misc_thunks = [
    (''lua_error'', ''lua_error'', [0]), (''lua_next'', ''lua_next'', [0, 1]),
    (''lua_concat'', ''lua_concat'', [0, 1]), (''lua_getallocf'', ''lua_getallocf'', [0, 1]),
    (''lua_setallocf'', ''lua_setallocf'', [0, 1, 2])]"

definition debug_thunks :: "(string \<times> string \<times> nat list) list" where
  "debug_thunks = [
    (''lua_getstack'', ''lua_getstack'', [0, 1, 2]), (''lua_getinfo'', ''lua_getinfo'', [0, 1, 2]),
    (''lua_getlocal'', ''lua_getlocal'', [0, 1, 2]), (''lua_setlocal'', ''lua_setlocal'', [0, 1, 2]),
    (''lua_getupvalue'', ''lua_getupvalue'', [0, 1, 2]), (''lua_setupvalue'', ''lua_setupvalue'', [0, 1, 2]),
    (''lua_sethook'', ''lua_sethook'', [0, 1, 2, 3]), (''lua_gethook'', ''lua_gethook'', [0]),
    (''lua_gethookmask'', ''lua_gethookmask'', [0]), (''lua_gethookcount'', ''lua_gethookcount'', [0])]"

definition aux_thunks :: "(string \<times> string \<times> nat list) list" where
  "aux_thunks = [
    (''luaL_register'', ''luaL_register'', [0, 1, 2]),
    (''luaL_getmetafield'', ''luaL_getmetafield'', [0, 1, 2]),
    (''luaL_callmeta'', ''luaL_callmeta'', [0, 1, 2]), (''luaL_typerror'', ''luaL_typerror'', [0, 1, 2]),
    (''luaL_argerror'', ''luaL_argerror'', [0, 1, 2]),
    (''luaL_checklstring'', ''luaL_checklstring'', [0, 1, 2]),
    (''luaL_optlstring'', ''luaL_optlstring'', [0, 1, 2, 3]),
    (''luaL_checknumber'', ''luaL_checknumber'', [0, 1]),
    (''luaL_optnumber'', ''luaL_optnumber'', [0, 1, 2]),
    (''luaL_checkinteger'', ''luaL_checkinteger'', [0, 1]),
    (''luaL_optinteger'', ''luaL_optinteger'', [0, 1, 2]),
    (''luaL_checkstack'', ''luaL_checkstack'', [0, 1, 2]),
    (''luaL_checktype'', ''luaL_checktype'', [0, 1, 2]), (''luaL_checkany'', ''luaL_checkany'', [0, 1]),
    (''luaL_newmetatable'', ''luaL_newmetatable'', [0, 1]),
    (''luaL_checkudata'', ''luaL_checkudata'', [0, 1, 2]), (''luaL_where'', ''luaL_where'', [0, 1]),
    (''luaL_checkoption'', ''luaL_checkoption'', [0, 1, 2, 3]), (''luaL_ref'', ''luaL_ref'', [0, 1]),
    (''luaL_unref'', ''luaL_unref'', [0, 1, 2]), (''luaL_loadfile'', ''luaL_loadfile'', [0, 1]),
    (''luaL_loadbuffer'', ''luaL_loadbuffer'', [0, 1, 2, 3]),
    (''luaL_loadstring'', ''luaL_loadstring'', [0, 1]), (''luaL_newstate'', ''luaL_newstate'', []),
    (''luaL_gsub'', ''luaL_gsub'', [0, 1, 2, 3]), (''luaL_findtable'', ''luaL_findtable'', [0, 1, 2, 3]),
    (''luaL_buffinit'', ''luaL_buffinit'', [0, 1]), (''luaL_prepbuffer'', ''luaL_prepbuffer'', [0]),
    (''luaL_addlstring'', ''luaL_addlstring'', [0, 1, 2]), (''luaL_addstring'', ''luaL_addstring'', [0, 1]),
    (''luaL_addvalue'', ''luaL_addvalue'', [0]), (''luaL_pushresult'', ''luaL_pushresult'', [0])]"


definition thunks :: "(string \<times> string \<times> nat list) list" where
  "thunks = state_thunks @ stack_thunks @ access_thunks @ push_thunks @ get_thunks @ set_thunks @ call_thunks
     @ coroutine_thunks @ gc_thunks @ misc_thunks @ debug_thunks @ aux_thunks"

section \<open>Import\<close>

definition Printf :: "string \<Rightarrow> string option \<Rightarrow> (string, import_world, unit) prog" where
  "Printf msg reason = bnd (defined reason) (\<lambda>r. modify (\<lambda>w. w\<lparr>console := console w @ [msg @ r @ [CHR 0x0A]]\<rparr>))"

fun import_loop :: "string \<Rightarrow> dl_calls \<Rightarrow> ptr \<Rightarrow> string list \<Rightarrow> (string, import_world, bool) prog" where
  "import_loop prefix dc dl [] = ret True"
| "import_loop prefix dc dl (x # xs) =
     andThen (modify (\<lambda>w. w\<lparr>pointers := (pointers w)(x := dlsym dc dl x)\<rparr>))
    (bnd (gets (\<lambda>w. pointers w x)) (\<lambda>p.
       if p = 0 then andThen (Printf (prefix @ '' Unable to import '' @ x @ '': '') (dl_error dc x)) (ret False)
       else import_loop prefix dc dl xs))"

definition ImportLua :: "string \<Rightarrow> bool \<Rightarrow> dl_calls \<Rightarrow> (string, import_world, bool) prog" where
  "ImportLua prefix x64 dc = (let file = (if x64 then ''x64/deathmatch.so'' else ''mods/deathmatch/deathmatch.so'');
     dl = dlopen dc file in
     if dl = 0 then andThen (Printf (prefix @ '' Unable to open deathmatch.so: '') (dl_error dc file)) (ret False)
     else import_loop prefix dc dl imported)"

definition sockets_ImportLua :: "bool \<Rightarrow> dl_calls \<Rightarrow> (string, import_world, bool) prog" where
  "sockets_ImportLua = ImportLua ''[Sockets]''"

definition mysql_ImportLua :: "bool \<Rightarrow> dl_calls \<Rightarrow> (string, import_world, bool) prog" where
  "mysql_ImportLua = ImportLua ''[mta-mysql]''"

section \<open>Thunks\<close>

text \<open>\<open>code p\<close> is the function at the address \<open>p\<close>, from its arguments to its result.\<close>

definition LCALL :: "(ptr \<Rightarrow> 'v list \<Rightarrow> 'r) \<Rightarrow> string \<Rightarrow> 'v list \<Rightarrow> import_world \<Rightarrow> 'r option" where
  "LCALL code f args w = (let p = pointers w f in if p = 0 then None else Some (code p args))"

definition run_thunk :: "(ptr \<Rightarrow> 'v list \<Rightarrow> 'r) \<Rightarrow> (string \<times> string \<times> nat list) \<Rightarrow> 'v list \<Rightarrow> import_world \<Rightarrow> 'r option" where
  "run_thunk code th args w = (case th of (name, f, is) \<Rightarrow> LCALL code f (map (\<lambda>i. args ! i) is) w)"

text \<open>
  The thunks of the two functions with a format, \<open>lua_pushfstring\<close> and \<open>luaL_error\<close>, format into a buffer and
  pass the buffer on as a format without arguments.  \<open>c_format\<close> is the formatting of the C library.
\<close>

definition vsnprintf_1024 :: "(string \<Rightarrow> fmt_arg list \<Rightarrow> string) \<Rightarrow> string \<Rightarrow> fmt_arg list \<Rightarrow> string" where
  "vsnprintf_1024 c_format fmt args = take 1023 (c_str (c_format fmt args))"

definition format_thunk ::
  "(string \<Rightarrow> fmt_arg list \<Rightarrow> string) \<Rightarrow> (ptr \<Rightarrow> string \<Rightarrow> fmt_arg list \<Rightarrow> 'r) \<Rightarrow> string \<Rightarrow> string \<Rightarrow> fmt_arg list \<Rightarrow> import_world \<Rightarrow> 'r option" where
  "format_thunk c_format code f fmt args w = (let p = pointers w f in
     if p = 0 then None else Some (code p (vsnprintf_1024 c_format fmt args) []))"

section \<open>Properties\<close>

lemma thunk_names: "map fst thunks = filter (\<lambda>n. n \<noteq> ''lua_pushfstring'' \<and> n \<noteq> ''luaL_error'') imported"
  by code_simp

lemma thunks_forward: "list_all (\<lambda>(name, f, is). f = name \<and> is = [0..<length is]) thunks"
  by code_simp

lemma thunk_imported: "(name, f, is) \<in> set thunks \<Longrightarrow> name \<in> set imported \<and> f = name \<and> is = [0..<length is]"
proof -
  assume t: "(name, f, is) \<in> set thunks"
  then have "name \<in> set (map fst thunks)" by force
  then have "name \<in> set imported" unfolding thunk_names by simp
  then show ?thesis using thunks_forward t by (auto simp: list_all_iff)
qed

lemma import_loop_step:
  "import_loop prefix dc dl (x # xs) w = (let v = w\<lparr>pointers := (pointers w)(x := dlsym dc dl x)\<rparr> in
     if dlsym dc dl x = 0 then andThen (Printf (prefix @ '' Unable to import '' @ x @ '': '') (dl_error dc x)) (ret False) v
     else import_loop prefix dc dl xs v)"
  by (simp add: andThen_def bnd_def modify_def gets_def Let_def)

lemma import_loop_all:
  assumes "\<forall>n \<in> set ns. dlsym dc dl n \<noteq> 0"
  shows "\<exists>w'. import_loop prefix dc dl ns w = Ret True w' \<and> console w' = console w
     \<and> (\<forall>n. pointers w' n = (if n \<in> set ns then dlsym dc dl n else pointers w n))"
  using assms
proof (induction ns arbitrary: w)
  case Nil
  then show ?case by (simp add: ret_def)
next
  case (Cons x xs)
  let ?v = "w\<lparr>pointers := (pointers w)(x := dlsym dc dl x)\<rparr>"
  have "import_loop prefix dc dl (x # xs) w = import_loop prefix dc dl xs ?v"
    using Cons.prems by (simp add: import_loop_step Let_def del: import_loop.simps)
  with Cons.IH [of ?v] Cons.prems show ?case by (auto simp del: import_loop.simps)
qed

lemma import_loop_missing:
  assumes "dl_error dc x = Some r" "\<forall>n \<in> set pre. dlsym dc dl n \<noteq> 0" "dlsym dc dl x = 0"
  shows "\<exists>w'. import_loop prefix dc dl (pre @ x # post) w = Ret False w'
     \<and> console w' = console w @ [prefix @ '' Unable to import '' @ x @ '': '' @ r @ [CHR 0x0A]]"
  using assms(2)
proof (induction pre arbitrary: w)
  case Nil
  then show ?case using assms(1,3)
    by (simp add: import_loop_step Let_def Printf_def andThen_def bnd_def defined_def ret_def modify_def del: import_loop.simps)
next
  case (Cons y ys)
  let ?v = "w\<lparr>pointers := (pointers w)(y := dlsym dc dl y)\<rparr>"
  have "import_loop prefix dc dl ((y # ys) @ x # post) w = import_loop prefix dc dl (ys @ x # post) ?v"
    using Cons.prems by (simp add: import_loop_step Let_def del: import_loop.simps)
  with Cons.IH [of ?v] Cons.prems show ?case by (auto simp del: import_loop.simps)
qed

definition server_file :: "bool \<Rightarrow> string" where
  "server_file x64 = (if x64 then ''x64/deathmatch.so'' else ''mods/deathmatch/deathmatch.so'')"

text \<open>C36: \<open>ImportLua\<close> of both modules always returns.  It returns true exactly if the server's shared object is loaded and
  has every function of the Lua API; then every thunk without a format calls the server's function of its own
  name, through a pointer that is not null, with its own arguments in their order.  Otherwise one message is
  printed; if the object is loaded, the message names the first function that is missing.\<close>

theorem import_lua_result:
  fixes dc :: dl_calls and x64 :: bool and w :: import_world and code :: "ptr \<Rightarrow> 'v list \<Rightarrow> 'r"
  assumes err: "\<forall>n. \<exists>r. dl_error dc n = Some r"
  defines "dl \<equiv> dlopen dc (server_file x64)"
  shows "\<forall>imp \<in> {sockets_ImportLua, mysql_ImportLua}. \<exists>ok w'. imp x64 dc w = Ret ok w'
    \<and> ok = (dl \<noteq> 0 \<and> (\<forall>n \<in> set imported. dlsym dc dl n \<noteq> 0))
    \<and> (ok \<longrightarrow> console w' = console w \<and>
        (\<forall>(name, f, is) \<in> set thunks. \<forall>args. length args = length is \<longrightarrow>
           run_thunk code (name, f, is) args w' = Some (code (dlsym dc dl name) args)))
    \<and> (\<not> ok \<longrightarrow> (\<exists>msg. console w' = console w @ [msg] \<and> (dl \<noteq> 0 \<longrightarrow> (\<exists>pre x post prefix r.
           imported = pre @ x # post \<and> (\<forall>n \<in> set pre. dlsym dc dl n \<noteq> 0) \<and> dlsym dc dl x = 0
           \<and> msg = prefix @ '' Unable to import '' @ x @ '': '' @ r @ [CHR 0x0A]))))"
proof -
  have "\<exists>ok w'. ImportLua prefix x64 dc w = Ret ok w'
    \<and> ok = (dl \<noteq> 0 \<and> (\<forall>n \<in> set imported. dlsym dc dl n \<noteq> 0))
    \<and> (ok \<longrightarrow> console w' = console w \<and>
        (\<forall>(name, f, is) \<in> set thunks. \<forall>args. length args = length is \<longrightarrow>
           run_thunk code (name, f, is) args w' = Some (code (dlsym dc dl name) args)))
    \<and> (\<not> ok \<longrightarrow> (\<exists>msg. console w' = console w @ [msg] \<and> (dl \<noteq> 0 \<longrightarrow> (\<exists>pre x post prefix r.
           imported = pre @ x # post \<and> (\<forall>n \<in> set pre. dlsym dc dl n \<noteq> 0) \<and> dlsym dc dl x = 0
           \<and> msg = prefix @ '' Unable to import '' @ x @ '': '' @ r @ [CHR 0x0A]))))" for prefix
  proof (cases "dl = 0")
    case True
    obtain r where "dl_error dc (server_file x64) = Some r" using err by blast
    then have "ImportLua prefix x64 dc w = Ret False (w\<lparr>console := console w @ [(prefix @ '' Unable to open deathmatch.so: '') @ r @ [CHR 0x0A]]\<rparr>)"
      using True unfolding ImportLua_def server_file_def dl_def
      by (simp add: Let_def Printf_def andThen_def bnd_def defined_def ret_def modify_def)
    then show ?thesis using True by simp blast
  next
    case False
    then have run: "ImportLua prefix x64 dc w = import_loop prefix dc dl imported w"
      by (simp add: ImportLua_def server_file_def dl_def Let_def)
    show ?thesis
    proof (cases "\<forall>n \<in> set imported. dlsym dc dl n \<noteq> 0")
      case True
      from import_loop_all [OF this, of prefix w] obtain w' where
        w': "import_loop prefix dc dl imported w = Ret True w'" "console w' = console w"
          "\<forall>n. pointers w' n = (if n \<in> set imported then dlsym dc dl n else pointers w n)" by blast
      have "run_thunk code (name, f, is) args w' = Some (code (dlsym dc dl name) args)"
        if th: "(name, f, is) \<in> set thunks" and args: "length args = length is" for name f "is" and args :: "'v list"
      proof -
        note t = thunk_imported [OF th]
        have "map (\<lambda>i. args ! i) is = args" using t args by (metis map_nth)
        then show ?thesis using t w'(3) True by (simp add: run_thunk_def LCALL_def Let_def)
      qed
      then show ?thesis using run w'(1,2) False True by auto
    next
      case missing: False
      then obtain pre x post where i: "imported = pre @ x # post" "dlsym dc dl x = 0" "\<forall>n \<in> set pre. dlsym dc dl n \<noteq> 0"
        using split_list_first_prop [of imported "\<lambda>n. dlsym dc dl n = 0"] by auto
      obtain r where "dl_error dc x = Some r" using err by blast
      from import_loop_missing [OF this i(3,2), of prefix post w] obtain w' where
        w': "import_loop prefix dc dl imported w = Ret False w'"
          "console w' = console w @ [prefix @ '' Unable to import '' @ x @ '': '' @ r @ [CHR 0x0A]]" using i(1) by auto
      have "ImportLua prefix x64 dc w = Ret False w'" using run w'(1) by simp
      moreover have "\<exists>msg. console w' = console w @ [msg] \<and> (dl \<noteq> 0 \<longrightarrow> (\<exists>pre x post prefix r.
           imported = pre @ x # post \<and> (\<forall>n \<in> set pre. dlsym dc dl n \<noteq> 0) \<and> dlsym dc dl x = 0
           \<and> msg = prefix @ '' Unable to import '' @ x @ '': '' @ r @ [CHR 0x0A]))"
        using w'(2) i by (intro exI conjI impI) (assumption | rule refl)+
      ultimately show ?thesis using missing by (intro exI [of _ False] exI [of _ w']) simp
    qed
  qed
  then show ?thesis by (simp add: sockets_ImportLua_def mysql_ImportLua_def)
qed

definition demo_dl :: dl_calls where
  "demo_dl = \<lparr>dlopen = (\<lambda>_. 1), dlsym = (\<lambda>_ n. length n), dl_error = (\<lambda>n. Some n)\<rparr>"

theorem import_lua_result_witness:
  "\<exists>ok w'. sockets_ImportLua True demo_dl start_pointers = Ret ok w'
    \<and> ok = (1 \<noteq> (0::nat) \<and> (\<forall>n \<in> set imported. length n \<noteq> 0))
    \<and> (ok \<longrightarrow> console w' = [] \<and>
        (\<forall>(name, f, is) \<in> set thunks. \<forall>args. length args = length is \<longrightarrow>
           run_thunk (\<lambda>p (as :: nat list). p + sum_list as) (name, f, is) args w' = Some (length name + sum_list args)))"
  using import_lua_result [of demo_dl True start_pointers "\<lambda>p (as :: nat list). p + sum_list as"]
  by (auto simp: demo_dl_def start_pointers_def)

text \<open>A message that holds a conversion after it was formatted is formatted again, now without arguments.\<close>

lemma formatted_twice:
  assumes "pointers w f = p" "p \<noteq> 0" "c_str (c_format fmt args) = t @ CHR 0x25 # CHR ''s'' # rest" "length t < 1000"
    "CHR 0x25 \<notin> set t"
  shows "format_thunk c_format (\<lambda>p. luaO_pushvfstring ptr_str) f fmt args w = Some None"
proof -
  have n: "1023 - length t = Suc (Suc (1021 - length t))" using assms(4) by simp
  have "vsnprintf_1024 c_format fmt args = t @ CHR 0x25 # CHR ''s'' # take (1021 - length t) rest"
    unfolding vsnprintf_1024_def assms(3) using assms(4) n by simp
  then show ?thesis using assms(1,2) pushvfstring_missing [of "CHR ''s''" t ptr_str] assms(5)
    by (simp add: format_thunk_def Let_def)
qed

end
