(* ===== verification/LuaTyping.thy ===== *)
theory LuaTyping
  imports LuaAux
begin

text \<open>
  The references of a Lua machine.  A table, function or userdata value is a pointer to an object; the C code
  of the API follows it without a test.  \<open>heap_ok\<close> says that no reference of the machine dangles: none on the
  stack, in a table, in an upvalue, an environment or a metatable.  \<open>typed V m Q\<close> is the typing judgement of
  programs: where the values in \<open>V\<close> refer to objects, \<open>m\<close> keeps \<open>heap_ok\<close>, takes no object away, and the values
  \<open>Q\<close> names of its result, or the value it throws, refer to objects.  Every API function is typed, so C code that
  works through the API alone cannot make a dangling reference.
\<close>

section \<open>Well-formed machines\<close>

fun value_ok :: "'z lua_State_scheme \<Rightarrow> TValue \<Rightarrow> bool" where
  "value_ok s (TTable p) \<longleftrightarrow> tables s p \<noteq> None"
| "value_ok s (TFunction p) \<longleftrightarrow> closures s p \<noteq> None"
| "value_ok s (TUserData p) \<longleftrightarrow> udatas s p \<noteq> None"
| "value_ok s v \<longleftrightarrow> True"

definition meta_values :: "ptr \<Rightarrow> TValue set" where
  "meta_values p = (if p = 0 then {} else {TTable p})"

lemma meta_values_0 [simp]: "meta_values 0 = {}"
  by (simp add: meta_values_def)

definition table_values :: "Table \<Rightarrow> TValue set" where
  "table_values h = fst ` set (entries h) \<union> snd ` set (entries h) \<union> meta_values (metatable h)"

definition closure_values :: "Closure \<Rightarrow> TValue set" where
  "closure_values cl = insert (TTable (cenv cl)) (set (upvalues cl))"

definition udata_values :: "Udata \<Rightarrow> TValue set" where
  "udata_values u = insert (TTable (uenv u)) (meta_values (umetatable u))"

definition vals_ok :: "'z lua_State_scheme \<Rightarrow> TValue set \<Rightarrow> bool" where
  "vals_ok s V \<longleftrightarrow> (\<forall>v \<in> V. value_ok s v)"

definition heap_ok :: "'z lua_State_scheme \<Rightarrow> bool" where
  "heap_ok s \<longleftrightarrow> vals_ok s (set (stack s)) \<and> vals_ok s {TTable (registry s), TTable (globals s)}
     \<and> (\<forall>t. vals_ok s (meta_values (typemt s t)))
     \<and> (\<forall>p. curr_func s = Some p \<longrightarrow> value_ok s (TFunction p))
     \<and> (\<forall>p h. tables s p = Some h \<longrightarrow> vals_ok s (table_values h))
     \<and> (\<forall>p cl. closures s p = Some cl \<longrightarrow> vals_ok s (closure_values cl))
     \<and> (\<forall>p u. udatas s p = Some u \<longrightarrow> vals_ok s (udata_values u))"

text \<open>Objects stay: a reference that is good now is good later.\<close>

definition later :: "'z lua_State_scheme \<Rightarrow> 'z lua_State_scheme \<Rightarrow> bool" where
  "later s t \<longleftrightarrow> dom (tables s) \<subseteq> dom (tables t) \<and> dom (closures s) \<subseteq> dom (closures t)
     \<and> dom (udatas s) \<subseteq> dom (udatas t)"

lemma later_refl [simp]: "later s s"
  by (simp add: later_def)

lemma later_trans: "later s t \<Longrightarrow> later t u \<Longrightarrow> later s u"
  unfolding later_def by blast

lemma later_value: "later s t \<Longrightarrow> value_ok s v \<Longrightarrow> value_ok t v"
  by (cases v) (auto simp: later_def subset_iff dom_def)

lemma later_vals: "later s t \<Longrightarrow> vals_ok s V \<Longrightarrow> vals_ok t V"
  by (auto simp: vals_ok_def later_value)

lemma vals_ok_simps [simp]:
  "vals_ok s {}" "vals_ok s (insert v V) \<longleftrightarrow> value_ok s v \<and> vals_ok s V" "vals_ok s (V \<union> W) \<longleftrightarrow> vals_ok s V \<and> vals_ok s W"
  by (auto simp: vals_ok_def)

lemma vals_ok_subset: "vals_ok s V \<Longrightarrow> W \<subseteq> V \<Longrightarrow> vals_ok s W"
  by (auto simp: vals_ok_def)

lemma vals_okD: "vals_ok s V \<Longrightarrow> v \<in> V \<Longrightarrow> value_ok s v"
  by (simp add: vals_ok_def)

text \<open>Whether a value refers to an object depends on the objects alone.\<close>

lemma value_ok_fields [simp]:
  "value_ok (s\<lparr>stack := x\<rparr>) v = value_ok s v" "value_ok (s\<lparr>curr_func := c\<rparr>) v = value_ok s v"
  "value_ok (s\<lparr>registry := p\<rparr>) v = value_ok s v" "value_ok (s\<lparr>globals := p\<rparr>) v = value_ok s v"
  "value_ok (s\<lparr>typemt := m\<rparr>) v = value_ok s v" "value_ok (s\<lparr>next_obj := n\<rparr>) v = value_ok s v"
  "value_ok (s\<lparr>next_udata := n\<rparr>) v = value_ok s v"
  by (cases v; simp)+

lemma vals_ok_fields [simp]:
  "vals_ok (s\<lparr>stack := x\<rparr>) V = vals_ok s V" "vals_ok (s\<lparr>curr_func := c\<rparr>) V = vals_ok s V"
  "vals_ok (s\<lparr>registry := p\<rparr>) V = vals_ok s V" "vals_ok (s\<lparr>globals := p\<rparr>) V = vals_ok s V"
  "vals_ok (s\<lparr>typemt := m\<rparr>) V = vals_ok s V" "vals_ok (s\<lparr>next_obj := n\<rparr>) V = vals_ok s V"
  "vals_ok (s\<lparr>next_udata := n\<rparr>) V = vals_ok s V"
  by (simp_all add: vals_ok_def)

lemma heap_okD:
  assumes "heap_ok s"
  shows "vals_ok s (set (stack s))" "value_ok s (TTable (registry s))" "value_ok s (TTable (globals s))"
    "vals_ok s (meta_values (typemt s t))" "curr_func s = Some p \<Longrightarrow> value_ok s (TFunction p)"
    "tables s p = Some h \<Longrightarrow> vals_ok s (table_values h)" "closures s p = Some cl \<Longrightarrow> vals_ok s (closure_values cl)"
    "udatas s p = Some u \<Longrightarrow> vals_ok s (udata_values u)"
  using assms by (auto simp: heap_ok_def simp del: value_ok.simps)

section \<open>Changes of one object or field\<close>

lemma heap_ok_stack: "heap_ok s \<Longrightarrow> vals_ok s (set x) \<Longrightarrow> heap_ok (s\<lparr>stack := x\<rparr>)"
  by (simp add: heap_ok_def del: value_ok.simps)

lemma heap_ok_frame:
  "heap_ok s \<Longrightarrow> vals_ok s (set x) \<Longrightarrow> (\<And>p. f = Some p \<Longrightarrow> value_ok s (TFunction p)) \<Longrightarrow> heap_ok (s\<lparr>stack := x, curr_func := f\<rparr>)"
  by (simp add: heap_ok_def del: value_ok.simps)

lemma heap_ok_later:
  assumes "heap_ok s" "later s t" "stack t = stack s" "registry t = registry s" "globals t = globals s" "typemt t = typemt s"
    "curr_func t = curr_func s"
    "\<And>p h. tables t p = Some h \<Longrightarrow> vals_ok t (table_values h)"
    "\<And>p cl. closures t p = Some cl \<Longrightarrow> vals_ok t (closure_values cl)"
    "\<And>p u. udatas t p = Some u \<Longrightarrow> vals_ok t (udata_values u)"
  shows "heap_ok t"
  unfolding heap_ok_def
proof (intro conjI allI impI)
  show "vals_ok t {TTable (registry t), TTable (globals t)}"
    using later_value [OF assms(2) heap_okD(2) [OF assms(1)]] later_value [OF assms(2) heap_okD(3) [OF assms(1)]] assms(4,5)
    by (simp del: value_ok.simps)
  show "value_ok t (TFunction p)" if "curr_func t = Some p" for p
    using later_value [OF assms(2) heap_okD(5) [OF assms(1)]] that assms(7) by simp
qed (use assms later_vals [OF assms(2)] heap_okD(1,4) [OF assms(1)] in auto)

lemma put_table_ok:
  assumes "heap_ok s" "vals_ok s (table_values h)"
  shows "heap_ok (s\<lparr>tables := (tables s)(p \<mapsto> h)\<rparr>)" "later s (s\<lparr>tables := (tables s)(p \<mapsto> h)\<rparr>)"
proof -
  let ?t = "s\<lparr>tables := (tables s)(p \<mapsto> h)\<rparr>"
  show l: "later s ?t" by (auto simp: later_def)
  show "heap_ok ?t"
    by (rule heap_ok_later [OF assms(1) l])
      (use later_vals [OF l] assms(2) heap_okD(6-8) [OF assms(1)] in \<open>auto split: if_splits\<close>)
qed

lemma put_closure_ok:
  assumes "heap_ok s" "vals_ok s (closure_values cl)"
  shows "heap_ok (s\<lparr>closures := (closures s)(p \<mapsto> cl)\<rparr>)" "later s (s\<lparr>closures := (closures s)(p \<mapsto> cl)\<rparr>)"
proof -
  let ?t = "s\<lparr>closures := (closures s)(p \<mapsto> cl)\<rparr>"
  show l: "later s ?t" by (auto simp: later_def)
  show "heap_ok ?t"
    by (rule heap_ok_later [OF assms(1) l])
      (use later_vals [OF l] assms(2) heap_okD(6-8) [OF assms(1)] in \<open>auto split: if_splits\<close>)
qed

lemma put_udata_ok:
  assumes "heap_ok s" "vals_ok s (udata_values u)"
  shows "heap_ok (s\<lparr>udatas := (udatas s)(p \<mapsto> u)\<rparr>)" "later s (s\<lparr>udatas := (udatas s)(p \<mapsto> u)\<rparr>)"
proof -
  let ?t = "s\<lparr>udatas := (udatas s)(p \<mapsto> u)\<rparr>"
  show l: "later s ?t" by (auto simp: later_def)
  show "heap_ok ?t"
    by (rule heap_ok_later [OF assms(1) l])
      (use later_vals [OF l] assms(2) heap_okD(6-8) [OF assms(1)] in \<open>auto split: if_splits\<close>)
qed

section \<open>The typing judgement\<close>

definition typed :: "TValue set \<Rightarrow> ('z lua_State_scheme, 'a) lua \<Rightarrow> ('a \<Rightarrow> TValue set) \<Rightarrow> bool" where
  "typed V m Q \<longleftrightarrow> (\<forall>s. heap_ok s \<and> vals_ok s V \<longrightarrow> (case m s of
     Ret a t \<Rightarrow> heap_ok t \<and> later s t \<and> vals_ok t (Q a)
   | Throw e t \<Rightarrow> heap_ok t \<and> later s t \<and> value_ok t e
   | Undef \<Rightarrow> True))"

lemma typedI:
  fixes m :: "('z lua_State_scheme, 'a) lua"
  assumes "\<And>s a t. heap_ok s \<Longrightarrow> vals_ok s V \<Longrightarrow> m s = Ret a t \<Longrightarrow> heap_ok t \<and> later s t \<and> vals_ok t (Q a)"
    and "\<And>s e t. heap_ok s \<Longrightarrow> vals_ok s V \<Longrightarrow> m s = Throw e t \<Longrightarrow> heap_ok t \<and> later s t \<and> value_ok t e"
  shows "typed V m Q"
  unfolding typed_def
proof (intro allI impI, elim conjE)
  fix s :: "'z lua_State_scheme"
  assume "heap_ok s" "vals_ok s V"
  with assms [of s] show "case m s of Ret a t \<Rightarrow> heap_ok t \<and> later s t \<and> vals_ok t (Q a)
      | Throw e t \<Rightarrow> heap_ok t \<and> later s t \<and> value_ok t e | Undef \<Rightarrow> True" by (cases "m s") simp_all
qed

lemma typed_Ret: "typed V m Q \<Longrightarrow> heap_ok s \<Longrightarrow> vals_ok s V \<Longrightarrow> m s = Ret a t \<Longrightarrow> heap_ok t \<and> later s t \<and> vals_ok t (Q a)"
  unfolding typed_def by (drule spec [of _ s]) simp

lemma typed_Throw: "typed V m Q \<Longrightarrow> heap_ok s \<Longrightarrow> vals_ok s V \<Longrightarrow> m s = Throw e t \<Longrightarrow> heap_ok t \<and> later s t \<and> value_ok t e"
  unfolding typed_def by (drule spec [of _ s]) simp

lemma typed_bnd:
  assumes "typed V m Q" "\<And>a. typed (V \<union> Q a) (f a) R"
  shows "typed V (bnd m f) R"
proof (rule typedI)
  fix s a t assume s: "heap_ok s" "vals_ok s V" and "bnd m f s = Ret a t"
  then obtain b u where u: "m s = Ret b u" "f b u = Ret a t" by (auto simp: bnd_def split: outcome.splits)
  note m = typed_Ret [OF assms(1) s u(1)]
  then have "vals_ok u (V \<union> Q b)" using s(2) later_vals by auto
  with typed_Ret [OF assms(2) _ this u(2)] m show "heap_ok t \<and> later s t \<and> vals_ok t (R a)" using later_trans by blast
next
  fix s e t assume s: "heap_ok s" "vals_ok s V" and thrown: "bnd m f s = Throw e t"
  show "heap_ok t \<and> later s t \<and> value_ok t e"
  proof (cases "m s")
    case (Ret b u)
    note m = typed_Ret [OF assms(1) s Ret]
    then have "vals_ok u (V \<union> Q b)" using s(2) later_vals by auto
    moreover have "f b u = Throw e t" using thrown Ret by (simp add: bnd_def)
    ultimately show ?thesis using typed_Throw [OF assms(2)] m later_trans by blast
  next
    case (Throw e' u)
    then show ?thesis using thrown typed_Throw [OF assms(1) s Throw] by (simp add: bnd_def)
  qed (use thrown in \<open>simp add: bnd_def\<close>)
qed

lemma typed_weaken:
  fixes m :: "('z lua_State_scheme, 'a) lua"
  assumes "typed W m P" "\<And>s :: 'z lua_State_scheme. vals_ok s V \<Longrightarrow> vals_ok s W"
    "\<And>(s :: 'z lua_State_scheme) a. vals_ok s (P a) \<Longrightarrow> vals_ok s V \<Longrightarrow> vals_ok s (Q a)"
  shows "typed V m Q"
  by (rule typedI) (use assms(2,3) typed_Ret [OF assms(1)] typed_Throw [OF assms(1)] later_vals in blast)+

lemma typed_andThen: "typed V m Q \<Longrightarrow> typed V n R \<Longrightarrow> typed V (andThen m n) R"
  unfolding andThen_def by (rule typed_bnd) (auto intro: typed_weaken)

lemma typed_ret: "(\<And>s :: 'z lua_State_scheme. vals_ok s V \<Longrightarrow> vals_ok s (Q a)) \<Longrightarrow> typed V (ret a :: ('z lua_State_scheme, 'a) lua) Q"
  and typed_throw: "(\<And>s :: 'z lua_State_scheme. vals_ok s V \<Longrightarrow> value_ok s e) \<Longrightarrow> typed V (throw e :: ('z lua_State_scheme, 'a) lua) Q"
  and typed_undef: "typed V (undef :: ('z lua_State_scheme, 'a) lua) Q"
  and typed_defined: "(\<And>(s :: 'z lua_State_scheme) a. x = Some a \<Longrightarrow> vals_ok s V \<Longrightarrow> vals_ok s (Q a)) \<Longrightarrow>
    typed V (defined x :: ('z lua_State_scheme, 'a) lua) Q"
  by (auto simp: typed_def prog_defs split: option.splits)

lemma typed_gets: "(\<And>s. heap_ok s \<Longrightarrow> vals_ok s V \<Longrightarrow> vals_ok s (Q (f s))) \<Longrightarrow> typed V (gets f) Q"
  by (auto simp: typed_def prog_defs)

lemma typed_modify: "(\<And>s. heap_ok s \<Longrightarrow> vals_ok s V \<Longrightarrow> heap_ok (g s) \<and> later s (g s)) \<Longrightarrow> typed V (modify g) (\<lambda>_. {})"
  by (auto simp: typed_def prog_defs)

lemma typed_read: "typed V (gets f) (\<lambda>_. {})"
  by (rule typed_gets) simp

lemma typed_if: "(b \<Longrightarrow> typed V m Q) \<Longrightarrow> (\<not> b \<Longrightarrow> typed V n Q) \<Longrightarrow> typed V (if b then m else n) Q"
  by simp

lemma typed_option:
  "(x = None \<Longrightarrow> typed V m Q) \<Longrightarrow> (\<And>a. x = Some a \<Longrightarrow> typed V (f a) Q) \<Longrightarrow> typed V (case x of None \<Rightarrow> m | Some a \<Rightarrow> f a) Q"
  by (cases x) auto

section \<open>Values of the machine\<close>

lemma value_ok_deref:
  assumes "heap_ok s" "index2adr i s = Some a"
  shows "value_ok s (deref a s)"
proof (cases "running s")
  case None
  then show ?thesis using assms heap_okD(1-3) [OF assms(1)]
    by (auto simp: deref_def index2adr_def vals_ok_def Let_def split: adr.splits if_splits option.splits simp del: value_ok.simps(1))
next
  case (Some cl)
  then have "vals_ok s (closure_values cl)"
    using heap_okD(7) [OF assms(1)] by (auto simp: running_def split: option.splits)
  with Some show ?thesis using assms(2) heap_okD(1-3) [OF assms(1)]
    by (auto simp: deref_def index2adr_def vals_ok_def closure_values_def running_def Let_def
        split: if_splits option.splits simp del: value_ok.simps(1))
qed

lemma luaH_get_ok: "vals_ok s (table_values h) \<Longrightarrow> value_ok s (luaH_get h k)"
  by (auto simp: luaH_get_def slot_def table_values_def split: option.split dest!: find_Some_in)
    (metis image_eqI snd_conv vals_okD)

lemma luaH_set_ok: "luaH_set h k = Inr h' \<Longrightarrow> vals_ok s (table_values h) \<Longrightarrow> value_ok s k \<Longrightarrow> vals_ok s (table_values h')"
  by (auto simp: luaH_set_def table_values_def split: if_splits)

lemma write_slot_ok: "vals_ok s (table_values h) \<Longrightarrow> value_ok s v \<Longrightarrow> vals_ok s (table_values (write_slot h k v))"
  by (auto simp: write_slot_def table_values_def vals_ok_def image_iff) force+

lemma next_entry_in: "next_entry es = Some e \<Longrightarrow> e \<in> set es"
  by (induction es) (auto split: if_splits)

lemma findindex_subset: "findindex h k = Some es \<Longrightarrow> set es \<subseteq> set (entries h)"
  by (auto simp: findindex_def split: if_splits list.splits) (metis list.set_intros(2) set_dropWhileD)

lemma luaH_next_ok:
  assumes "luaH_next h k = Inr (Some e)" "vals_ok s (table_values h)"
  shows "value_ok s (fst e)" "value_ok s (snd e)"
proof -
  obtain es where "findindex h k = Some es" "next_entry es = Some e"
    using assms(1) by (auto simp: luaH_next_def split: option.splits)
  then have "e \<in> set (entries h)" using findindex_subset next_entry_in by blast
  then show "value_ok s (fst e)" "value_ok s (snd e)" using assms(2) by (auto simp: table_values_def vals_ok_def)
qed

lemma getmt_ok: "heap_ok s \<Longrightarrow> vals_ok s (meta_values (getmt s v))"
  using heap_okD(4,6,8) [of s]
  by (simp add: getmt_def table_values_def udata_values_def split: TValue.split option.split)

lemma table_get_ok: "heap_ok s \<Longrightarrow> value_ok s (table_get s p k)"
  using heap_okD(6) [of s p] by (auto simp: table_get_def intro: luaH_get_ok split: option.split)

lemma gettm_ok: "heap_ok s \<Longrightarrow> value_ok s (luaT_gettmbyobj s v ev)"
  by (simp add: luaT_gettmbyobj_def Let_def table_get_ok)

lemma getcurrenv_ok: "heap_ok s \<Longrightarrow> value_ok s (TTable (getcurrenv s))"
  using heap_okD(3) [of s] heap_okD(7) [of s]
  by (auto simp: getcurrenv_def running_def closure_values_def split: option.splits simp del: value_ok.simps)

section \<open>Typing of the basic operations\<close>

lemma typed_adr: "typed V (adr_of i) (\<lambda>_. {})"
  unfolding adr_of_def by (rule typed_bnd [OF typed_read typed_defined]) simp

lemma typed_value_at: "typed V (value_at i) (\<lambda>v. {v})"
  by (auto simp: typed_def value_at_def adr_of_def prog_defs value_ok_deref split: option.split)

lemma typed_top_value: "typed V top_value (\<lambda>v. {v})"
  unfolding top_value_def by (rule typed_value_at)

lemma typed_adr_value:
  assumes "\<And>v. typed (V \<union> {v}) (f v) Q"
  shows "typed V (bnd (adr_of i) (\<lambda>a. if a = NilObject then undef else bnd (gets (deref a)) f)) Q"
proof (rule typedI)
  fix s a t assume s: "heap_ok s" "vals_ok s V"
    and r: "bnd (adr_of i) (\<lambda>a. if a = NilObject then undef else bnd (gets (deref a)) f) s = Ret a t"
  then obtain b where b: "index2adr i s = Some b" "f (deref b s) s = Ret a t"
    by (auto simp: adr_of_def prog_defs split: option.splits if_splits)
  have "vals_ok s (V \<union> {deref b s})" using s value_ok_deref [OF s(1) b(1)] by simp
  from typed_Ret [OF assms s(1) this b(2)] show "heap_ok t \<and> later s t \<and> vals_ok t (Q a)" .
next
  fix s e t assume s: "heap_ok s" "vals_ok s V"
    and r: "bnd (adr_of i) (\<lambda>a. if a = NilObject then undef else bnd (gets (deref a)) f) s = Throw e t"
  then obtain b where b: "index2adr i s = Some b" "f (deref b s) s = Throw e t"
    by (auto simp: adr_of_def prog_defs split: option.splits if_splits)
  have "vals_ok s (V \<union> {deref b s})" using s value_ok_deref [OF s(1) b(1)] by simp
  from typed_Throw [OF assms s(1) this b(2)] show "heap_ok t \<and> later s t \<and> value_ok t e" .
qed

lemma typed_stack:
  "(\<And>s. heap_ok s \<Longrightarrow> vals_ok s V \<Longrightarrow> vals_ok s (set (f s))) \<Longrightarrow> typed V (modify (\<lambda>s. s\<lparr>stack := f s\<rparr>)) (\<lambda>_. {})"
  by (rule typed_modify) (simp add: heap_ok_stack later_def)

lemma typed_push:
  fixes v :: TValue
  assumes "\<And>s :: 'z lua_State_scheme. vals_ok s V \<Longrightarrow> value_ok s v"
  shows "typed V (push v :: ('z lua_State_scheme, unit) lua) (\<lambda>_. {})"
  unfolding push_def by (rule typed_stack) (use assms heap_okD(1) in auto)

lemma stack_part_ok: "heap_ok s \<Longrightarrow> set x \<subseteq> set (stack s) \<Longrightarrow> vals_ok s (set x)"
  using heap_okD(1) vals_ok_subset by blast

lemma typed_drop_top: "typed V (drop_top n) (\<lambda>_. {})"
  unfolding drop_top_def by (rule typed_stack) (auto intro!: stack_part_ok dest: in_set_takeD)

lemma typed_put_table:
  assumes "\<And>s :: 'z lua_State_scheme. vals_ok s V \<Longrightarrow> vals_ok s (table_values h)"
  shows "typed V (put_table p h :: ('z lua_State_scheme, unit) lua) (\<lambda>_. {})"
  unfolding put_table_def by (rule typed_modify) (use assms put_table_ok in blast)

lemma typed_table: "typed V (gets (\<lambda>s. tables s p)) (\<lambda>x. case x of None \<Rightarrow> {} | Some h \<Rightarrow> table_values h)"
  by (rule typed_gets) (auto split: option.split dest: heap_okD(6))

lemma typed_table_at: "typed V (table_at i) (\<lambda>(p, h). table_values h)"
  unfolding table_at_def
  by (rule typed_bnd [OF typed_value_at])
    (auto split: TValue.split intro!: typed_undef typed_bnd [OF typed_table] typed_bnd [OF typed_defined, of _ _ table_values] typed_ret)

section \<open>Calls and metamethods\<close>

lemma typed_value_case:
  assumes "v = TNil \<Longrightarrow> typed V c0 Q" "\<And>b. v = TBoolean b \<Longrightarrow> typed V (c1 b) Q" "\<And>p. v = TLightUserData p \<Longrightarrow> typed V (c2 p) Q"
    "\<And>n. v = TNumber n \<Longrightarrow> typed V (c3 n) Q" "\<And>x. v = TString x \<Longrightarrow> typed V (c4 x) Q" "\<And>p. v = TTable p \<Longrightarrow> typed V (c5 p) Q"
    "\<And>p. v = TFunction p \<Longrightarrow> typed V (c6 p) Q" "\<And>p. v = TUserData p \<Longrightarrow> typed V (c7 p) Q" "\<And>p. v = TThread p \<Longrightarrow> typed V (c8 p) Q"
  shows "typed V (case v of TNil \<Rightarrow> c0 | TBoolean b \<Rightarrow> c1 b | TLightUserData p \<Rightarrow> c2 p | TNumber n \<Rightarrow> c3 n | TString x \<Rightarrow> c4 x
    | TTable p \<Rightarrow> c5 p | TFunction p \<Rightarrow> c6 p | TUserData p \<Rightarrow> c7 p | TThread p \<Rightarrow> c8 p) Q"
  using assms by (cases v) simp_all

text \<open>The contract of functions: a call on a well-formed frame keeps the heap well formed, and what it returns or throws
  refers to objects.\<close>

definition run_typed :: "(ptr \<Rightarrow> ('z lua_State_scheme, TValue list) lua) \<Rightarrow> bool" where
  "run_typed run \<longleftrightarrow> (\<forall>p s. heap_ok s \<and> curr_func s = Some p \<longrightarrow> (case run p s of
     Ret rs t \<Rightarrow> heap_ok t \<and> later s t \<and> vals_ok t (set rs)
   | Throw e t \<Rightarrow> heap_ok t \<and> later s t \<and> value_ok t e
   | Undef \<Rightarrow> True))"

lemma typed_call_frame:
  fixes run :: "ptr \<Rightarrow> ('z lua_State_scheme, TValue list) lua"
  assumes run: "run_typed run" and ok: "\<And>s :: 'z lua_State_scheme. vals_ok s V \<Longrightarrow> value_ok s (TFunction p) \<and> vals_ok s (set args)"
  shows "typed V (call_frame run p args) set"
  unfolding typed_def
proof (intro allI impI, elim conjE)
  fix s :: "'z lua_State_scheme"
  assume s: "heap_ok s" "vals_ok s V"
  let ?s = "s\<lparr>stack := args, curr_func := Some p\<rparr>"
  have "heap_ok ?s" by (rule heap_ok_frame [OF s(1)]) (use ok [OF s(2)] in auto)
  then have r: "case run p ?s of Ret rs t \<Rightarrow> heap_ok t \<and> later ?s t \<and> vals_ok t (set rs)
      | Throw e t \<Rightarrow> heap_ok t \<and> later ?s t \<and> value_ok t e | Undef \<Rightarrow> True"
    using run by (simp add: run_typed_def)
  have restored: "heap_ok (t\<lparr>stack := stack s, curr_func := curr_func s\<rparr>) \<and> later s (t\<lparr>stack := stack s, curr_func := curr_func s\<rparr>)"
    if "heap_ok t" "later ?s t" for t
  proof -
    have "later s t" using that(2) by (simp add: later_def)
    then have "heap_ok (t\<lparr>stack := stack s, curr_func := curr_func s\<rparr>)"
      using heap_ok_frame [OF that(1)] later_vals heap_okD(1,5) [OF s(1)] later_value by blast
    with \<open>later s t\<close> show ?thesis by (simp add: later_def)
  qed
  show "case call_frame run p args s of Ret a t \<Rightarrow> heap_ok t \<and> later s t \<and> vals_ok t (set a)
      | Throw e t \<Rightarrow> heap_ok t \<and> later s t \<and> value_ok t e | Undef \<Rightarrow> True"
    using r restored by (cases "run p ?s") (simp_all add: call_frame_def)
qed

lemma typed_gettm: "typed V (gets (\<lambda>s. luaT_gettmbyobj s v ev)) (\<lambda>tm. {tm})"
  by (rule typed_gets) (simp add: gettm_ok)

lemma typed_call_value:
  fixes run :: "ptr \<Rightarrow> ('z lua_State_scheme, TValue list) lua"
  assumes run: "run_typed run" and ok: "\<And>s :: 'z lua_State_scheme. vals_ok s V \<Longrightarrow> value_ok s f \<and> vals_ok s (set args)"
  shows "typed V (call_value run f args) set"
proof -
  let ?tm = "bnd (gets (\<lambda>s. luaT_gettmbyobj s f ''__call'')) (\<lambda>tm. case tm of
      TFunction p \<Rightarrow> call_frame run p (f # args)
    | _ \<Rightarrow> lua_raise (''attempt to call a '' @ luaT_typenames (ttype f) @ '' value''))"
  have tm: "typed V ?tm set"
    by (rule typed_bnd [OF typed_gettm]) (auto intro!: typed_value_case typed_call_frame [OF run] typed_throw dest: ok)
  show ?thesis
  proof (cases "\<exists>p. f = TFunction p")
    case True
    then obtain p where p: "f = TFunction p" by blast
    have "typed V (call_frame run p args) set" by (rule typed_call_frame [OF run]) (use ok p in auto)
    then show ?thesis by (simp add: p call_value_def)
  next
    case False
    then have "call_value run f args = ?tm" by (cases f) (simp_all add: call_value_def)
    with tm show ?thesis by simp
  qed
qed

lemma adjust_ok: "vals_ok s (set rs) \<Longrightarrow> vals_ok s (set (adjust_results n rs))"
  by (auto simp: adjust_results_def vals_ok_def dest: in_set_takeD)

lemma take_ok: "vals_ok s (set xs) \<Longrightarrow> vals_ok s (set (take k xs))"
  by (auto simp: vals_ok_def dest: in_set_takeD)

lemma adjust_hd_ok: "vals_ok s (set rs) \<Longrightarrow> value_ok s (hd (adjust_results 1 rs))"
  by (cases rs) (auto simp: adjust_results_def)

lemma typed_lua_call: "run_typed run \<Longrightarrow> typed V (lua_call run n r) (\<lambda>_. {})"
  unfolding lua_call_def
proof (rule typed_bnd [of _ _ set])
  show "typed V (gets stack) set" by (rule typed_gets) (rule heap_okD)
  fix st :: "TValue list"
  assume run: "run_typed run"
  let ?k = "length st - (n + 1)"
  have "typed (V \<union> set st) (bnd (call_value run (st ! ?k) (drop (?k + 1) st))
      (\<lambda>rs. modify (\<lambda>s. s\<lparr>stack := take ?k st @ adjust_results r rs\<rparr>))) (\<lambda>_. {})" if "n + 1 \<le> length st"
  proof (rule typed_bnd [of _ _ set])
    show "typed (V \<union> set st) (call_value run (st ! ?k) (drop (?k + 1) st)) set"
      by (rule typed_call_value [OF run]) (use that in \<open>auto simp: vals_ok_def dest: in_set_dropD\<close>)
    show "typed (V \<union> set st \<union> set rs) (modify (\<lambda>s. s\<lparr>stack := take ?k st @ adjust_results r rs\<rparr>)) (\<lambda>_. {})" for rs
      by (rule typed_stack) (auto intro: adjust_ok take_ok)
  qed
  then show "typed (V \<union> set st) (if n + 1 > length st then undef else (let k = ?k in
      bnd (call_value run (st ! k) (drop (k + 1) st)) (\<lambda>rs. modify (\<lambda>s. s\<lparr>stack := take k st @ adjust_results r rs\<rparr>)))) (\<lambda>_. {})"
    by (simp add: typed_undef Let_def)
qed

lemma typed_lua_pcall:
  assumes "run_typed run"
  shows "typed V (lua_pcall run n r) (\<lambda>_. {})"
proof (rule typedI)
  fix s a t assume s: "heap_ok s" "vals_ok s V" and r: "lua_pcall run n r s = Ret a t"
  note call = typed_lua_call [OF assms, of V n r]
  show "heap_ok t \<and> later s t \<and> vals_ok t {}"
  proof (cases "lua_call run n r s")
    case (Ret b u)
    then show ?thesis using typed_Ret [OF call s Ret] r by (auto simp: lua_pcall_def Let_def)
  next
    case (Throw e u)
    note u = typed_Throw [OF call s Throw]
    let ?st = "take (length (stack s) - (n + 1)) (stack s) @ [e]"
    have "vals_ok u (set ?st)"
      using u later_vals [OF _ heap_okD(1) [OF s(1)], of u] by (auto simp: vals_ok_def dest: in_set_takeD)
    then have "heap_ok (u\<lparr>stack := ?st, curr_func := curr_func s\<rparr>)"
      using heap_ok_frame [of u ?st] u later_value heap_okD(5) [OF s(1)] by blast
    moreover have "t = u\<lparr>stack := ?st, curr_func := curr_func s\<rparr>" using r Throw by (simp add: lua_pcall_def Let_def)
    ultimately show ?thesis using u by (simp add: later_def)
  qed (use r in \<open>simp add: lua_pcall_def Let_def\<close>)
qed (auto simp: lua_pcall_def Let_def split: outcome.splits)

lemma typed_gettable_loop:
  fixes run :: "ptr \<Rightarrow> ('z lua_State_scheme, TValue list) lua"
  assumes run: "run_typed run"
  shows "typed {t, key} (gettable_loop run n t key) (\<lambda>v. {v})"
proof (induction n arbitrary: t)
  case 0
  show ?case unfolding gettable_loop.simps settable_loop.simps by (rule typed_throw) simp
next
  case (Suc n)
  have chase: "typed ({t, key} \<union> {tm} \<union> {r}) (gettable_loop run n tm key) (\<lambda>v. {v})" for tm r
    by (rule typed_weaken [OF Suc.IH]) auto
  have call: "typed ({t, key} \<union> {TFunction p} \<union> {r}) (bnd (call_frame run p [t, key]) (\<lambda>rs. ret (hd (adjust_results 1 rs)))) (\<lambda>v. {v})" for p r
    by (rule typed_bnd [OF typed_call_frame [OF run]]) (auto intro!: typed_ret adjust_hd_ok)
  have get: "typed V (gets (\<lambda>s. case t of TTable p \<Rightarrow> table_get s p key | _ \<Rightarrow> TNil)) (\<lambda>v. {v})" for V
    by (rule typed_gets) (simp add: table_get_ok split: TValue.split)
  show ?case
    unfolding gettable_loop.simps
  proof (rule typed_bnd [OF typed_gettm], rule typed_bnd [OF get], goal_cases)
    case (1 tm r)
    show ?case
      by (intro typed_if typed_ret, simp) (use call chase in \<open>auto intro!: typed_value_case intro: typed_ret typed_throw\<close>)
  qed
qed

lemma typed_luaV_gettable:
  fixes run :: "ptr \<Rightarrow> ('z lua_State_scheme, TValue list) lua"
  assumes "run_typed run" "\<And>s :: 'z lua_State_scheme. vals_ok s V \<Longrightarrow> value_ok s t \<and> value_ok s key"
  shows "typed V (luaV_gettable run t key) (\<lambda>v. {v})"
  unfolding luaV_gettable_def by (rule typed_weaken [OF typed_gettable_loop [OF assms(1)]]) (use assms(2) in auto)

lemma typed_settable_loop:
  fixes run :: "ptr \<Rightarrow> ('z lua_State_scheme, TValue list) lua"
  assumes run: "run_typed run"
  shows "typed {t, key, v} (settable_loop run n t key v) (\<lambda>_. {})"
proof (induction n arbitrary: t)
  case 0
  show ?case unfolding gettable_loop.simps settable_loop.simps by (rule typed_throw) simp
next
  case (Suc n)
  define chase where "chase tm = (case tm of
      TFunction p \<Rightarrow> bnd (call_frame run p [t, key, v]) (\<lambda>_. ret ())
    | _ \<Rightarrow> settable_loop run n tm key v)" for tm
  have chase: "typed W (chase tm) (\<lambda>_. {})" if "\<And>s :: 'z lua_State_scheme. vals_ok s W \<Longrightarrow> vals_ok s {t, key, v, tm}" for tm W
  proof -
    have "typed W (settable_loop run n tm key v) (\<lambda>_. {})"
      by (rule typed_weaken [OF Suc.IH]) (use that in auto)
    moreover have "typed W (bnd (call_frame run p [t, key, v]) (\<lambda>_. ret ())) (\<lambda>_. {})" if "tm = TFunction p" for p
      by (rule typed_bnd [OF typed_call_frame [OF run]]) (use that \<open>\<And>s. vals_ok s W \<Longrightarrow> vals_ok s {t, key, v, tm}\<close> in \<open>auto intro: typed_ret\<close>)
    ultimately show ?thesis unfolding chase_def by (intro typed_value_case) simp_all
  qed
  have tbl: "typed ({t, key, v} \<union> {tm}) (bnd (gets (\<lambda>s. tables s p)) (\<lambda>oh. bnd (defined oh) (\<lambda>h.
         case luaH_set h key of
           Inl msg \<Rightarrow> lua_raise msg
         | Inr h' \<Rightarrow> (if luaH_get h' key \<noteq> TNil \<or> tm = TNil then put_table p (write_slot h' key v)
                     else andThen (put_table p h') (chase tm))))) (\<lambda>_. {})" for p tm
    by (rule typed_bnd [OF typed_table], rule typed_bnd [OF typed_defined, of _ _ table_values])
      (auto split: sum.split intro!: typed_throw typed_put_table typed_andThen [OF typed_put_table] chase
        intro: luaH_set_ok write_slot_ok [OF luaH_set_ok])
  show ?case
    unfolding settable_loop.simps Let_def chase_def [symmetric]
    by (rule typed_bnd [OF typed_gettm], rule typed_value_case; (rule tbl | (intro typed_if typed_throw chase; simp)))
qed

lemma typed_luaV_settable:
  fixes run :: "ptr \<Rightarrow> ('z lua_State_scheme, TValue list) lua"
  assumes "run_typed run" "\<And>s :: 'z lua_State_scheme. vals_ok s V \<Longrightarrow> value_ok s t \<and> value_ok s key \<and> value_ok s v"
  shows "typed V (luaV_settable run t key v) (\<lambda>_. {})"
  unfolding luaV_settable_def by (rule typed_weaken [OF typed_settable_loop [OF assms(1)]]) (use assms(2) in auto)

section \<open>Typing of the API\<close>

lemma typed_settop: "typed V (lua_settop i) (\<lambda>_. {})"
proof -
  have "typed V (modify (\<lambda>s. s\<lparr>stack := take n (stack s) @ replicate (n - length (stack s)) TNil\<rparr>)) (\<lambda>_. {})" for n
    by (rule typed_stack) (auto intro!: take_ok dest: heap_okD(1) simp: vals_ok_def [of _ "set (replicate _ _)"])
  then show ?thesis
    unfolding lua_settop_def lua_gettop_def by (intro typed_if typed_bnd [OF typed_read] typed_drop_top typed_undef)
qed

lemma typed_remove: "typed V (lua_remove i) (\<lambda>_. {})"
proof -
  have "typed V (modify (\<lambda>s. s\<lparr>stack := take n (stack s) @ drop (Suc n) (stack s)\<rparr>)) (\<lambda>_. {})" for n
    by (rule typed_stack) (auto intro!: stack_part_ok dest: in_set_takeD in_set_dropD)
  then show ?thesis
    unfolding lua_remove_def by (intro typed_bnd [OF typed_adr]) (auto split: adr.split intro!: typed_undef)
qed

lemma typed_insert: "typed V (lua_insert i) (\<lambda>_. {})"
proof (rule typedI)
  fix s a t assume s: "heap_ok s" "vals_ok s V" and r: "lua_insert i s = Ret a t"
  then obtain n where n: "index2adr i s = Some (Slot n)"
    and t: "t = s\<lparr>stack := take n (stack s) @ last (stack s) # drop n (butlast (stack s))\<rparr>"
    by (auto simp: lua_insert_def adr_of_def prog_defs split: option.splits adr.splits)
  have "stack s \<noteq> []" using n by (auto simp: index2adr_def Let_def split: if_splits option.splits)
  then have "set (take n (stack s) @ last (stack s) # drop n (butlast (stack s))) \<subseteq> set (stack s)"
    by (auto dest: in_set_takeD in_set_dropD in_set_butlastD)
  from stack_part_ok [OF s(1) this] show "heap_ok t \<and> later s t \<and> vals_ok t {}"
    unfolding t using heap_ok_stack [OF s(1)] by (simp add: later_def)
qed (auto simp: lua_insert_def adr_of_def prog_defs split: option.splits adr.splits)

lemma typed_fields:
  fixes V :: "TValue set"
  assumes "\<And>s :: 'z lua_State_scheme. vals_ok s V \<Longrightarrow> value_ok s (TTable e)"
  shows "typed V (modify (\<lambda>s. s\<lparr>registry := e\<rparr>) :: ('z lua_State_scheme, unit) lua) (\<lambda>_. {})"
    "typed V (modify (\<lambda>s. s\<lparr>globals := e\<rparr>) :: ('z lua_State_scheme, unit) lua) (\<lambda>_. {})"
  by (rule typed_modify, use assms in \<open>auto simp: heap_ok_def later_def simp del: value_ok.simps(1)\<close>)+

lemma typed_closure_update:
  assumes "\<And>(s :: 'z lua_State_scheme) cl. vals_ok s V \<Longrightarrow> vals_ok s (closure_values cl) \<Longrightarrow> vals_ok s (closure_values (g cl))"
  shows "typed V (modify (\<lambda>s. s\<lparr>closures := (closures s)(p := map_option g (closures s p))\<rparr>) :: ('z lua_State_scheme, unit) lua) (\<lambda>_. {})"
proof (rule typed_modify)
  fix s :: "'z lua_State_scheme"
  assume s: "heap_ok s" "vals_ok s V"
  show "heap_ok (s\<lparr>closures := (closures s)(p := map_option g (closures s p))\<rparr>) \<and>
      later s (s\<lparr>closures := (closures s)(p := map_option g (closures s p))\<rparr>)"
  proof (cases "closures s p")
    case None
    then have "(closures s)(p := map_option g (closures s p)) = closures s" by auto
    then show ?thesis using s by simp
  next
    case (Some cl)
    then show ?thesis using put_closure_ok [OF s(1) assms [OF s(2) heap_okD(7) [OF s(1) Some]], of p] by simp
  qed
qed

lemma typed_udata_update:
  assumes "\<And>(s :: 'z lua_State_scheme) u. vals_ok s V \<Longrightarrow> vals_ok s (udata_values u) \<Longrightarrow> vals_ok s (udata_values (g u))"
  shows "typed V (modify (\<lambda>s. s\<lparr>udatas := (udatas s)(p := map_option g (udatas s p))\<rparr>) :: ('z lua_State_scheme, unit) lua) (\<lambda>_. {})"
proof (rule typed_modify)
  fix s :: "'z lua_State_scheme"
  assume s: "heap_ok s" "vals_ok s V"
  show "heap_ok (s\<lparr>udatas := (udatas s)(p := map_option g (udatas s p))\<rparr>) \<and>
      later s (s\<lparr>udatas := (udatas s)(p := map_option g (udatas s p))\<rparr>)"
  proof (cases "udatas s p")
    case None
    then have "(udatas s)(p := map_option g (udatas s p)) = udatas s" by auto
    then show ?thesis using s by simp
  next
    case (Some u)
    then show ?thesis using put_udata_ok [OF s(1) assms [OF s(2) heap_okD(8) [OF s(1) Some]], of p] by simp
  qed
qed

lemma typed_table_update:
  assumes "\<And>(s :: 'z lua_State_scheme) h. vals_ok s V \<Longrightarrow> vals_ok s (table_values h) \<Longrightarrow> vals_ok s (table_values (g h))"
  shows "typed V (modify (\<lambda>s. s\<lparr>tables := (tables s)(p := map_option g (tables s p))\<rparr>) :: ('z lua_State_scheme, unit) lua) (\<lambda>_. {})"
proof (rule typed_modify)
  fix s :: "'z lua_State_scheme"
  assume s: "heap_ok s" "vals_ok s V"
  show "heap_ok (s\<lparr>tables := (tables s)(p := map_option g (tables s p))\<rparr>) \<and>
      later s (s\<lparr>tables := (tables s)(p := map_option g (tables s p))\<rparr>)"
  proof (cases "tables s p")
    case None
    then have "(tables s)(p := map_option g (tables s p)) = tables s" by auto
    then show ?thesis using s by simp
  next
    case (Some h)
    then show ?thesis using put_table_ok [OF s(1) assms [OF s(2) heap_okD(6) [OF s(1) Some]], of p] by simp
  qed
qed

lemma closure_at_current:
  "(\<lambda>q. if Some q = curr_func s then map_option g (closures s q) else closures s q) =
   (case curr_func s of None \<Rightarrow> closures s | Some p \<Rightarrow> (closures s)(p := map_option g (closures s p)))"
  by (auto split: option.split)

lemma typed_current:
  fixes V :: "TValue set"
  assumes "\<And>(s :: 'z lua_State_scheme) cl. vals_ok s V \<Longrightarrow> vals_ok s (closure_values cl) \<Longrightarrow> vals_ok s (closure_values (g cl))"
  shows "typed V (modify (\<lambda>s. s\<lparr>closures := (\<lambda>q. if Some q = curr_func s then map_option g (closures s q) else closures s q)\<rparr>)
    :: ('z lua_State_scheme, unit) lua) (\<lambda>_. {})"
proof (rule typed_modify)
  fix s :: "'z lua_State_scheme"
  assume s: "heap_ok s" "vals_ok s V"
  from typed_Ret [OF typed_closure_update [OF assms] s] have
    "heap_ok (s\<lparr>closures := (closures s)(p := map_option g (closures s p))\<rparr>) \<and>
      later s (s\<lparr>closures := (closures s)(p := map_option g (closures s p))\<rparr>)" for p by (simp add: modify_def)
  then show "heap_ok (s\<lparr>closures := (\<lambda>q. if Some q = curr_func s then map_option g (closures s q) else closures s q)\<rparr>) \<and>
      later s (s\<lparr>closures := (\<lambda>q. if Some q = curr_func s then map_option g (closures s q) else closures s q)\<rparr>)"
    unfolding closure_at_current using s(1) by (simp split: option.split)
qed

lemma typed_store:
  assumes "\<And>s :: 'z lua_State_scheme. vals_ok s V \<Longrightarrow> value_ok s v"
  shows "typed V (store a v :: ('z lua_State_scheme, unit) lua) (\<lambda>_. {})"
proof -
  have slot: "typed V (modify (\<lambda>s. s\<lparr>stack := (stack s)[i := v]\<rparr>) :: ('z lua_State_scheme, unit) lua) (\<lambda>_. {})" for i
    by (rule typed_stack) (use assms heap_okD(1) set_update_subset_insert in \<open>fastforce simp: vals_ok_def\<close>)
  have upvalue: "typed V (modify (\<lambda>s. s\<lparr>closures := (\<lambda>q. if Some q = curr_func s
      then map_option (\<lambda>cl. cl\<lparr>upvalues := (upvalues cl)[i := v]\<rparr>) (closures s q) else closures s q)\<rparr>)
      :: ('z lua_State_scheme, unit) lua) (\<lambda>_. {})" for i
    by (rule typed_current) (use assms set_update_subset_insert in \<open>fastforce simp: vals_ok_def closure_values_def\<close>)
  have env: "typed V (modify (\<lambda>s. s\<lparr>closures := (\<lambda>q. if Some q = curr_func s
      then map_option (\<lambda>cl. cl\<lparr>cenv := e\<rparr>) (closures s q) else closures s q)\<rparr>)
      :: ('z lua_State_scheme, unit) lua) (\<lambda>_. {})" if "v = TTable e" for e
    by (rule typed_current) (use assms that in \<open>auto simp: closure_values_def\<close>)
  have fields: "typed V (modify (\<lambda>s. s\<lparr>registry := e\<rparr>) :: ('z lua_State_scheme, unit) lua) (\<lambda>_. {})"
    "typed V (modify (\<lambda>s. s\<lparr>globals := e\<rparr>) :: ('z lua_State_scheme, unit) lua) (\<lambda>_. {})" if "v = TTable e" for e
    by (rule typed_fields, use assms that in auto)+
  show ?thesis
    unfolding store_def
    by (cases a; cases v) (use slot upvalue env fields in \<open>auto intro: typed_undef\<close>)
qed

lemma heap_ok_counters [simp]:
  "heap_ok (s\<lparr>next_obj := n\<rparr>) = heap_ok s" "heap_ok (s\<lparr>next_udata := n\<rparr>) = heap_ok s"
  "later s (t\<lparr>next_obj := n\<rparr>) = later s t" "later s (t\<lparr>next_udata := n\<rparr>) = later s t" "later s (t\<lparr>stack := x\<rparr>) = later s t"
  by (simp_all add: heap_ok_def later_def del: value_ok.simps)

lemma new_closure_ok:
  assumes s: "heap_ok s"
    and "t = s\<lparr>stack := take k (stack s) @ [TFunction p],
      closures := (closures s)(p \<mapsto> \<lparr>isC = True, cfun = fn, cenv = getcurrenv s, upvalues = drop k (stack s)\<rparr>), next_obj := n\<rparr>"
  shows "heap_ok t" "later s t"
proof -
  let ?cl = "\<lparr>isC = True, cfun = fn, cenv = getcurrenv s, upvalues = drop k (stack s)\<rparr>"
  have "vals_ok s (closure_values ?cl)"
    using getcurrenv_ok [OF s] stack_part_ok [OF s set_drop_subset] by (simp add: closure_values_def del: value_ok.simps)
  note put = put_closure_ok [OF s this, of p]
  let ?u = "s\<lparr>closures := (closures s)(p \<mapsto> ?cl)\<rparr>" and ?x = "take k (stack s) @ [TFunction p]"
  have "vals_ok ?u (set ?x)" using later_vals [OF put(2) stack_part_ok [OF s set_take_subset]] by simp
  note stk = heap_ok_stack [OF put(1) this]
  have t: "t = ?u\<lparr>stack := ?x\<rparr>\<lparr>next_obj := n\<rparr>" unfolding assms(2) by (rule lua_State.equality) simp_all
  show "heap_ok t" unfolding t using stk by simp
  show "later s t" unfolding t using put(2) by simp
qed

lemma typed_pushcclosure: "typed V (lua_pushcclosure fn n) (\<lambda>_. {})"
  unfolding lua_pushcclosure_def lua_gettop_def Let_def
  by (intro typed_bnd [OF typed_read] typed_if typed_undef typed_modify conjI new_closure_ok [OF _ refl])

lemma typed_createtable: "typed V lua_createtable (\<lambda>_. {})"
  unfolding lua_createtable_def Let_def
proof (rule typed_modify)
  fix s :: "'z lua_State_scheme"
  assume s: "heap_ok s"
  let ?p = "next_obj s"
  let ?u = "s\<lparr>tables := (tables s)(?p \<mapsto> new_table)\<rparr>" and ?x = "stack s @ [TTable ?p]"
  let ?t = "s\<lparr>stack := ?x, tables := (tables s)(?p \<mapsto> new_table), next_obj := ?p + 1\<rparr>"
  have "vals_ok s (table_values new_table)" by (simp add: new_table_def table_values_def)
  note put = put_table_ok [OF s this, of ?p]
  have "vals_ok ?u (set ?x)" using later_vals [OF put(2) heap_okD(1) [OF s]] by simp
  note stk = heap_ok_stack [OF put(1) this]
  have t: "?t = ?u\<lparr>stack := ?x\<rparr>\<lparr>next_obj := ?p + 1\<rparr>" by (rule lua_State.equality) simp_all
  show "heap_ok ?t \<and> later s ?t" unfolding t using stk put(2) by simp
qed

lemma typed_newuserdata: "typed V (lua_newuserdata sz) (\<lambda>_. {})"
proof (rule typedI)
  fix s :: "'z lua_State_scheme" and a t
  assume s: "heap_ok s" and r: "lua_newuserdata sz s = Ret a t"
  let ?p = "uaddr s (next_udata s)" and ?v = "\<lparr>ulen = sz, umetatable = 0, uenv = getcurrenv s, ublock = None\<rparr>"
  let ?u = "s\<lparr>udatas := (udatas s)(?p \<mapsto> ?v)\<rparr>" and ?x = "stack s @ [TUserData ?p]"
  have "vals_ok s (udata_values ?v)" using getcurrenv_ok [OF s] by (simp add: udata_values_def)
  note put = put_udata_ok [OF s this, of ?p]
  have "vals_ok ?u (set ?x)" using later_vals [OF put(2) heap_okD(1) [OF s]] by simp
  note stk = heap_ok_stack [OF put(1) this]
  have t: "t = ?u\<lparr>stack := ?x\<rparr>\<lparr>next_udata := next_udata s + 1\<rparr>"
    using r by (auto simp: lua_newuserdata_def Let_def intro!: lua_State.equality)
  show "heap_ok t \<and> later s t \<and> vals_ok t {}" unfolding t using stk put(2) by simp
qed (simp add: lua_newuserdata_def Let_def)

lemma typed_pop: "typed V (lua_pop n) (\<lambda>_. {})"
  unfolding lua_pop_def by (rule typed_settop)

lemma typed_replace: "typed V (lua_replace i) (\<lambda>_. {})"
  unfolding lua_replace_def
  by (intro typed_bnd [OF typed_read] typed_if typed_throw typed_bnd [OF typed_adr] typed_bnd [OF typed_top_value]
      typed_andThen [OF typed_store] typed_drop_top) simp_all

lemma typed_pushvalue: "typed V (lua_pushvalue i) (\<lambda>_. {})"
  unfolding lua_pushvalue_def by (intro typed_bnd [OF typed_value_at] typed_push) simp

lemma typed_lua_type: "typed V (lua_type i) (\<lambda>_. {})"
  unfolding lua_type_def by (intro typed_bnd [OF typed_adr] typed_if typed_ret typed_read) simp

lemma typed_lua_rawequal: "typed V (lua_rawequal i j) (\<lambda>_. {})"
  unfolding lua_rawequal_def by (intro typed_bnd [OF typed_adr] typed_if typed_ret typed_read) simp

lemma typed_answers:
  "typed V (lua_gettop) (\<lambda>_. {})" "typed V (lua_isnumber i) (\<lambda>_. {})" "typed V (lua_isstring i) (\<lambda>_. {})"
  "typed V (lua_isuserdata i) (\<lambda>_. {})" "typed V (lua_tonumber i) (\<lambda>_. {})" "typed V (lua_toboolean i) (\<lambda>_. {})"
  "typed V (lua_touserdata i) (\<lambda>_. {})" "typed V (lua_tothread i) (\<lambda>_. {})" "typed V (lua_topointer i) (\<lambda>_. {})"
  unfolding lua_gettop_def lua_isnumber_def lua_isstring_def lua_isuserdata_def lua_tonumber_def lua_toboolean_def lua_touserdata_def
    lua_tothread_def lua_topointer_def
  by (rule typed_read typed_bnd [OF typed_value_at] typed_bnd [OF typed_lua_type]; (rule typed_ret)?; simp)+

lemma typed_tointeger: "typed V (lua_tointeger i) (\<lambda>_. {})"
  unfolding lua_tointeger_def by (intro typed_bnd [OF typed_value_at] typed_option typed_ret typed_defined) simp_all

lemma typed_function_answers: "typed V (lua_iscfunction i) (\<lambda>_. {})" "typed V (lua_tocfunction i) (\<lambda>_. {})"
  unfolding lua_iscfunction_def lua_tocfunction_def
  by (rule typed_bnd [OF typed_value_at], rule typed_value_case; (rule typed_read | (rule typed_ret, simp)))+

lemma typed_tolstring: "typed V (lua_tolstring i) (\<lambda>_. {})"
  unfolding lua_tolstring_def
  by (intro typed_bnd [OF typed_adr] typed_bnd [OF typed_read] typed_value_case typed_option typed_ret
      typed_andThen [OF typed_store]) simp_all

lemma typed_objlen: "typed V (lua_objlen i) (\<lambda>_. {})"
  unfolding lua_objlen_def
  by (intro typed_bnd [OF typed_adr] typed_bnd [OF typed_read] typed_value_case typed_option typed_ret typed_read
      typed_andThen [OF typed_store]) simp_all

lemma typed_pushes:
  "typed V lua_pushnil (\<lambda>_. {})" "typed V (lua_pushnumber d) (\<lambda>_. {})" "typed V (lua_pushinteger k) (\<lambda>_. {})"
  "typed V (lua_pushlstring x) (\<lambda>_. {})" "typed V (lua_pushboolean b) (\<lambda>_. {})" "typed V (lua_pushlightuserdata p) (\<lambda>_. {})"
  unfolding lua_pushnil_def lua_pushnumber_def lua_pushinteger_def lua_pushlstring_def lua_pushboolean_def lua_pushlightuserdata_def
  by (rule typed_push; simp)+

lemma typed_pushstring: "typed V (lua_pushstring x) (\<lambda>_. {})"
  unfolding lua_pushstring_def by (intro typed_option typed_pushes)

lemma typed_lua_error: "typed V lua_error Q"
  unfolding lua_error_def by (intro typed_bnd [OF typed_top_value] typed_throw) simp

lemma typed_gets_table:
  assumes "run_typed run"
  shows "typed V (lua_gettable run i) (\<lambda>_. {})" "typed V (lua_getfield run i k) (\<lambda>_. {})"
  unfolding lua_gettable_def lua_getfield_def
  by (intro typed_bnd [OF typed_value_at] typed_bnd [OF typed_top_value] typed_bnd [OF typed_luaV_gettable [OF assms]]
      typed_andThen [OF typed_drop_top] typed_push; simp)+

lemma typed_sets_table:
  assumes "run_typed run"
  shows "typed V (lua_settable run i) (\<lambda>_. {})" "typed V (lua_setfield run i k) (\<lambda>_. {})"
  unfolding lua_settable_def lua_setfield_def
  by (intro typed_bnd [OF typed_value_at] typed_bnd [OF typed_top_value] typed_andThen [OF typed_luaV_settable [OF assms]]
      typed_drop_top; simp)+

lemma typed_rawgets: "typed V (lua_rawget i) (\<lambda>_. {})" "typed V (lua_rawgeti i n) (\<lambda>_. {})"
  unfolding lua_rawget_def lua_rawgeti_def
  by (intro typed_bnd [OF typed_table_at] typed_bnd [OF typed_top_value] typed_andThen [OF typed_drop_top] typed_push;
      auto intro: luaH_get_ok)+

lemma typed_raw_store:
  assumes "\<And>s :: 'z lua_State_scheme. vals_ok s V \<Longrightarrow> vals_ok s (table_values h) \<and> value_ok s k \<and> value_ok s v"
  shows "typed V (raw_store p h k v :: ('z lua_State_scheme, unit) lua) (\<lambda>_. {})"
  unfolding raw_store_def
  by (cases "luaH_set h k") (auto intro!: typed_throw typed_put_table write_slot_ok [OF luaH_set_ok] dest: assms)

lemma typed_rawsets: "typed V (lua_rawset i) (\<lambda>_. {})" "typed V (lua_rawseti i n) (\<lambda>_. {})"
  unfolding lua_rawset_def lua_rawseti_def
  by (rule typed_bnd [OF typed_table_at]; clarify;
      intro typed_bnd [OF typed_value_at] typed_bnd [OF typed_top_value] typed_andThen [OF typed_raw_store] typed_drop_top; simp)+

lemma typed_getmetatable: "typed V (lua_getmetatable i) (\<lambda>_. {})"
proof -
  have mt: "typed W (gets (\<lambda>s. getmt s v)) meta_values" for W v by (rule typed_gets) (rule getmt_ok)
  show ?thesis
    unfolding lua_getmetatable_def
    by (intro typed_bnd [OF typed_value_at] typed_bnd [OF mt] typed_if typed_ret typed_andThen [OF typed_push])
      (simp_all add: meta_values_def)
qed

lemma typed_getfenv: "typed V (lua_getfenv i) (\<lambda>_. {})"
proof -
  have closure: "typed W (gets (\<lambda>s. closures s p)) (\<lambda>x. case x of None \<Rightarrow> {} | Some cl \<Rightarrow> closure_values cl)" for W p
    by (rule typed_gets) (auto split: option.split dest: heap_okD(7))
  have udata: "typed W (gets (\<lambda>s. udatas s p)) (\<lambda>x. case x of None \<Rightarrow> {} | Some u \<Rightarrow> udata_values u)" for W p
    by (rule typed_gets) (auto split: option.split dest: heap_okD(8))
  have global: "typed W (gets globals) (\<lambda>g. {TTable g})" for W
    by (rule typed_gets) (use heap_okD(3) in simp)
  show ?thesis
    unfolding lua_getfenv_def
    by (intro typed_adr_value typed_value_case typed_bnd [OF closure] typed_bnd [OF udata] typed_bnd [OF global]
        typed_bnd [OF typed_defined, of _ _ closure_values] typed_bnd [OF typed_defined, of _ _ udata_values] typed_push)
      (auto simp: closure_values_def udata_values_def)
qed

lemma typed_setmetatable: "typed V (lua_setmetatable i) (\<lambda>_. {})"
proof -
  have mt: "typed (W \<union> {m}) (case m of TNil \<Rightarrow> ret 0 | TTable p \<Rightarrow> ret p | _ \<Rightarrow> undef) meta_values" for W m
    by (rule typed_value_case) (auto intro!: typed_ret typed_undef simp: meta_values_def)
  have types: "typed (W \<union> meta_values x) (modify (\<lambda>s. s\<lparr>typemt := (typemt s)(t := x)\<rparr>)) (\<lambda>_. {})" for W x t
    by (rule typed_modify) (auto simp: heap_ok_def later_def simp del: value_ok.simps)
  show ?thesis
    unfolding lua_setmetatable_def
    by (intro typed_bnd [OF typed_value_at] typed_bnd [OF typed_top_value] typed_bnd [OF mt] typed_andThen [where Q = "\<lambda>_. {}", OF _ typed_drop_top]
        typed_value_case types typed_table_update typed_udata_update)
      (simp_all add: table_values_def udata_values_def)
qed

lemma typed_setfenv: "typed V (lua_setfenv i) (\<lambda>_. {})"
proof -
  have env: "typed (W \<union> {m}) (case m of TTable p \<Rightarrow> ret p | _ \<Rightarrow> undef) (\<lambda>e. {TTable e})" for W m
    by (rule typed_value_case) (auto intro!: typed_ret typed_undef)
  have set: "typed (W \<union> {TTable e}) (case v of
       TFunction p \<Rightarrow> andThen (modify (\<lambda>s. s\<lparr>closures := (closures s)(p :=
         map_option (\<lambda>cl. cl\<lparr>cenv := e\<rparr>) (closures s p))\<rparr>)) (ret True)
     | TUserData p \<Rightarrow> andThen (modify (\<lambda>s. s\<lparr>udatas := (udatas s)(p :=
         map_option (\<lambda>u. u\<lparr>uenv := e\<rparr>) (udatas s p))\<rparr>)) (ret True)
     | TThread p \<Rightarrow> andThen (modify (\<lambda>s. s\<lparr>globals := e\<rparr>)) (ret True)
     | _ \<Rightarrow> ret False) (\<lambda>_. {})" for W v e
    by (intro typed_value_case typed_ret typed_andThen [OF typed_closure_update] typed_andThen [OF typed_udata_update]
        typed_andThen [OF typed_fields(2)]) (auto simp: closure_values_def udata_values_def)
  show ?thesis
    unfolding lua_setfenv_def
    by (intro typed_bnd [OF typed_value_at] typed_bnd [OF typed_top_value] typed_bnd [OF env] typed_bnd [OF set]
        typed_andThen [OF typed_drop_top] typed_ret) simp
qed

lemma typed_next: "typed V (lua_next i) (\<lambda>_. {})"
  unfolding lua_next_def
proof (intro typed_bnd [OF typed_table_at] typed_bnd [OF typed_top_value])
  fix ph :: "ptr \<times> Table" and k
  show "typed (V \<union> (case ph of (p, h) \<Rightarrow> table_values h) \<union> {k}) (case luaH_next (snd ph) k of
       Inl msg \<Rightarrow> lua_raise msg
     | Inr None \<Rightarrow> andThen (drop_top 1) (ret False)
     | Inr (Some e) \<Rightarrow> andThen (drop_top 1) (andThen (push (fst e)) (andThen (push (snd e)) (ret True)))) (\<lambda>_. {})"
    by (cases ph, cases "luaH_next (snd ph) k")
      (auto intro!: typed_throw typed_ret typed_andThen [OF typed_drop_top] typed_andThen [OF typed_push]
        dest: luaH_next_ok split: option.split)
qed

lemma typed_blocks: "typed V (read_block p) (\<lambda>_. {})" "typed V (write_block p q) (\<lambda>_. {})"
proof -
  have udata: "typed W (gets (\<lambda>s. udatas s p)) (\<lambda>x. case x of None \<Rightarrow> {} | Some u \<Rightarrow> udata_values u)" for W p
    by (rule typed_gets) (auto split: option.split dest: heap_okD(8))
  show "typed V (read_block p) (\<lambda>_. {})"
    unfolding read_block_def by (intro typed_bnd [OF typed_read] typed_bnd [OF typed_defined, of _ _ "\<lambda>_. {}"] typed_defined) simp_all
  show "typed V (write_block p q) (\<lambda>_. {})"
    unfolding write_block_def
    by (intro typed_bnd [OF udata] typed_bnd [OF typed_defined, of _ _ udata_values] typed_modify conjI put_udata_ok)
      (auto simp: udata_values_def)
qed

section \<open>Typing of the auxiliary library\<close>

lemma typed_luaL_error: "typed V (luaL_error msg) Q"
  unfolding luaL_error_def by (intro typed_bnd [OF typed_read] typed_andThen [OF typed_push] typed_lua_error) simp

lemma typed_argerror: "typed V (luaL_argerror n msg) Q"
  unfolding luaL_argerror_def Let_def by (intro typed_bnd [OF typed_read] typed_if typed_luaL_error)

lemma typed_typerror: "typed V (luaL_typerror n t) Q"
  unfolding luaL_typerror_def Let_def by (intro typed_bnd [OF typed_lua_type] typed_andThen [OF typed_push] typed_argerror) simp

lemma typed_newmetatable: "run_typed run \<Longrightarrow> typed V (luaL_newmetatable run t) (\<lambda>_. {})"
  unfolding luaL_newmetatable_def
  by (intro typed_andThen [OF typed_gets_table(2)] typed_bnd [OF typed_lua_type] typed_if typed_ret typed_andThen [OF typed_pop]
      typed_andThen [OF typed_createtable] typed_andThen [OF typed_pushvalue] typed_andThen [OF typed_sets_table(2)]) simp_all

lemma typed_checkudata: "run_typed run \<Longrightarrow> typed V (luaL_checkudata run i t) (\<lambda>_. {})"
  unfolding luaL_checkudata_def
  by (intro typed_bnd [OF typed_answers(7)] typed_if typed_bnd [OF typed_getmetatable] typed_andThen [OF typed_gets_table(2)]
      typed_bnd [OF typed_lua_rawequal] typed_andThen [OF typed_pop] typed_ret typed_typerror) simp_all

lemma typed_checks:
  "typed V (luaL_checktype n t) (\<lambda>_. {})" "typed V (luaL_checkany n) (\<lambda>_. {})" "typed V (luaL_checklstring n) (\<lambda>_. {})"
  "typed V (luaL_checknumber n) (\<lambda>_. {})" "typed V (luaL_checkinteger n) (\<lambda>_. {})"
  unfolding luaL_checktype_def luaL_checkany_def luaL_checklstring_def luaL_checknumber_def luaL_checkinteger_def tag_error_def
  by (intro typed_bnd [OF typed_lua_type] typed_bnd [OF typed_tolstring] typed_bnd [OF typed_answers(5)] typed_bnd [OF typed_answers(2)]
      typed_bnd [OF typed_tointeger] typed_if typed_option typed_ret typed_typerror typed_argerror; simp)+

lemma typed_opts:
  "typed V (luaL_optlstring n d) (\<lambda>_. {})" "typed V (luaL_optnumber n x) (\<lambda>_. {})" "typed V (luaL_optinteger n k) (\<lambda>_. {})"
  unfolding luaL_optlstring_def luaL_optnumber_def luaL_optinteger_def
  by (intro typed_bnd [OF typed_lua_type] typed_if typed_ret typed_bnd [OF typed_checks(3)] typed_checks; simp)+

lemma typed_checkoption: "typed V (luaL_checkoption n d xs) (\<lambda>_. {})"
proof -
  have name: "typed V (case d of Some x \<Rightarrow> luaL_optlstring n (Some x)
      | None \<Rightarrow> bnd (luaL_checklstring n) (\<lambda>str. ret (Some str))) (\<lambda>_. {})"
    by (intro typed_option typed_opts typed_bnd [OF typed_checks(3)] typed_ret) simp
  show ?thesis
    unfolding luaL_checkoption_def Let_def
    by (intro typed_bnd [OF name] typed_bnd [OF typed_defined, of _ _ "\<lambda>_. {}"] typed_option typed_ret typed_andThen [OF typed_push]
        typed_argerror) simp_all
qed

lemma typed_getmetafield: "typed V (luaL_getmetafield i e) (\<lambda>_. {})"
  unfolding luaL_getmetafield_def
  by (intro typed_bnd [OF typed_getmetatable] typed_if typed_ret typed_andThen [OF typed_pushstring] typed_andThen [OF typed_rawgets(1)]
      typed_bnd [OF typed_lua_type] typed_andThen [OF typed_pop] typed_andThen [OF typed_remove]) simp_all

lemma typed_callmeta: "run_typed run \<Longrightarrow> typed V (luaL_callmeta run i e) (\<lambda>_. {})"
  unfolding luaL_callmeta_def Let_def
  by (intro typed_bnd [OF typed_answers(1)] typed_bnd [OF typed_getmetafield] typed_if typed_ret typed_andThen [OF typed_pushvalue]
      typed_andThen [OF typed_lua_call]) simp_all

section \<open>Sequences of API calls\<close>

datatype api_call =
  Gettop | Settop int | Pop int | Remove int | Insert int | Replace int | Pushvalue int
| Type int | Iscfunction int | Isnumber int | Isstring int | Isuserdata int | Rawequal int int
| Tonumber int | Tointeger int | Toboolean int | Tolstring int | Objlen int | Tocfunction int | Touserdata int
| Tothread int | Topointer int
| Pushnil | Pushnumber double | Pushinteger int | Pushlstring string | Pushstring "string option"
| Pushcclosure string nat | Pushboolean bool | Pushlightuserdata ptr
| Call nat int | Pcall nat int | Error
| Gettable int | Getfield int string | Rawget int | Rawgeti int int | Createtable | Getmetatable int | Getfenv int
| Settable int | Setfield int string | Rawset int | Rawseti int int | Setmetatable int | Setfenv int
| Next int | Newuserdata nat | ReadBlock ptr | WriteBlock ptr ptr
| AuxError string | Argerror int string | Newmetatable string | Checkudata int string | Checktype int int | Checkany int
| Checklstring int | Optlstring int "string option" | Checknumber int | Optnumber int double | Checkinteger int
| Optinteger int int | Checkoption int "string option" "string list" | Getmetafield int string | Callmeta int string

definition void :: "('s, 'a) lua \<Rightarrow> ('s, unit) lua" where
  "void m = bnd m (\<lambda>_. ret ())"

fun run_call :: "(ptr \<Rightarrow> ('z lua_State_scheme, TValue list) lua) \<Rightarrow> api_call \<Rightarrow> ('z lua_State_scheme, unit) lua" where
  "run_call run Gettop = void lua_gettop"
| "run_call run (Settop i) = lua_settop i"
| "run_call run (Pop n) = lua_pop n"
| "run_call run (Remove i) = lua_remove i"
| "run_call run (Insert i) = lua_insert i"
| "run_call run (Replace i) = lua_replace i"
| "run_call run (Pushvalue i) = lua_pushvalue i"
| "run_call run (Type i) = void (lua_type i)"
| "run_call run (Iscfunction i) = void (lua_iscfunction i)"
| "run_call run (Isnumber i) = void (lua_isnumber i)"
| "run_call run (Isstring i) = void (lua_isstring i)"
| "run_call run (Isuserdata i) = void (lua_isuserdata i)"
| "run_call run (Rawequal i j) = void (lua_rawequal i j)"
| "run_call run (Tonumber i) = void (lua_tonumber i)"
| "run_call run (Tointeger i) = void (lua_tointeger i)"
| "run_call run (Toboolean i) = void (lua_toboolean i)"
| "run_call run (Tolstring i) = void (lua_tolstring i)"
| "run_call run (Objlen i) = void (lua_objlen i)"
| "run_call run (Tocfunction i) = void (lua_tocfunction i)"
| "run_call run (Touserdata i) = void (lua_touserdata i)"
| "run_call run (Tothread i) = void (lua_tothread i)"
| "run_call run (Topointer i) = void (lua_topointer i)"
| "run_call run Pushnil = lua_pushnil"
| "run_call run (Pushnumber n) = lua_pushnumber n"
| "run_call run (Pushinteger n) = lua_pushinteger n"
| "run_call run (Pushlstring x) = lua_pushlstring x"
| "run_call run (Pushstring x) = lua_pushstring x"
| "run_call run (Pushcclosure f n) = lua_pushcclosure f n"
| "run_call run (Pushboolean b) = lua_pushboolean b"
| "run_call run (Pushlightuserdata p) = lua_pushlightuserdata p"
| "run_call run (Call n r) = lua_call run n r"
| "run_call run (Pcall n r) = void (lua_pcall run n r)"
| "run_call run Error = lua_error"
| "run_call run (Gettable i) = lua_gettable run i"
| "run_call run (Getfield i k) = lua_getfield run i k"
| "run_call run (Rawget i) = lua_rawget i"
| "run_call run (Rawgeti i n) = lua_rawgeti i n"
| "run_call run Createtable = lua_createtable"
| "run_call run (Getmetatable i) = void (lua_getmetatable i)"
| "run_call run (Getfenv i) = lua_getfenv i"
| "run_call run (Settable i) = lua_settable run i"
| "run_call run (Setfield i k) = lua_setfield run i k"
| "run_call run (Rawset i) = lua_rawset i"
| "run_call run (Rawseti i n) = lua_rawseti i n"
| "run_call run (Setmetatable i) = lua_setmetatable i"
| "run_call run (Setfenv i) = void (lua_setfenv i)"
| "run_call run (Next i) = void (lua_next i)"
| "run_call run (Newuserdata n) = void (lua_newuserdata n)"
| "run_call run (ReadBlock p) = void (read_block p)"
| "run_call run (WriteBlock p q) = write_block p q"
| "run_call run (AuxError msg) = luaL_error msg"
| "run_call run (Argerror n msg) = luaL_argerror n msg"
| "run_call run (Newmetatable t) = void (luaL_newmetatable run t)"
| "run_call run (Checkudata i t) = void (luaL_checkudata run i t)"
| "run_call run (Checktype n t) = luaL_checktype n t"
| "run_call run (Checkany n) = luaL_checkany n"
| "run_call run (Checklstring n) = void (luaL_checklstring n)"
| "run_call run (Optlstring n d) = void (luaL_optlstring n d)"
| "run_call run (Checknumber n) = void (luaL_checknumber n)"
| "run_call run (Optnumber n d) = void (luaL_optnumber n d)"
| "run_call run (Checkinteger n) = void (luaL_checkinteger n)"
| "run_call run (Optinteger n d) = void (luaL_optinteger n d)"
| "run_call run (Checkoption n d xs) = void (luaL_checkoption n d xs)"
| "run_call run (Getmetafield i e) = void (luaL_getmetafield i e)"
| "run_call run (Callmeta i e) = void (luaL_callmeta run i e)"

lemma typed_void: "typed V m (\<lambda>_. {}) \<Longrightarrow> typed V (void m) (\<lambda>_. {})"
  unfolding void_def by (erule typed_bnd) (rule typed_ret, simp)

lemmas typed_api = typed_settop typed_pop typed_remove typed_insert typed_replace typed_pushvalue typed_lua_type typed_lua_rawequal
  typed_answers typed_tointeger typed_function_answers typed_tolstring typed_objlen typed_pushes typed_pushstring typed_pushcclosure
  typed_lua_call typed_lua_pcall typed_lua_error typed_gets_table typed_sets_table typed_rawgets typed_rawsets typed_createtable
  typed_getmetatable typed_getfenv typed_setmetatable typed_setfenv typed_next typed_newuserdata typed_blocks
  typed_luaL_error typed_argerror typed_newmetatable typed_checkudata typed_checks typed_opts typed_checkoption
  typed_getmetafield typed_callmeta

lemma typed_run_call: "run_typed run \<Longrightarrow> typed V (run_call run c) (\<lambda>_. {})"
  by (cases c) (simp_all add: typed_void typed_api)

lemma typed_forEach: "(\<And>x. typed V (f x) (\<lambda>_. {})) \<Longrightarrow> typed V (forEach xs f) (\<lambda>_. {})"
  by (induction xs) (auto intro: typed_ret typed_andThen)

text \<open>
  C functions whose bodies are sequences of API calls, which may call each other to the depth \<open>d\<close>; a function
  returns its whole frame.  They keep the contract of functions.
\<close>

fun c_run :: "(ptr \<Rightarrow> api_call list) \<Rightarrow> nat \<Rightarrow> ptr \<Rightarrow> ('z lua_State_scheme, TValue list) lua" where
  "c_run body 0 p = lua_raise ''C stack overflow''"
| "c_run body (Suc d) p = andThen (forEach (body p) (run_call (c_run body d))) (gets stack)"

lemma run_typedI: "(\<And>p. typed {} (run p) set) \<Longrightarrow> run_typed run"
  by (simp add: run_typed_def typed_def)

lemma c_run_typed: "run_typed (c_run body d :: ptr \<Rightarrow> ('z lua_State_scheme, TValue list) lua)"
proof (induction d)
  case 0
  show ?case by (rule run_typedI, unfold c_run.simps, rule typed_throw) simp
next
  case (Suc d)
  have "typed {} (gets stack) set" by (rule typed_gets) (rule heap_okD)
  then show ?case
    by (intro run_typedI, unfold c_run.simps, intro typed_andThen [OF typed_forEach [OF typed_run_call [OF Suc]]])
qed


text \<open>A sequence with a metatable, a call of a C function that makes a table, and that table as a field.\<close>

definition demo_calls :: "api_call list" where
  "demo_calls = [Createtable, Createtable, Setmetatable (-2), Pushcclosure ''make'' 0, Call 0 1, Rawseti (-2) 1, Rawgeti (-1) 1]"

definition demo_body :: "ptr \<Rightarrow> api_call list" where
  "demo_body p = [Createtable]"

lemma new_state_ok: "heap_ok (new_state [] [])"
  by (simp add: heap_ok_def new_state_def new_table_def table_values_def)


end
