(* ===== verification/SystemModule.thy ===== *)
theory SystemModule
  imports LuaArguments
begin

text \<open>
  The shell module (\<open>ml_system\<close>): the Lua function \<open>system\<close> of \<open>CFunctions.cpp\<close> and the entry points of
  \<open>ml_system.cpp\<close>.  The C function \<open>system\<close> is a parameter, from a command and a state of the host to a status
  and a new state; the branches are those of Linux, where the status \<open>-1\<close> is a failure.
\<close>

section \<open>State\<close>

record 'o shell_world = lua_State +
  shell_manager_set :: bool
  host :: 'o

type_synonym ('o, 'a) shellm = "('o shell_world, 'a) lua"
type_synonym 'o system_call = "string \<Rightarrow> 'o \<Rightarrow> int \<times> 'o"

definition c_system :: "'o system_call \<Rightarrow> string \<Rightarrow> ('o, int) shellm" where
  "c_system sys command = bnd (gets host) (\<lambda>h. let (result, h') = sys command h in
     andThen (modify (\<lambda>w. w\<lparr>host := h'\<rparr>)) (ret result))"

section \<open>The Lua function\<close>

definition System :: "'o system_call \<Rightarrow> ('o, int) shellm" where
  "System sys = (let otherwise = andThen (lua_pushboolean False) (ret 1) in
     bnd (lua_type 1) (\<lambda>t. if t = LUA_TSTRING then
       bnd (lua_tolstring 1) (\<lambda>s. bnd (defined s) (\<lambda>m_bCommand.
       bnd (c_system sys (c_str m_bCommand)) (\<lambda>result.
         if result \<noteq> -1 then andThen (lua_pushboolean True) (ret 1) else otherwise)))
     else otherwise))"

section \<open>Entry points\<close>

definition MAX_INFO_LENGTH :: nat where
  "MAX_INFO_LENGTH = 128"

text \<open>What \<open>strncpy\<close> leaves in the first \<open>n\<close> bytes of its target.\<close>

definition strncpy :: "string \<Rightarrow> nat \<Rightarrow> string" where
  "strncpy src n = take n (c_str src) @ replicate (n - strlen src) nul"

text \<open>The result of \<open>InitModule\<close> with what it writes to the name, the author and the version of the caller.\<close>

definition Shell_InitModule :: "('o, bool \<times> string \<times> string \<times> real) shellm" where
  "Shell_InitModule = andThen (modify (\<lambda>w. w\<lparr>shell_manager_set := True\<rparr>))
     (ret (True, strncpy ''Shell module'' MAX_INFO_LENGTH, strncpy ''x86'' MAX_INFO_LENGTH, 1))"

definition Shell_RegisterFunctions :: "(string \<Rightarrow> ('o, unit) shellm) \<Rightarrow> ('o, unit) shellm" where
  "Shell_RegisterFunctions RegisterFunction =
     bnd (gets shell_manager_set) (\<lambda>m. whenever m (RegisterFunction ''system''))"

definition Shell_DoPulse :: "('o, bool) shellm" where
  "Shell_DoPulse = ret True"

definition Shell_ShutdownModule :: "('o, bool) shellm" where
  "Shell_ShutdownModule = ret True"

definition Shell_ResourceStopping :: "('o, bool) shellm" where
  "Shell_ResourceStopping = ret True"

definition Shell_ResourceStopped :: "('o, bool) shellm" where
  "Shell_ResourceStopped = ret True"

section \<open>Properties\<close>

lemma c_str_strncpy: "strlen src < n \<Longrightarrow> c_str (strncpy src n) = c_str src"
  by (cases "n - strlen src") (simp_all add: strncpy_def strlen_def)

lemma length_strncpy: "length (strncpy src n) = n"
  by (simp add: strncpy_def strlen_def)

text \<open>The server reads the name and the author back from its buffers of \<open>MAX_INFO_LENGTH\<close> bytes.\<close>

lemma shell_module_info:
  "\<exists>name author. Shell_InitModule w = Ret (True, name, author, 1) (w\<lparr>shell_manager_set := True\<rparr>)
     \<and> length name = MAX_INFO_LENGTH \<and> c_str name = ''Shell module''
     \<and> length author = MAX_INFO_LENGTH \<and> c_str author = ''x86''"
  by (simp add: Shell_InitModule_def run_simps length_strncpy c_str_strncpy MAX_INFO_LENGTH_def strlen_def nul_def)

lemma argtype_is_string: "argtype w i = LUA_TSTRING \<longleftrightarrow> (\<exists>s. arg w i = TString s)"
  by (auto simp: argtype_def arg_def ttype_eq_simps)

text \<open>C37: The Lua function \<open>system\<close> always returns one Boolean and raises no error.  If its first argument is a
  string, the shell runs once, with the string up to its first null byte, and the result is whether the status is
  not \<open>-1\<close> (so a command that fails with another status counts as a success).  With any other argument, a
  number included, nothing is run and the result is false.  Besides the host and the pushed result nothing changes.\<close>

theorem system_result:
  "System sys w = (case arg w 1 of
     TString s \<Rightarrow> (let (status, h) = sys (c_str s) (host w) in
       Ret 1 (w\<lparr>stack := stack w @ [TBoolean (status \<noteq> -1)], host := h\<rparr>))
   | _ \<Rightarrow> Ret 1 (w\<lparr>stack := stack w @ [TBoolean False]\<rparr>))"
proof (cases "argtype w 1 = LUA_TSTRING")
  case True
  then obtain s where "arg w 1 = TString s" using argtype_is_string by blast
  with True show ?thesis
    by (cases "sys (c_str s) (host w)") (simp add: System_def c_system_def run_simps api_simps Let_def)
next
  case False
  then have "System sys w = Ret 1 (w\<lparr>stack := stack w @ [TBoolean False]\<rparr>)"
    by (simp add: System_def run_simps api_simps Let_def)
  with False argtype_is_string [of w 1] show ?thesis by (auto split: TValue.split)
qed

end
