(* ===== verification/Spec2Isabelle.thy ===== *)
theory Spec2Isabelle
imports SocketsSpec MySQLSpec TexturizerFiles TexturizerImages CurlSpec LuaTableSpec
  LuaImports LuaTyping SystemModule
begin

text \<open>
  Verification library of the MTA:SA server modules (\<open>src/\<close>).

  The repository holds five modules that the server of Multi Theft Auto loads as shared objects:
  \<open>sockets\<close> (TCP sockets for scripts), \<open>mta-mysql\<close> (a MySQL client), \<open>Texturizer\<close> (gd images and texture
  dictionaries of the game), \<open>ml_curl\<close> (libcurl transfers) and \<open>ml_system\<close> (the C function \<open>system\<close>).  The
  server calls the entry points of a module (\<open>InitModule\<close>, \<open>RegisterFunctions\<close>, \<open>DoPulse\<close>,
  \<open>ResourceStopped\<close>, \<open>ShutdownModule\<close>); \<open>RegisterFunctions\<close> makes C++ functions known to the Lua machine of
  a resource, whose scripts call them; a module calls back into Lua through \<open>CLuaArguments::Call\<close> or
  \<open>lua_call\<close>.  Every module is linked with the Lua 5.1 library of its directory or imports the one of the server.

  \<^bold>\<open>Programs.\<close>  \<open>Prelude\<close> has the type of stateful programs: a run returns, leaves through a Lua error with a
  value and a state, or is undefined (null or freed pointers, indices out of range, conversions that do not fit).
  \<open>triple\<close> and \<open>keeps\<close> are total correctness, so a theorem in these terms says that no undefined step is
  reached.  \<open>LuaFrame\<close> relates the start and the end of a run whatever its result.  \<open>StdMap\<close> has the locale of
  keyed stores, with \<open>std::map\<close> and (in \<open>LuaAux\<close>) Lua tables as instances.

  \<^bold>\<open>Lua\<close> (\<open>ml_curl/lib/lua51/src\<close>, the same sources as in the other modules).  \<open>LuaNumber\<close> reads and prints
  numbers; \<open>LuaState\<close> has values, heap and stack frame; \<open>LuaApi\<close> the functions of \<open>lapi.c\<close>; \<open>LuaAux\<close> those
  of \<open>lauxlib.c\<close>; \<open>LuaObject\<close> all of \<open>lobject.c\<close>.  A table is a list of entries there.  \<open>LuaTable\<close> has the
  array and node representation of \<open>ltable.c\<close> itself; \<open>LuaNodes\<close> proves that inserting a key by Brent's
  variation keeps all chains, \<open>LuaTableInv\<close> the invariant of a table, \<open>LuaCount\<close> that the sizes computed
  before a rehash are enough, \<open>LuaRehash\<close> that resizing loses nothing, and \<open>LuaTableSpec\<close> that the representation
  refines the list of entries, that a traversal visits every pair once and that the length is a border.

  \<open>LuaTyping\<close> types the API: no sequence of calls makes a reference to an object that does not exist.

  \<^bold>\<open>Import of Lua\<close> (\<open>luaimports.cpp\<close> of \<open>sockets\<close> and \<open>mta-mysql\<close>): \<open>LuaImports\<close> has \<open>ImportLua\<close> and the thunks of
  the API functions, and proves when the import succeeds and that every thunk then calls its own function.

  \<^bold>\<open>Argument lists\<close> (\<open>CLuaArgument.cpp\<close>, \<open>CLuaArguments.cpp\<close>, copied into each module):
  \<open>LuaArguments\<close>, with the round trip from the stack to a list and back, and what \<open>Call\<close> calls.

  \<^bold>\<open>sockets\<close>: \<open>Sockets\<close> (\<open>CSocket.cpp\<close>, \<open>CSocketManager.cpp\<close>, \<open>CFunctions.cpp\<close>, \<open>ml_sockets.cpp\<close>),
  \<open>SocketsSafety\<close> (the invariant under scripts that call the module again while it is in an event) and
  \<open>SocketsSpec\<close> (reachable states, events, life and death of a socket).

  \<^bold>\<open>mta-mysql\<close>: \<open>MySQLHandler\<close> (\<open>handler.cpp\<close>, \<open>module.cpp\<close>), \<open>MySQLResult\<close> (\<open>result.cpp\<close>) and
  \<open>MySQLSpec\<close> (closed and collected objects, client flags, methods, fields and rows).

  \<^bold>\<open>Texturizer\<close>: \<open>FilePaths\<close> (which file names are accepted, and that they stay below a resource),
  \<open>TxdFormat\<close> (the writer of texture dictionaries with a reader as its specification), \<open>GdImages\<close> and
  \<open>GdFunctions\<close> (registry, containers and all Lua functions), \<open>TexturizerSpec\<close>, \<open>TexturizerFiles\<close> and
  \<open>TexturizerImages\<close> (containers stay well formed, files written, images destroyed once).

  \<^bold>\<open>ml_curl\<close>: \<open>CurlConstants\<close>, \<open>CurlModule\<close> (\<open>Mtacurl.cpp\<close>, \<open>Mtacurls.cpp\<close>, \<open>CFunctions.cpp\<close>,
  \<open>ml_system.cpp\<close>), \<open>CurlSafety\<close> and \<open>CurlSpec\<close> (no use after cleanup, pulses, constants, handlers).

  \<^bold>\<open>ml_system\<close>: \<open>SystemModule\<close> (\<open>CFunctions.cpp\<close>, \<open>ml_system.cpp\<close>), with what \<open>system\<close> runs and returns.

  \<^bold>\<open>What is a parameter.\<close>  The operating system (\<open>os_calls\<close>, the dynamic linker \<open>dl_calls\<close>, the C function \<open>system\<close>), the MySQL client library, gd and squish, libcurl,
  the server's answers (known resources, names of machines) and Lua code.  Lua code that calls back is
  either an arbitrary function (\<open>run\<close>) or any tree of calls of the module's functions that may look at the
  results.  What a theorem needs of a library is a named hypothesis (\<open>gd_contract\<close>, \<open>curl_contract\<close>,
  \<open>recv_ok\<close>) with a witness that instantiates it.

  \<^bold>\<open>Bounds and fuel.\<close>  Nested calls from C into Lua and back are counted down: Lua itself stops at
  \<open>LUAI_MAXCCALLS\<close>, and the theorems hold for every depth.  Metatable chains have the bound
  \<open>MAXTAGLOOP\<close> of the source.  \<open>newkey\<close> has depth 2, proved to be enough.  The searches for a decimal or binary
  exponent take 1100 steps, more than any \<open>double\<close> has places.  Loops over lists take the length of the
  list.  Machine integers have their width where the code depends on it (sizes in TXD chunks, floating point
  bytes, hashes, \<open>size_t\<close> to \<open>int\<close>); indices and counts that cannot reach their limit are natural numbers.

  \<^bold>\<open>Not modelled.\<close>  The compiler and the interpreter loop of Lua, its garbage collector, coroutines, hooks and
  standard libraries: the modules reach them only through calls into Lua, which are the parameter above.  The
  collector's only effect on the modules is the call of \<open>__gc\<close>, which \<open>MySQLSpec\<close> covers.  The bound on
  the size of the Lua stack, failing allocations and the sign of zero.  The branches for Windows, the unused
  classes \<open>CThread\<close> and \<open>CThreadData\<close>, the stand-alone program of the texture writer, headers of third-party
  libraries and build files.  The Lua resources under \<open>resources/\<close> are scripts of their own.
\<close>

end
